(* ===== verification/Go_Prelude.thy ===== *)
theory Go_Prelude
  imports Main "HOL-Library.Word"
begin

text \<open>
  What the components share: the byte strings of Go with the functions of package
  \<open>strings\<close> the sources call, 64-bit integers, and the collections of hints.

  A Go string is a sequence of bytes, and so is a HOL \<open>string\<close> (a \<open>char\<close> is a byte).
  \<open>strings.TrimSpace\<close> and \<open>strings.Fields\<close> work on the UTF-8 encodings of the 25 white-space
  characters of Unicode, listed in \<open>space_runes\<close>. \<open>strings.ToLower\<close>, \<open>strings.ToUpper\<close>
  and \<open>strings.EqualFold\<close> are given for the ASCII letters and for the few other characters that
  map to an ASCII letter (dotted capital I, Kelvin sign, long s, dotless i); every other
  non-ASCII byte is left alone. All sources compare the result with an ASCII text, or look for an
  ASCII text in it, so for them the other case pairs of Unicode make no difference; the three
  places that compare two free texts (\<open>RequireAdmin\<close> and the two host comparisons of the captcha)
  are exact when one of the two is ASCII.
\<close>

named_theorems str_simps "rewrite rules for the functions on byte strings"

section \<open>Prefixes and substrings\<close>

text \<open>\<open>has_prefix s p\<close> is \<open>strings.HasPrefix(s, p)\<close>, \<open>contains s p\<close> is \<open>strings.Contains(s, p)\<close>.\<close>

fun has_prefix :: "string \<Rightarrow> string \<Rightarrow> bool" where
  "has_prefix s [] = True"
| "has_prefix [] (p # ps) = False"
| "has_prefix (c # cs) (p # ps) = (c = p \<and> has_prefix cs ps)"

fun contains :: "string \<Rightarrow> string \<Rightarrow> bool" where
  "contains [] p = (p = [])"
| "contains (c # cs) p = (has_prefix (c # cs) p \<or> contains cs p)"

definition trim_prefix :: "string \<Rightarrow> string \<Rightarrow> string" where
  "trim_prefix s p = (if has_prefix s p then drop (length p) s else s)"

lemma has_prefix_iff: "has_prefix s p \<longleftrightarrow> (\<exists>t. s = p @ t)"
  by (induction s p rule: has_prefix.induct) auto

lemma has_prefix_append [simp]: "has_prefix (p @ t) p"
  by (auto simp: has_prefix_iff)

lemma has_prefix_length: "has_prefix s p \<Longrightarrow> length p \<le> length s"
  by (auto simp: has_prefix_iff)

lemma has_prefix_take_drop: "has_prefix s p \<Longrightarrow> s = p @ drop (length p) s"
  by (auto simp: has_prefix_iff)

lemma has_prefix_mono: "has_prefix s p \<Longrightarrow> has_prefix (s @ t) p"
  by (auto simp: has_prefix_iff)

lemma contains_iff: "contains s p \<longleftrightarrow> (\<exists>a b. s = a @ p @ b)"
proof (induction s)
  case Nil
  then show ?case by simp
next
  case (Cons c cs)
  have "(\<exists>a b. c # cs = a @ p @ b) \<longleftrightarrow>
      (\<exists>b. c # cs = p @ b) \<or> (\<exists>a b. cs = a @ p @ b)"
    by (metis append_Cons append_Nil list.sel(3) neq_Nil_conv)
  then show ?case
    using Cons.IH by (simp add: has_prefix_iff)
qed

lemma contains_append_left: "contains s p \<Longrightarrow> contains (t @ s) p"
  by (metis append.assoc contains_iff)

lemma contains_append_right: "contains s p \<Longrightarrow> contains (s @ t) p"
  by (metis append.assoc contains_iff)

lemma trim_prefix_append [simp]: "trim_prefix (p @ s) p = s"
  by (simp add: trim_prefix_def)

section \<open>White space\<close>

text \<open>The encodings of the characters for which \<open>unicode.IsSpace\<close> holds.\<close>

definition space_runes :: "string list" where
  "space_runes =
     [[CHR 0x20], [CHR 0x09], [CHR 0x0A], [CHR 0x0B], [CHR 0x0C], [CHR 0x0D],
      [CHR 0xC2, CHR 0x85], [CHR 0xC2, CHR 0xA0], [CHR 0xE1, CHR 0x9A, CHR 0x80],
      [CHR 0xE2, CHR 0x80, CHR 0x80], [CHR 0xE2, CHR 0x80, CHR 0x81],
      [CHR 0xE2, CHR 0x80, CHR 0x82], [CHR 0xE2, CHR 0x80, CHR 0x83],
      [CHR 0xE2, CHR 0x80, CHR 0x84], [CHR 0xE2, CHR 0x80, CHR 0x85],
      [CHR 0xE2, CHR 0x80, CHR 0x86], [CHR 0xE2, CHR 0x80, CHR 0x87],
      [CHR 0xE2, CHR 0x80, CHR 0x88], [CHR 0xE2, CHR 0x80, CHR 0x89],
      [CHR 0xE2, CHR 0x80, CHR 0x8A], [CHR 0xE2, CHR 0x80, CHR 0xA8],
      [CHR 0xE2, CHR 0x80, CHR 0xA9], [CHR 0xE2, CHR 0x80, CHR 0xAF],
      [CHR 0xE2, CHR 0x81, CHR 0x9F], [CHR 0xE3, CHR 0x80, CHR 0x80]]"

text \<open>\<open>rune_at rs s\<close> is the length of the first member of \<open>rs\<close> that starts \<open>s\<close>, 0 if none does.\<close>

fun rune_at :: "string list \<Rightarrow> string \<Rightarrow> nat" where
  "rune_at [] s = 0"
| "rune_at (r # rs) s = (if r \<noteq> [] \<and> has_prefix s r then length r else rune_at rs s)"

lemma rune_at_le: "rune_at rs s \<le> length s"
  by (induction rs) (auto dest: has_prefix_length)

lemma rune_at_Nil [simp]: "rune_at rs [] = 0"
  using rune_at_le [of rs "[]"] by simp

lemma rune_at_0_iff: "rune_at rs s = 0 \<longleftrightarrow> (\<forall>r\<in>set rs. r = [] \<or> \<not> has_prefix s r)"
  by (induction rs) auto

lemma rune_at_append_0: "rune_at rs (s @ t) = 0 \<Longrightarrow> rune_at rs s = 0"
  by (auto simp: rune_at_0_iff dest: has_prefix_mono)

function strip_runes :: "string list \<Rightarrow> string \<Rightarrow> string" where
  "strip_runes rs s =
     (if rune_at rs s = 0 then s else strip_runes rs (drop (rune_at rs s) s))"
  by pat_completeness auto
termination
proof (relation "measure (\<lambda>(rs, s). length s)")
  show "wf (measure (\<lambda>(rs, s). length s))" by simp
  fix rs s
  assume "rune_at rs s \<noteq> 0"
  then show "((rs, drop (rune_at rs s) s), rs, s) \<in> measure (\<lambda>(rs, s). length s)"
    using rune_at_le [of rs s] by simp
qed

declare strip_runes.simps [simp del]

lemma strip_runes_0: "rune_at rs s = 0 \<Longrightarrow> strip_runes rs s = s"
  by (simp add: strip_runes.simps)

lemma strip_runes_Nil [simp]: "strip_runes rs [] = []"
  by (simp add: strip_runes_0)

lemma rune_at_strip [simp]: "rune_at rs (strip_runes rs s) = 0"
proof (induction rs s rule: strip_runes.induct)
  case (1 rs s)
  then show ?case by (cases "rune_at rs s = 0") (simp_all add: strip_runes.simps [of rs s])
qed

lemma strip_runes_idem [simp]: "strip_runes rs (strip_runes rs s) = strip_runes rs s"
  by (simp add: strip_runes_0)

lemma strip_runes_suffix: "\<exists>t. s = t @ strip_runes rs s"
proof (induction rs s rule: strip_runes.induct)
  case (1 rs s)
  show ?case
  proof (cases "rune_at rs s = 0")
    case True
    then show ?thesis by (simp add: strip_runes_0)
  next
    case False
    with "1.IH" obtain t where
      "drop (rune_at rs s) s = t @ strip_runes rs (drop (rune_at rs s) s)" by blast
    then have "s = (take (rune_at rs s) s @ t) @ strip_runes rs (drop (rune_at rs s) s)"
      by (metis append.assoc append_take_drop_id)
    then have "\<exists>t'. s = t' @ strip_runes rs (drop (rune_at rs s) s)" by blast
    with False show ?thesis by (simp add: strip_runes.simps [of rs s])
  qed
qed

definition trim_left :: "string \<Rightarrow> string" where
  "trim_left s = strip_runes space_runes s"

definition trim_right :: "string \<Rightarrow> string" where
  "trim_right s = rev (strip_runes (map rev space_runes) (rev s))"

text \<open>\<open>trim_space\<close> is \<open>strings.TrimSpace\<close>.\<close>

definition trim_space :: "string \<Rightarrow> string" where
  "trim_space s = trim_right (trim_left s)"

lemma trim_right_prefix: "\<exists>t. s = trim_right s @ t"
proof -
  obtain t where "rev s = t @ strip_runes (map rev space_runes) (rev s)"
    using strip_runes_suffix by blast
  then have "s = trim_right s @ rev t"
    by (metis rev_append rev_rev_ident trim_right_def)
  then show ?thesis ..
qed

lemma trim_left_trim_right: "trim_left s = s \<Longrightarrow> trim_left (trim_right s) = trim_right s"
proof -
  assume "trim_left s = s"
  then have "rune_at space_runes s = 0"
    using rune_at_strip [of space_runes s] by (simp add: trim_left_def)
  moreover obtain t where "s = trim_right s @ t" using trim_right_prefix by blast
  ultimately have "rune_at space_runes (trim_right s) = 0"
    using rune_at_append_0 by metis
  then show ?thesis by (simp add: trim_left_def strip_runes_0)
qed

lemma trim_right_idem [simp]: "trim_right (trim_right s) = trim_right s"
  by (simp add: trim_right_def)

lemma trim_left_idem [simp]: "trim_left (trim_left s) = trim_left s"
  by (simp add: trim_left_def)

lemma trim_space_idem [simp]: "trim_space (trim_space s) = trim_space s"
  by (simp add: trim_space_def trim_left_trim_right)

lemma trim_space_Nil [simp]: "trim_space [] = []"
  by (simp add: trim_space_def trim_left_def trim_right_def)

text \<open>A byte that begins no white-space character, and one that ends none.\<close>

definition plain_char :: "char \<Rightarrow> bool" where
  "plain_char c \<longleftrightarrow> c \<notin> \<Union> (set ` set space_runes)"

lemma plain_char_code [code]:
  "plain_char c \<longleftrightarrow> list_all (\<lambda>r. \<not> List.member r c) space_runes"
  by (auto simp: plain_char_def list_all_iff)

lemma rune_at_plain: "plain_char c \<Longrightarrow> rune_at space_runes (c # s) = 0"
proof -
  assume c: "plain_char c"
  have "\<not> has_prefix (c # s) r" if r: "r \<in> set space_runes" "r \<noteq> []" for r
  proof -
    obtain x xs where x: "r = x # xs" using r(2) by (cases r) auto
    then have "x \<in> set r" by simp
    with r c have "x \<noteq> c" unfolding plain_char_def by blast
    with x show ?thesis by simp
  qed
  then show ?thesis unfolding rune_at_0_iff by blast
qed

lemma rune_at_rev_plain: "plain_char c \<Longrightarrow> rune_at (map rev space_runes) (c # s) = 0"
proof -
  assume c: "plain_char c"
  have "\<not> has_prefix (c # s) (rev r)" if r: "r \<in> set space_runes" "r \<noteq> []" for r
  proof (cases "rev r")
    case Nil
    with r show ?thesis by simp
  next
    case (Cons x xs)
    then have "x \<in> set r" by (metis list.set_intros(1) set_rev)
    with r c Cons show ?thesis by (auto simp: plain_char_def dest: bspec)
  qed
  then show ?thesis unfolding rune_at_0_iff by auto
qed

lemma trim_space_plain:
  assumes "s = [] \<or> (plain_char (hd s) \<and> plain_char (last s))"
  shows "trim_space s = s"
proof (cases "s = []")
  case True
  then show ?thesis by simp
next
  case False
  with assms have h: "plain_char (hd s)" and l: "plain_char (last s)" by auto
  have "trim_left s = s"
    using False h by (cases s) (simp_all add: trim_left_def strip_runes_0 rune_at_plain)
  moreover have "trim_right s = s"
  proof -
    have "rev s = last s # rev (butlast s)"
      using False by (metis append_butlast_last_id rev_eq_Cons_iff rev_rev_ident)
    then have "rune_at (map rev space_runes) (rev s) = 0"
      using l rune_at_rev_plain by metis
    then show ?thesis by (simp add: trim_right_def strip_runes_0)
  qed
  ultimately show ?thesis by (simp add: trim_space_def)
qed

lemma trim_space_all_plain: "list_all plain_char s \<Longrightarrow> trim_space s = s"
  by (rule trim_space_plain) (cases s; auto simp: list_all_iff)

text \<open>\<open>fields\<close> is \<open>strings.Fields\<close>: the maximal runs between white space.\<close>

function fields_from :: "string \<Rightarrow> string \<Rightarrow> string list" where
  "fields_from acc s =
     (if s = [] then (if acc = [] then [] else [acc])
      else if rune_at space_runes s = 0 then fields_from (acc @ [hd s]) (tl s)
      else (if acc = [] then [] else [acc])
             @ fields_from [] (drop (rune_at space_runes s) s))"
  by pat_completeness auto
termination
proof (relation "measure (\<lambda>(acc, s). length s)")
  show "wf (measure (\<lambda>(acc, s). length s))" by simp
next
  fix acc s :: string
  assume "s \<noteq> []"
  then show "((acc @ [hd s], tl s), acc, s) \<in> measure (\<lambda>(acc, s). length s)" by simp
next
  fix acc s :: string
  assume "s \<noteq> []" "rune_at space_runes s \<noteq> 0"
  then show "(([], drop (rune_at space_runes s) s), acc, s) \<in> measure (\<lambda>(acc, s). length s)"
    using rune_at_le [of space_runes s] by simp
qed

declare fields_from.simps [simp del]

definition fields :: "string \<Rightarrow> string list" where
  "fields s = fields_from [] s"

section \<open>Separators\<close>

text \<open>\<open>split_on\<close> is \<open>strings.Split\<close> with a one-byte separator, \<open>join_with\<close> is \<open>strings.Join\<close>.\<close>

fun split_on :: "char \<Rightarrow> string \<Rightarrow> string list" where
  "split_on d [] = [[]]"
| "split_on d (c # cs) =
     (if c = d then [] # split_on d cs
      else (case split_on d cs of [] \<Rightarrow> [[c]] | w # ws \<Rightarrow> (c # w) # ws))"

fun join_with :: "string \<Rightarrow> string list \<Rightarrow> string" where
  "join_with d [] = []"
| "join_with d [x] = x"
| "join_with d (x # y # ys) = x @ d @ join_with d (y # ys)"

text \<open>\<open>strings.Cut\<close> at a one-byte separator: \<open>None\<close> when it does not occur.\<close>

fun cut_at :: "char \<Rightarrow> string \<Rightarrow> (string \<times> string) option" where
  "cut_at d [] = None"
| "cut_at d (c # cs) =
     (if c = d then Some ([], cs)
      else (case cut_at d cs of None \<Rightarrow> None | Some (a, b) \<Rightarrow> Some (c # a, b)))"

lemma split_on_nonempty [simp]: "split_on d s \<noteq> []"
  by (induction s) (auto split: list.splits)

lemma join_split [simp]: "join_with [d] (split_on d s) = s"
proof (induction s)
  case Nil
  then show ?case by simp
next
  case (Cons c cs)
  obtain w ws where w: "split_on d cs = w # ws" by (cases "split_on d cs") auto
  with Cons.IH show ?case by (cases ws) auto
qed

lemma split_on_no_sep: "w \<in> set (split_on d s) \<Longrightarrow> d \<notin> set w"
  by (induction s arbitrary: w) (auto split: list.splits if_splits)

lemma cut_at_Some: "cut_at d s = Some (a, b) \<Longrightarrow> s = a @ d # b \<and> d \<notin> set a"
  by (induction s arbitrary: a) (auto split: if_splits option.splits)

lemma cut_at_append: "d \<notin> set a \<Longrightarrow> cut_at d (a @ d # b) = Some (a, b)"
  by (induction a) auto

section \<open>Letter case\<close>

definition ascii_lower :: "char \<Rightarrow> char" where
  "ascii_lower c =
     (let n = of_char c :: nat in if 65 \<le> n \<and> n \<le> 90 then char_of (n + 32) else c)"

definition ascii_upper :: "char \<Rightarrow> char" where
  "ascii_upper c =
     (let n = of_char c :: nat in if 97 \<le> n \<and> n \<le> 122 then char_of (n - 32) else c)"

text \<open>
  \<open>map_case tbl f s\<close> replaces the encodings listed in \<open>tbl\<close> by their ASCII letter and maps
  every other byte with \<open>f\<close>.
\<close>

fun rune_to :: "(string \<times> char) list \<Rightarrow> string \<Rightarrow> (nat \<times> char) option" where
  "rune_to [] s = None"
| "rune_to ((r, c) # rs) s = (if has_prefix s r then Some (length r - 1, c) else rune_to rs s)"

fun map_case_skip :: "(string \<times> char) list \<Rightarrow> (char \<Rightarrow> char) \<Rightarrow> nat \<Rightarrow> string \<Rightarrow> string" where
  "map_case_skip tbl f n [] = []"
| "map_case_skip tbl f (Suc n) (a # s) = map_case_skip tbl f n s"
| "map_case_skip tbl f 0 (a # s) =
     (case rune_to tbl (a # s) of
        None \<Rightarrow> f a # map_case_skip tbl f 0 s
      | Some (n, c) \<Rightarrow> c # map_case_skip tbl f n s)"

definition to_lower :: "string \<Rightarrow> string" where
  "to_lower s =
     map_case_skip
       [([CHR 0xC4, CHR 0xB0], CHR ''i''), ([CHR 0xE2, CHR 0x84, CHR 0xAA], CHR ''k'')]
       ascii_lower 0 s"

definition to_upper :: "string \<Rightarrow> string" where
  "to_upper s =
     map_case_skip
       [([CHR 0xC4, CHR 0xB1], CHR ''I''), ([CHR 0xC5, CHR 0xBF], CHR ''S'')]
       ascii_upper 0 s"

definition fold_case :: "string \<Rightarrow> string" where
  "fold_case s =
     map_case_skip
       [([CHR 0xC5, CHR 0xBF], CHR ''s''), ([CHR 0xE2, CHR 0x84, CHR 0xAA], CHR ''k'')]
       ascii_lower 0 s"

definition equal_fold :: "string \<Rightarrow> string \<Rightarrow> bool" where
  "equal_fold s t \<longleftrightarrow> fold_case s = fold_case t"

definition is_ascii :: "char \<Rightarrow> bool" where
  "is_ascii c \<longleftrightarrow> (of_char c :: nat) < 128"

lemma map_case_ascii:
  assumes "list_all is_ascii s"
    and "\<forall>(r, c)\<in>set tbl. r \<noteq> [] \<and> \<not> is_ascii (hd r)"
  shows "map_case_skip tbl f 0 s = map f s"
  using assms
proof (induction s)
  case Nil
  then show ?case by simp
next
  case (Cons a s)
  have "rune_to tbl' (a # s) = None"
    if "\<forall>(r, c)\<in>set tbl'. r \<noteq> [] \<and> \<not> is_ascii (hd r)" for tbl'
    using that
  proof (induction tbl')
    case Nil
    then show ?case by simp
  next
    case (Cons p tbl')
    obtain r c where p: "p = (r, c)" by (cases p)
    have "is_ascii a" using \<open>list_all is_ascii (a # s)\<close> by simp
    then have "\<not> has_prefix (a # s) r" using Cons.prems p by (cases r) auto
    with Cons p show ?case by simp
  qed
  with Cons show ?case by simp
qed

lemma ascii_bytes [simp]:
  "\<not> is_ascii (CHR 0xC4)" "\<not> is_ascii (CHR 0xC5)" "\<not> is_ascii (CHR 0xE2)"
  by (simp_all add: is_ascii_def)

lemma to_lower_ascii: "list_all is_ascii s \<Longrightarrow> to_lower s = map ascii_lower s"
  unfolding to_lower_def by (rule map_case_ascii) auto

lemma to_upper_ascii: "list_all is_ascii s \<Longrightarrow> to_upper s = map ascii_upper s"
  unfolding to_upper_def by (rule map_case_ascii) auto

lemma fold_case_ascii: "list_all is_ascii s \<Longrightarrow> fold_case s = map ascii_lower s"
  unfolding fold_case_def by (rule map_case_ascii) auto

lemma to_lower_Nil [simp]: "to_lower [] = []"
  by (simp add: to_lower_def)

lemma equal_fold_refl [simp]: "equal_fold s s"
  by (simp add: equal_fold_def)

lemma equal_fold_sym: "equal_fold s t = equal_fold t s"
  by (auto simp: equal_fold_def)

section \<open>Integers\<close>

text \<open>
  \<open>int\<close> and \<open>int64\<close> (so also \<open>time.Duration\<close>, in nanoseconds) are 64-bit two's complement:
  \<open>wrap64\<close> is the value a result outside the range wraps to.
\<close>

definition wrap64 :: "int \<Rightarrow> int" where
  "wrap64 n = signed_take_bit 63 n"

definition in64 :: "int \<Rightarrow> bool" where
  "in64 n \<longleftrightarrow> - (2 ^ 63) \<le> n \<and> n < 2 ^ 63"

lemma wrap64_in64 [simp]: "in64 (wrap64 n)"
  using signed_take_bit_int_greater_eq_minus_exp [of 63 n] signed_take_bit_int_less_exp [of 63 n]
  by (simp add: wrap64_def in64_def)

lemma wrap64_id: "in64 n \<Longrightarrow> wrap64 n = n"
  by (simp add: wrap64_def in64_def signed_take_bit_int_eq_self)

lemma wrap64_word: "wrap64 n = sint (word_of_int n :: 64 word)"
  by (simp add: wrap64_def signed_of_int)

definition nanosecond :: int where "nanosecond = 1"
definition second :: int where "second = 1000000000"
definition minute :: int where "minute = 60 * second"

lemmas duration_defs = nanosecond_def second_def minute_def

section \<open>Decimal numerals\<close>

text \<open>\<open>itoa\<close> is \<open>strconv.Itoa\<close>, and \<open>%d\<close> of \<open>fmt\<close>.\<close>

fun dec_nat :: "nat \<Rightarrow> string" where
  "dec_nat n =
     (if n < 10 then [char_of (48 + n)] else dec_nat (n div 10) @ [char_of (48 + n mod 10)])"

declare dec_nat.simps [simp del]

definition itoa :: "int \<Rightarrow> string" where
  "itoa n = (if n < 0 then CHR ''-'' # dec_nat (nat (- n)) else dec_nat (nat n))"

definition is_digit :: "char \<Rightarrow> bool" where
  "is_digit c \<longleftrightarrow> (48 :: nat) \<le> of_char c \<and> of_char c \<le> (57 :: nat)"

definition digit_val :: "char \<Rightarrow> int" where
  "digit_val c = int (of_char c) - 48"

definition digits_val :: "string \<Rightarrow> int" where
  "digits_val ds = foldl (\<lambda>n c. 10 * n + digit_val c) 0 ds"

lemma digit_of_char: "n < 10 \<Longrightarrow> is_digit (char_of (48 + n)) \<and> digit_val (char_of (48 + n)) = int n"
  by (simp add: is_digit_def digit_val_def)

lemma dec_nat_nonempty [simp]: "dec_nat n \<noteq> []"
  by (subst dec_nat.simps) simp

lemma dec_nat_digits: "list_all is_digit (dec_nat n)"
proof (induction n rule: dec_nat.induct)
  case (1 n)
  then show ?case
    using digit_of_char [of n] digit_of_char [of "n mod 10"]
    by (subst dec_nat.simps) simp
qed

lemma digits_val_dec_nat [simp]: "digits_val (dec_nat n) = int n"
proof (induction n rule: dec_nat.induct)
  case (1 n)
  show ?case
  proof (cases "n < 10")
    case True
    then show ?thesis
      using digit_of_char [of n] by (subst dec_nat.simps) (simp add: digits_val_def)
  next
    case False
    then have "digits_val (dec_nat n) = 10 * int (n div 10) + int (n mod 10)"
      using "1.IH" digit_of_char [of "n mod 10"]
      by (subst dec_nat.simps) (simp add: digits_val_def)
    moreover have "10 * int (n div 10) + int (n mod 10) = int n"
      by (metis of_nat_add of_nat_mult of_nat_numeral mult_div_mod_eq)
    ultimately show ?thesis by simp
  qed
qed

lemma is_digit_simps: "is_digit c \<Longrightarrow> c \<noteq> CHR ''-'' \<and> c \<noteq> CHR ''+'' \<and> plain_char c"
  by (auto simp: is_digit_def plain_char_def space_runes_def)

end
