(* ===== verification/Go_Errors.thy ===== *)
theory Go_Errors
  imports Go_Prelude "HOL-Library.Char_ord" "HOL-Library.List_Lexorder"
begin

text \<open>
  Module \<open>errors\<close> (package \<open>apperr\<close>): the application error \<open>RichError\<close> and
  \<open>ValidationError\<close>, and the error values of the other packages, in one datatype, so that
  \<open>errors.As\<close> and \<open>errors.Is\<close> can walk a chain of any of them.

  A method of a pointer type takes an \<open>option\<close>: \<open>None\<close> is the nil receiver, and \<open>ERich None\<close>
  is a nil \<open>*RichError\<close> inside a non-nil \<open>error\<close>. An \<open>error\<close> that may be nil is a
  \<open>goerr option\<close>. Errors of libraries (\<open>EHTTP\<close> of echo, \<open>ENet\<close> for whatever satisfies
  \<open>net.Error\<close>, \<open>EJwt\<close>, \<open>EStatus\<close> of gRPC) carry what the sources read of them, their
  \<open>Error()\<close> text among it.
\<close>

section \<open>Error values\<close>

datatype jwt_sentinel =
  TokenExpired | TokenInvalidAudience | TokenInvalidIssuer | TokenSignatureInvalid | TokenOther

datatype grpc_code =
  OK | Canceled | Unknown | InvalidArgument | DeadlineExceeded | NotFound | AlreadyExists
| PermissionDenied | ResourceExhausted | FailedPrecondition | Aborted | OutOfRange
| Unimplemented | Internal | Unavailable | DataLoss | Unauthenticated

datatype goerr =
    EText string                             \<comment> \<open>\<open>errors.New\<close>\<close>
  | EWrap string goerr                       \<comment> \<open>\<open>fmt.Errorf("...: %w", err)\<close>: the text before the cause\<close>
  | ERich "rich option"
  | EValidation "(string \<times> string) list option" \<comment> \<open>the fields of a \<open>ValidationError\<close>\<close>
  | EAuthFailure "auth_failure option"
  | ECaptcha captcha_error
  | EOutcome "outcome_error option"
  | EHTTP "http_error option"
  | ENet string "goerr option"
  | EMaxBytes string
  | EJwt "jwt_sentinel list" string
  | EStatus grpc_code string
  | ECanceled
  | EDeadline
and rich =
    RichError (r_operation: string) (r_wrappedError: "goerr option") (r_message: string) (r_kind: int)
and auth_failure =
    AuthFailure (af_Reason: string) (af_err: "goerr option")
and captcha_error =
    CaptchaError (ce_Code: string) (ce_Message: string) (ce_Cause: "goerr option")
and outcome_error =
    OutcomeError (oe_Kind: string) (oe_Status: int) (oe_Err: "goerr option")
and http_error =
    HTTPError (he_Code: int) (he_Message: "string option") (he_text: string)
              (he_Internal: "goerr option")

text \<open>\<open>iota + 1\<close> from \<open>KindInvalid\<close>; 0 is the kind of a \<open>RichError\<close> nobody set.\<close>

abbreviation KindInvalid :: int where "KindInvalid \<equiv> 1"
abbreviation KindForbidden :: int where "KindForbidden \<equiv> 2"
abbreviation KindNotFound :: int where "KindNotFound \<equiv> 3"
abbreviation KindUnexpected :: int where "KindUnexpected \<equiv> 4"
abbreviation KindUnauthenticated :: int where "KindUnauthenticated \<equiv> 5"
abbreviation KindTooManyRequests :: int where "KindTooManyRequests \<equiv> 6"
abbreviation KindConflict :: int where "KindConflict \<equiv> 7"
abbreviation KindUnavailable :: int where "KindUnavailable \<equiv> 8"

section \<open>Chains of errors\<close>

definition RichError_Unwrap :: "rich option \<Rightarrow> goerr option" where
  "RichError_Unwrap r = (case r of None \<Rightarrow> None | Some r \<Rightarrow> r_wrappedError r)"

definition AuthFailure_Unwrap :: "auth_failure option \<Rightarrow> goerr option" where
  "AuthFailure_Unwrap e = (case e of None \<Rightarrow> None | Some e \<Rightarrow> af_err e)"

definition CaptchaError_Unwrap :: "captcha_error \<Rightarrow> goerr option" where
  "CaptchaError_Unwrap e = ce_Cause e"

definition OutcomeError_Unwrap :: "outcome_error option \<Rightarrow> goerr option" where
  "OutcomeError_Unwrap e = (case e of None \<Rightarrow> None | Some e \<Rightarrow> oe_Err e)"

text \<open>\<open>errors.Unwrap\<close>\<close>

fun err_unwrap :: "goerr \<Rightarrow> goerr option" where
  "err_unwrap (EWrap p e) = Some e"
| "err_unwrap (ERich r) = RichError_Unwrap r"
| "err_unwrap (EAuthFailure e) = AuthFailure_Unwrap e"
| "err_unwrap (ECaptcha e) = CaptchaError_Unwrap e"
| "err_unwrap (EOutcome e) = OutcomeError_Unwrap e"
| "err_unwrap (EHTTP e) = (case e of None \<Rightarrow> None | Some h \<Rightarrow> he_Internal h)"
| "err_unwrap (ENet t w) = w"
| "err_unwrap _ = None"

lemma err_unwrap_size: "err_unwrap e = Some e' \<Longrightarrow> size e' < size e"
proof (cases e)
  case (ERich r)
  then show "err_unwrap e = Some e' \<Longrightarrow> size e' < size e"
    by (cases r; cases "the r") (auto simp: RichError_Unwrap_def)
next
  case (EAuthFailure r)
  then show "err_unwrap e = Some e' \<Longrightarrow> size e' < size e"
    by (cases r; cases "the r") (auto simp: AuthFailure_Unwrap_def)
next
  case (ECaptcha r)
  then show "err_unwrap e = Some e' \<Longrightarrow> size e' < size e"
    by (cases r) (auto simp: CaptchaError_Unwrap_def)
next
  case (EOutcome r)
  then show "err_unwrap e = Some e' \<Longrightarrow> size e' < size e"
    by (cases r; cases "the r") (auto simp: OutcomeError_Unwrap_def)
next
  case (EHTTP r)
  then show "err_unwrap e = Some e' \<Longrightarrow> size e' < size e"
    by (cases r; cases "the r") auto
qed auto

text \<open>
  \<open>find_err\<close> is the walk of \<open>errors.As\<close>: the first error of the chain that the target type
  accepts.
\<close>

function find_err :: "(goerr \<Rightarrow> 'a option) \<Rightarrow> goerr \<Rightarrow> 'a option" where
  "find_err f e =
     (case f e of
        Some x \<Rightarrow> Some x
      | None \<Rightarrow> (case err_unwrap e of None \<Rightarrow> None | Some e' \<Rightarrow> find_err f e'))"
  by pat_completeness auto
termination
  by (relation "measure (\<lambda>(f, e). size e)") (auto dest: err_unwrap_size)

declare find_err.simps [simp del]

definition as_rich :: "goerr \<Rightarrow> rich option option" where
  "as_rich = find_err (\<lambda>e. case e of ERich r \<Rightarrow> Some r | _ \<Rightarrow> None)"

definition as_validation :: "goerr \<Rightarrow> (string \<times> string) list option option" where
  "as_validation = find_err (\<lambda>e. case e of EValidation v \<Rightarrow> Some v | _ \<Rightarrow> None)"

definition as_http :: "goerr \<Rightarrow> http_error option option" where
  "as_http = find_err (\<lambda>e. case e of EHTTP h \<Rightarrow> Some h | _ \<Rightarrow> None)"

definition as_auth_failure :: "goerr \<Rightarrow> auth_failure option option" where
  "as_auth_failure = find_err (\<lambda>e. case e of EAuthFailure a \<Rightarrow> Some a | _ \<Rightarrow> None)"

definition as_captcha :: "goerr \<Rightarrow> captcha_error option" where
  "as_captcha = find_err (\<lambda>e. case e of ECaptcha c \<Rightarrow> Some c | _ \<Rightarrow> None)"

definition as_outcome :: "goerr \<Rightarrow> outcome_error option option" where
  "as_outcome = find_err (\<lambda>e. case e of EOutcome c \<Rightarrow> Some c | _ \<Rightarrow> None)"

text \<open>\<open>context.DeadlineExceeded\<close> implements \<open>net.Error\<close> too.\<close>

definition as_net :: "goerr \<Rightarrow> goerr option" where
  "as_net = find_err (\<lambda>e. case e of ENet t w \<Rightarrow> Some e | EDeadline \<Rightarrow> Some e | _ \<Rightarrow> None)"

definition as_max_bytes :: "goerr \<Rightarrow> string option" where
  "as_max_bytes = find_err (\<lambda>e. case e of EMaxBytes t \<Rightarrow> Some t | _ \<Rightarrow> None)"

text \<open>\<open>errors.Is\<close> against a sentinel\<close>

definition err_is :: "(goerr \<Rightarrow> bool) \<Rightarrow> goerr \<Rightarrow> bool" where
  "err_is p e \<longleftrightarrow> find_err (\<lambda>e. if p e then Some () else None) e \<noteq> None"

lemma find_err_here: "f e = Some x \<Longrightarrow> find_err f e = Some x"
  by (simp add: find_err.simps)

lemma find_err_next: "f e = None \<Longrightarrow> err_unwrap e = Some e' \<Longrightarrow> find_err f e = find_err f e'"
  by (subst find_err.simps) simp

lemma find_err_end: "f e = None \<Longrightarrow> err_unwrap e = None \<Longrightarrow> find_err f e = None"
  by (subst find_err.simps) simp

lemmas find_err_simps = find_err_here find_err_next find_err_end

lemma find_err_mem: "find_err f e = Some x \<Longrightarrow> \<exists>e'. f e' = Some x \<and> size e' \<le> size e"
proof (induction f e rule: find_err.induct)
  case (1 f e)
  show ?case
  proof (cases "f e")
    case (Some y)
    with "1.prems" show ?thesis by (auto simp: find_err.simps [of f e])
  next
    case None
    with "1.prems" obtain e' where u: "err_unwrap e = Some e'" and "find_err f e' = Some x"
      by (auto simp: find_err.simps [of f e] split: option.splits)
    with "1.IH" [OF None u] obtain e'' where "f e'' = Some x" "size e'' \<le> size e'" by blast
    with err_unwrap_size [OF u] show ?thesis by (meson le_trans less_imp_le)
  qed
qed

lemma as_rich_size: "as_rich e = Some (Some r) \<Longrightarrow> size r < size e"
  unfolding as_rich_def
  by (auto dest!: find_err_mem split: goerr.splits) 

section \<open>RichError\<close>

definition RichError_New :: "string \<Rightarrow> rich" where
  "RichError_New op = RichError op None [] 0"

text \<open>The builders write one field of the receiver and return it.\<close>

definition WithErr :: "goerr option \<Rightarrow> rich \<Rightarrow> rich" where
  "WithErr err r = RichError (r_operation r) err (r_message r) (r_kind r)"

definition WithMessage :: "string \<Rightarrow> rich \<Rightarrow> rich" where
  "WithMessage msg r = RichError (r_operation r) (r_wrappedError r) msg (r_kind r)"

definition WithKind :: "int \<Rightarrow> rich \<Rightarrow> rich" where
  "WithKind k r = RichError (r_operation r) (r_wrappedError r) (r_message r) k"

text \<open>\<open>errors.As(r.wrappedError, &inner)\<close>: also false for a nil error.\<close>

definition inner_rich :: "rich \<Rightarrow> rich option option" where
  "inner_rich r = (case r_wrappedError r of None \<Rightarrow> None | Some e \<Rightarrow> as_rich e)"

lemma inner_rich_size: "inner_rich r = Some (Some r') \<Longrightarrow> size r' < size r"
  by (cases r) (auto simp: inner_rich_def dest: as_rich_size split: option.splits)

lemma rich_size_pos: "0 < size (r :: rich)"
  by (cases r) simp

lemma inner_rich_opt_size: "inner_rich r = Some i \<Longrightarrow> size_option size i < size_option size (Some r)"
  by (cases i) (auto dest: inner_rich_size simp: rich_size_pos)

function RichError_Kind :: "rich option \<Rightarrow> int" where
  "RichError_Kind r =
     (case r of
        None \<Rightarrow> KindUnexpected
      | Some r \<Rightarrow>
          if r_kind r \<noteq> 0 then r_kind r
          else (case inner_rich r of
                  Some inner \<Rightarrow> RichError_Kind inner
                | None \<Rightarrow> KindUnexpected))"
  by pat_completeness auto
termination
  by (relation "measure (size_option size)") (auto dest: inner_rich_opt_size)

declare RichError_Kind.simps [simp del]

definition default_message :: "int \<Rightarrow> string" where
  "default_message k =
     (if k = KindInvalid then ''invalid request''
      else if k = KindForbidden then ''forbidden''
      else if k = KindNotFound then ''not found''
      else if k = KindUnauthenticated then ''unauthenticated''
      else if k = KindTooManyRequests then ''too many requests''
      else if k = KindConflict then ''conflict''
      else if k = KindUnavailable then ''service unavailable''
      else ''internal server error'')"

function RichError_Message :: "rich option \<Rightarrow> string" where
  "RichError_Message r =
     (case r of
        None \<Rightarrow> ''internal server error''
      | Some r \<Rightarrow>
          if r_message r \<noteq> [] then r_message r
          else (case inner_rich r of
                  Some inner \<Rightarrow> RichError_Message inner
                | None \<Rightarrow> default_message (RichError_Kind (Some r))))"
  by pat_completeness auto
termination
  by (relation "measure (size_option size)") (auto dest: inner_rich_opt_size)

declare RichError_Message.simps [simp del]

definition RichError_Op :: "rich option \<Rightarrow> string" where
  "RichError_Op r = (case r of None \<Rightarrow> [] | Some r \<Rightarrow> r_operation r)"

definition Kind_String :: "int \<Rightarrow> string" where
  "Kind_String k =
     (if k = KindInvalid then ''invalid''
      else if k = KindForbidden then ''forbidden''
      else if k = KindNotFound then ''not_found''
      else if k = KindUnexpected then ''unexpected''
      else if k = KindUnauthenticated then ''unauthenticated''
      else if k = KindTooManyRequests then ''too_many_requests''
      else if k = KindConflict then ''conflict''
      else if k = KindUnavailable then ''unavailable''
      else ''kind_'' @ itoa k)"

text \<open>The switch of \<open>Code\<close> has no default: another kind falls through to \<open>UNEXPECTED\<close>.\<close>

definition code_of_kind :: "int \<Rightarrow> string option" where
  "code_of_kind k =
     (if k = KindInvalid then Some ''APP_INVALID''
      else if k = KindForbidden then Some ''APP_FORBIDDEN''
      else if k = KindNotFound then Some ''APP_NOT_FOUND''
      else if k = KindUnexpected then Some ''APP_UNEXPECTED''
      else if k = KindUnauthenticated then Some ''APP_UNAUTHENTICATED''
      else if k = KindTooManyRequests then Some ''APP_TOO_MANY_REQUESTS''
      else if k = KindConflict then Some ''APP_CONFLICT''
      else if k = KindUnavailable then Some ''APP_UNAVAILABLE''
      else None)"

definition Code :: "goerr option \<Rightarrow> string" where
  "Code err =
     (case err of
        None \<Rightarrow> []
      | Some e \<Rightarrow>
          if as_validation e \<noteq> None then ''VALIDATION_FAILED''
          else (case as_rich e of
                  Some re \<Rightarrow>
                    (case code_of_kind (RichError_Kind re) of
                       Some c \<Rightarrow> c
                     | None \<Rightarrow> ''UNEXPECTED'')
                | None \<Rightarrow> ''UNEXPECTED''))"

section \<open>Texts\<close>

text \<open>\<open>%v\<close> of a map prints the entries in the order of the keys.\<close>

definition ValidationError_Error :: "(string \<times> string) list option \<Rightarrow> string" where
  "ValidationError_Error e =
     (case e of
        None \<Rightarrow> ''validation error''
      | Some fs \<Rightarrow>
          ''validation failed: map[''
            @ join_with '' '' (map (\<lambda>(k, v). k @ '':'' @ v) (sort_key fst fs)) @ '']'')"

definition with_sep :: "string \<Rightarrow> string" where
  "with_sep s = (if s = [] then [] else s @ '': '')"

definition rich_head :: "string \<Rightarrow> string \<Rightarrow> string" where
  "rich_head op msg = (if msg \<noteq> [] then with_sep op @ msg else op)"

text \<open>\<open>Error()\<close> of every kind of error; the methods of the own types call each other's.\<close>

fun err_text :: "goerr \<Rightarrow> string" where
  "err_text (EText t) = t"
| "err_text (EWrap p e) = p @ err_text e"
| "err_text (ERich None) = ''nil richerror''"
| "err_text (ERich (Some (RichError op w msg k))) =
     (let out = rich_head op msg
      in case w of
           Some e \<Rightarrow> with_sep out @ err_text e
         | None \<Rightarrow> (if out \<noteq> [] then out else ''unknown error''))"
| "err_text (EValidation v) = ValidationError_Error v"
| "err_text (EAuthFailure None) = ''unauthenticated service''"
| "err_text (EAuthFailure (Some (AuthFailure rs w))) =
     (case w of Some e \<Rightarrow> err_text e | None \<Rightarrow> ''unauthenticated service'')"
| "err_text (ECaptcha (CaptchaError c msg w)) = (if msg \<noteq> [] then msg else c)"
| "err_text (EOutcome None) = ''success''"
| "err_text (EOutcome (Some (OutcomeError k st w))) =
     (case w of Some e \<Rightarrow> err_text e | None \<Rightarrow> k)"
| "err_text (EHTTP None) = []"
| "err_text (EHTTP (Some h)) = he_text h"
| "err_text (ENet t w) = t"
| "err_text (EMaxBytes t) = t"
| "err_text (EJwt js t) = t"
| "err_text (EStatus c t) = t"
| "err_text ECanceled = ''context canceled''"
| "err_text EDeadline = ''context deadline exceeded''"

text \<open>The \<open>Error\<close> method of \<open>*AuthFailure\<close>, which \<open>err_text\<close> calls.\<close>

definition AuthFailure_Error :: "auth_failure option \<Rightarrow> string" where
  "AuthFailure_Error e =
     (case e of
        None \<Rightarrow> ''unauthenticated service''
      | Some e \<Rightarrow> (case af_err e of Some err \<Rightarrow> err_text err | None \<Rightarrow> ''unauthenticated service''))"

lemma err_text_auth_failure: "err_text (EAuthFailure e) = AuthFailure_Error e"
  by (cases e; cases "the e") (auto simp: AuthFailure_Error_def split: option.split)

section \<open>What the chain decides\<close>

text \<open>The \<open>RichError\<close>s of a chain, outermost first, and the receiver the walk ends at.\<close>

function rich_chain :: "rich option \<Rightarrow> rich list" where
  "rich_chain r =
     (case r of
        None \<Rightarrow> []
      | Some x \<Rightarrow> x # (case inner_rich x of Some i \<Rightarrow> rich_chain i | None \<Rightarrow> []))"
  by pat_completeness auto
termination
  by (relation "measure (size_option size)") (auto dest: inner_rich_opt_size)

function rich_end :: "rich option \<Rightarrow> rich option" where
  "rich_end r =
     (case r of
        None \<Rightarrow> None
      | Some x \<Rightarrow> (case inner_rich x of Some i \<Rightarrow> rich_end i | None \<Rightarrow> Some x))"
  by pat_completeness auto
termination
  by (relation "measure (size_option size)") (auto dest: inner_rich_opt_size)

declare rich_chain.simps [simp del] rich_end.simps [simp del]

lemma rich_nil [simp]:
  "RichError_Kind None = KindUnexpected" "RichError_Message None = ''internal server error''"
  "rich_chain None = []" "rich_end None = None"
  by (simp_all add: RichError_Kind.simps RichError_Message.simps rich_chain.simps rich_end.simps)

lemma Kind_simps:
  "r_kind x \<noteq> 0 \<Longrightarrow> RichError_Kind (Some x) = r_kind x"
  "r_kind x = 0 \<Longrightarrow> inner_rich x = Some i \<Longrightarrow> RichError_Kind (Some x) = RichError_Kind i"
  "r_kind x = 0 \<Longrightarrow> inner_rich x = None \<Longrightarrow> RichError_Kind (Some x) = KindUnexpected"
  by (simp_all add: RichError_Kind.simps [of "Some x"])

lemma Message_simps:
  "r_message x \<noteq> [] \<Longrightarrow> RichError_Message (Some x) = r_message x"
  "r_message x = [] \<Longrightarrow> inner_rich x = Some i \<Longrightarrow>
     RichError_Message (Some x) = RichError_Message i"
  "r_message x = [] \<Longrightarrow> inner_rich x = None \<Longrightarrow>
     RichError_Message (Some x) = default_message (RichError_Kind (Some x))"
  by (simp_all add: RichError_Message.simps [of "Some x"])

lemma chain_simps:
  "inner_rich x = Some i \<Longrightarrow> rich_chain (Some x) = x # rich_chain i"
  "inner_rich x = None \<Longrightarrow> rich_chain (Some x) = [x]"
  "inner_rich x = Some i \<Longrightarrow> rich_end (Some x) = rich_end i"
  "inner_rich x = None \<Longrightarrow> rich_end (Some x) = Some x"
  by (simp_all add: rich_chain.simps [of "Some x"] rich_end.simps [of "Some x"])

lemmas rich_walk = Kind_simps Message_simps chain_simps

text \<open>Induction along the chain: a nil receiver, the last error, or one with an inner error.\<close>

lemma rich_induct [case_names Nil Last Inner]:
  assumes "P None"
    and "\<And>x. inner_rich x = None \<Longrightarrow> P (Some x)"
    and "\<And>x i. inner_rich x = Some i \<Longrightarrow> P i \<Longrightarrow> P (Some x)"
  shows "P r"
proof (induction r rule: rich_chain.induct)
  case (1 r)
  show ?case
  proof (cases r)
    case None
    with assms(1) show ?thesis by simp
  next
    case (Some x)
    then show ?thesis
      by (cases "inner_rich x") (use 1 assms in auto)
  qed
qed

definition first_set :: "(rich \<Rightarrow> bool) \<Rightarrow> rich list \<Rightarrow> rich option" where
  "first_set p rs = find p rs"

text \<open>
  The kind of an error is the kind of the outermost \<open>RichError\<close> of its chain that has one;
  when none has, it is \<open>KindUnexpected\<close>.
\<close>

theorem kind_is_first_set:
  "RichError_Kind r =
     (case first_set (\<lambda>x. r_kind x \<noteq> 0) (rich_chain r) of
        Some x \<Rightarrow> r_kind x
      | None \<Rightarrow> KindUnexpected)"
proof (induction r rule: rich_induct)
  case Nil
  then show ?case by (simp add: first_set_def)
next
  case (Last x)
  then show ?case by (cases "r_kind x = 0") (simp_all add: first_set_def rich_walk)
next
  case (Inner x i)
  then show ?case by (cases "r_kind x = 0") (simp_all add: first_set_def rich_walk)
qed

text \<open>
  The message shown to a client is the outermost non-empty message of the chain; without one
  it is a fixed text chosen by the kind of the innermost error. No text of a wrapped error
  that is not a \<open>RichError\<close> message can get into it.
\<close>

theorem message_is_first_set:
  "RichError_Message r =
     (case first_set (\<lambda>x. r_message x \<noteq> []) (rich_chain r) of
        Some x \<Rightarrow> r_message x
      | None \<Rightarrow>
          (case rich_end r of
             None \<Rightarrow> ''internal server error''
           | Some x \<Rightarrow> default_message (RichError_Kind (Some x))))"
proof (induction r rule: rich_induct)
  case Nil
  then show ?case by (simp add: first_set_def)
next
  case (Last x)
  then show ?case by (cases "r_message x = []") (simp_all add: first_set_def rich_walk)
next
  case (Inner x i)
  then show ?case
    by (cases "r_message x = []") (simp_all add: first_set_def rich_walk split: option.split)
qed

lemma find_mem: "find p xs = Some x \<Longrightarrow> x \<in> set xs \<and> p x"
  by (induction xs) (auto split: if_splits)

lemma message_sources:
  "RichError_Message r \<in> r_message ` set (rich_chain r) \<union> range default_message"
proof (induction r rule: rich_induct)
  case Nil
  have "''internal server error'' = default_message 0" by (simp add: default_message_def)
  then show ?case by simp
next
  case (Last x)
  then show ?case by (cases "r_message x = []") (simp_all add: rich_walk)
next
  case (Inner x i)
  then show ?case by (cases "r_message x = []") (auto simp: rich_walk)
qed

text \<open>The builders compose as their names say; only the last write to a field counts.\<close>

lemma builder_fields [simp]:
  "r_operation (WithErr e r) = r_operation r" "r_wrappedError (WithErr e r) = e"
  "r_message (WithErr e r) = r_message r" "r_kind (WithErr e r) = r_kind r"
  "r_operation (WithMessage m r) = r_operation r" "r_wrappedError (WithMessage m r) = r_wrappedError r"
  "r_message (WithMessage m r) = m" "r_kind (WithMessage m r) = r_kind r"
  "r_operation (WithKind k r) = r_operation r" "r_wrappedError (WithKind k r) = r_wrappedError r"
  "r_message (WithKind k r) = r_message r" "r_kind (WithKind k r) = k"
  "r_operation (RichError_New op) = op" "r_wrappedError (RichError_New op) = None"
  "r_message (RichError_New op) = []" "r_kind (RichError_New op) = 0"
  by (simp_all add: WithErr_def WithMessage_def WithKind_def RichError_New_def)

lemma as_rich_ERich [simp]: "as_rich (ERich r) = Some r"
  unfolding as_rich_def by (rule find_err_here) simp

lemma as_validation_EValidation [simp]: "as_validation (EValidation v) = Some v"
  unfolding as_validation_def by (rule find_err_here) simp

lemma inner_rich_WithErr: "inner_rich (WithErr (Some e) r) = as_rich e"
  by (simp add: inner_rich_def)

text \<open>A \<open>RichError\<close> with no cause is what the other packages return to refuse a request.\<close>

definition refusal :: "string \<Rightarrow> int \<Rightarrow> string \<Rightarrow> goerr" where
  "refusal op k msg = ERich (Some (WithMessage msg (WithKind k (RichError_New op))))"

lemma refusal_facts:
  assumes "k \<noteq> 0" and "msg \<noteq> []"
  shows "as_rich (refusal op k msg) = Some (Some (RichError op None msg k))"
    and "RichError_Kind (Some (RichError op None msg k)) = k"
    and "RichError_Message (Some (RichError op None msg k)) = msg"
  using assms
  by (simp_all add: refusal_def WithMessage_def WithKind_def RichError_New_def rich_walk)

end
