(* ===== verification/HTTP_Errors.thy ===== *)
theory HTTP_Errors
  imports Go_Errors
begin

text \<open>
  Module \<open>http\<close>: how an error of a handler becomes a response
  (\<open>http/middleware/error.go\<close>), which status the access log and the request metrics record
  for it (\<open>http/middleware/request.go\<close>, \<open>http/metrics/middleware.go\<close>), and the health
  endpoints (\<open>http/health/health.go\<close>).

  A request context is the record \<open>echo_ctx\<close>: what the handler reads of it, the responses
  written so far and the log entries. Echo's \<open>c.JSON\<close> is the argument \<open>json\<close>, with the error
  it returns and the context it leaves. A nil dereference is the result \<open>None\<close>.
\<close>

section \<open>ErrorHandler\<close>

datatype error_body = ErrorBody (eb_Message: string) (eb_Fields: "(string \<times> string) list")

datatype log_level = LevelInfo | LevelWarn | LevelError

datatype log_val = LStr string | LInt int

record log_entry =
  le_level :: log_level
  le_msg :: string
  le_args :: "(string \<times> log_val) list"

record echo_ctx =
  ctx_Committed :: bool
  ctx_Method :: string
  ctx_Path :: string
  ctx_Status :: int
  ctx_writes :: "(int \<times> error_body) list"
  ctx_logs :: "log_entry list"

definition statusFromKind :: "int \<Rightarrow> int" where
  "statusFromKind k =
     (if k = KindInvalid then 400
      else if k = KindForbidden then 403
      else if k = KindNotFound then 404
      else if k = KindUnauthenticated then 401
      else if k = KindTooManyRequests then 429
      else if k = KindConflict then 409
      else if k = KindUnavailable then 503
      else 500)"

definition log_to :: "log_entry \<Rightarrow> echo_ctx \<Rightarrow> echo_ctx" where
  "log_to l c = c\<lparr>ctx_logs := ctx_logs c @ [l]\<rparr>"

definition failure_args :: "echo_ctx \<Rightarrow> int \<Rightarrow> goerr option \<Rightarrow> (string \<times> log_val) list" where
  "failure_args c status err =
     [(''method'', LStr (ctx_Method c)), (''path'', LStr (ctx_Path c)), (''status'', LInt status),
      (''error_code'', LStr (Code err))]
     @ (case err of None \<Rightarrow> [] | Some e \<Rightarrow> [(''error'', LStr (err_text e))])
     @ (case err of
          None \<Rightarrow> []
        | Some e \<Rightarrow>
            (case as_rich e of
               None \<Rightarrow> []
             | Some re \<Rightarrow>
                 [(''op'', LStr (RichError_Op re)),
                  (''kind'', LStr (Kind_String (RichError_Kind re)))]))"

definition write_response ::
    "(int \<Rightarrow> error_body \<Rightarrow> echo_ctx \<Rightarrow> goerr option \<times> echo_ctx)
       \<Rightarrow> echo_ctx \<Rightarrow> int \<Rightarrow> error_body \<Rightarrow> goerr option \<Rightarrow> echo_ctx"
where
  "write_response json c status body err =
     (let c1 = (if status \<ge> 500
                then log_to \<lparr>le_level = LevelError, le_msg = ''request failed'',
                             le_args = failure_args c status err\<rparr> c
                else c)
      in (case json status body c1 of
            (None, c2) \<Rightarrow> c2
          | (Some e, c2) \<Rightarrow>
              log_to \<lparr>le_level = LevelError, le_msg = ''write error response failed'',
                      le_args = [(''error'', LStr (err_text e))]\<rparr> c2))"

text \<open>
  The response \<open>ErrorHandler\<close> chooses. \<open>errors.As\<close> also finds a nil \<open>*ValidationError\<close>, whose
  field \<open>Fields\<close> is then read: \<open>None\<close> is the panic. The last case is a type assertion on the
  error itself, not a walk of the chain; on a nil \<open>*echo.HTTPError\<close> it panics as well.
\<close>

definition error_response :: "goerr option \<Rightarrow> (int \<times> error_body) option" where
  "error_response err =
     (let internal = Some (500, ErrorBody ''internal server error'' [])
      in case err of
           None \<Rightarrow> internal
         | Some e \<Rightarrow>
             (case as_validation e of
                Some ve \<Rightarrow>
                  map_option (\<lambda>fs. (422, ErrorBody ''validation failed'' fs)) ve
              | None \<Rightarrow>
                  (case as_rich e of
                     Some re \<Rightarrow>
                       Some (statusFromKind (RichError_Kind re),
                             ErrorBody (RichError_Message re) [])
                   | None \<Rightarrow>
                       (case e of
                          EHTTP he \<Rightarrow>
                            map_option
                              (\<lambda>h. (he_Code h,
                                    ErrorBody (case he_Message h of
                                                 Some m \<Rightarrow> m
                                               | None \<Rightarrow> ''error'') [])) he
                        | _ \<Rightarrow> internal))))"

definition ErrorHandler ::
    "(int \<Rightarrow> error_body \<Rightarrow> echo_ctx \<Rightarrow> goerr option \<times> echo_ctx)
       \<Rightarrow> goerr option \<Rightarrow> echo_ctx \<Rightarrow> echo_ctx option"
where
  "ErrorHandler json err c =
     (if ctx_Committed c then Some c
      else map_option (\<lambda>(status, body). write_response json c status body err)
             (error_response err))"

section \<open>The status recorded for a request\<close>

text \<open>\<open>http/metrics/middleware.go\<close>\<close>

definition statusFromHandlerError :: "goerr \<Rightarrow> int \<Rightarrow> int" where
  "statusFromHandlerError err current =
     (if as_validation err \<noteq> None then 422
      else case as_rich err of
             Some (Some re) \<Rightarrow>
               (let k = RichError_Kind (Some re)
                in if k = KindInvalid then 400
                   else if k = KindForbidden then 403
                   else if k = KindNotFound then 404
                   else if k = KindUnauthenticated then 401
                   else if k = KindTooManyRequests then 429
                   else 500)
           | _ \<Rightarrow>
               (case as_http err of
                  Some (Some he) \<Rightarrow>
                    if he_Code he > 0 then he_Code he
                    else if current \<ge> 400 then current
                    else if contains (to_lower (err_text err)) ''validation'' then 422
                    else 500
                | _ \<Rightarrow>
                    if current \<ge> 400 then current
                    else if contains (to_lower (err_text err)) ''validation'' then 422
                    else 500))"

definition statusClass :: "int \<Rightarrow> string" where
  "statusClass code =
     (if code \<ge> 500 then ''5xx''
      else if code \<ge> 400 then ''4xx''
      else if code \<ge> 300 then ''3xx''
      else ''2xx'')"

definition recorded_status :: "goerr option \<Rightarrow> int \<Rightarrow> int" where
  "recorded_status err status =
     (let st = (case err of None \<Rightarrow> status | Some e \<Rightarrow> statusFromHandlerError e status)
      in if st = 0 then 200 else st)"

text \<open>
  The status and the level \<open>AccessLog\<close> of \<open>http/middleware/request.go\<close> logs; the middleware itself is
  in \<open>HTTP_Server\<close>.
\<close>

definition access_status :: "goerr option \<Rightarrow> int \<Rightarrow> int option" where
  "access_status err status =
     (let other = Some (if status = 0 \<or> status = 200 then 500 else status)
      in case err of
           None \<Rightarrow> Some status
         | Some e \<Rightarrow>
             (case e of
                EHTTP None \<Rightarrow> None
              | EHTTP (Some he) \<Rightarrow> if he_Code he > 0 then Some (he_Code he) else other
              | _ \<Rightarrow> other))"

definition access_level :: "int \<Rightarrow> log_level" where
  "access_level status =
     (if status \<ge> 500 then LevelError else if status \<ge> 400 then LevelWarn else LevelInfo)"

section \<open>Health endpoints\<close>

text \<open>
  A dependency is its name and its checker, \<open>None\<close> for a nil \<open>Checker\<close>; a checker is its
  \<open>Ping\<close> under the deadline of \<open>ReadinessTimeout\<close>, applied to a state it may change.
  The endpoint returns the response and the final state of the dependencies.
\<close>

record health_config =
  hc_ReadinessTimeout :: int
  hc_LivenessPath :: string
  hc_ReadinessPath :: string

definition health_defaults :: "health_config \<Rightarrow> health_config" where
  "health_defaults cfg =
     \<lparr>hc_ReadinessTimeout =
        (if hc_ReadinessTimeout cfg \<le> 0 then 2 * second else hc_ReadinessTimeout cfg),
      hc_LivenessPath =
        (if hc_LivenessPath cfg = [] then ''/health-check'' else hc_LivenessPath cfg),
      hc_ReadinessPath =
        (if hc_ReadinessPath cfg = [] then ''/ready'' else hc_ReadinessPath cfg)\<rparr>"

text \<open>The answers, with their status and JSON fields; \<open>NoContent\<close> has no body.\<close>

datatype health_reply = HealthOK | NoContent | Ready | NotReady string

definition reply_status :: "health_reply \<Rightarrow> int" where
  "reply_status r = (case r of NotReady n \<Rightarrow> 503 | _ \<Rightarrow> 200)"

definition reply_fields :: "health_reply \<Rightarrow> (string \<times> string) list" where
  "reply_fields r =
     (case r of
        HealthOK \<Rightarrow> [(''status'', ''ok'')]
      | NoContent \<Rightarrow> []
      | Ready \<Rightarrow> [(''status'', ''ready'')]
      | NotReady n \<Rightarrow> [(''status'', ''not_ready''), (''error'', n)])"

definition liveness :: "'s \<Rightarrow> health_reply \<times> 's" where
  "liveness s = (HealthOK, s)"

definition liveness_head :: "'s \<Rightarrow> health_reply \<times> 's" where
  "liveness_head s = (NoContent, s)"

fun readiness ::
    "int \<Rightarrow> (string \<times> (int \<Rightarrow> 's \<Rightarrow> goerr option \<times> 's) option) list \<Rightarrow> 's \<Rightarrow> health_reply \<times> 's"
where
  "readiness timeout [] s = (Ready, s)"
| "readiness timeout ((name, None) # deps) s = readiness timeout deps s"
| "readiness timeout ((name, Some ping) # deps) s =
     (case ping timeout s of
        (Some err, s') \<Rightarrow> (NotReady (if name = [] then ''dependency'' else name), s')
      | (None, s') \<Rightarrow> readiness timeout deps s')"

text \<open>The routes \<open>Register\<close> adds, in its order: method, path and handler.\<close>

definition health_Register ::
    "health_config \<Rightarrow> (string \<times> (int \<Rightarrow> 's \<Rightarrow> goerr option \<times> 's) option) list
       \<Rightarrow> (string \<times> string \<times> ('s \<Rightarrow> health_reply \<times> 's)) list"
where
  "health_Register cfg deps =
     (let c = health_defaults cfg
      in [(''GET'', hc_LivenessPath c, liveness), (''HEAD'', hc_LivenessPath c, liveness_head)]
         @ (if hc_LivenessPath c \<noteq> ''/health''
            then [(''GET'', ''/health'', liveness), (''HEAD'', ''/health'', liveness_head)] else [])
         @ [(''GET'', hc_ReadinessPath c, readiness (hc_ReadinessTimeout c) deps)])"

text \<open>
  If the paths differ no method and path is registered twice, so the router need not choose.
\<close>

definition health_paths_differ :: "health_config \<Rightarrow> bool" where
  "health_paths_differ cfg \<longleftrightarrow>
     hc_ReadinessPath (health_defaults cfg) \<notin> {hc_LivenessPath (health_defaults cfg), ''/health''}"

lemma health_routes_distinct:
  "health_paths_differ cfg \<Longrightarrow> distinct (map (\<lambda>(m, p, h). (m, p)) (health_Register cfg deps))"
  by (auto simp: health_paths_differ_def health_Register_def Let_def)

lemma health_routes:
  assumes "health_paths_differ cfg"
  shows "(''GET'', hc_ReadinessPath (health_defaults cfg), h) \<in> set (health_Register cfg deps)
      \<longleftrightarrow> h = readiness (hc_ReadinessTimeout (health_defaults cfg)) deps"
    and "p \<in> {hc_LivenessPath (health_defaults cfg), ''/health''} \<Longrightarrow>
      (''GET'', p, h) \<in> set (health_Register cfg deps) \<longleftrightarrow> h = liveness"
  using assms by (auto simp: health_paths_differ_def health_Register_def Let_def)

text \<open>
  The contract of \<open>health.Checker\<close>: \<open>Ping\<close> reports whether the dependency is healthy and changes
  nothing.
\<close>

locale checker =
  fixes ping :: "int \<Rightarrow> 's \<Rightarrow> goerr option \<times> 's"
    and healthy :: "'s \<Rightarrow> bool"
  assumes ping_healthy: "fst (ping t s) = None \<longleftrightarrow> healthy s"
    and ping_pure: "snd (ping t s) = s"
begin

lemma unhealthy_gates:
  "\<not> healthy s \<Longrightarrow> readiness t ((name, Some ping) # deps) s
     = (NotReady (if name = [] then ''dependency'' else name), s)"
  using ping_healthy [of t s] ping_pure [of t s] by (cases "ping t s") auto

lemma healthy_passes:
  "healthy s \<Longrightarrow> readiness t ((name, Some ping) # deps) s = readiness t deps s"
  using ping_healthy [of t s] ping_pure [of t s] by (cases "ping t s") auto

lemma ready_iff:
  "readiness t (map (\<lambda>n. (n, Some ping)) names) s = (Ready, s) \<longleftrightarrow> names = [] \<or> healthy s"
proof (induction names)
  case (Cons n names)
  then show ?case by (cases "healthy s") (simp_all add: healthy_passes unhealthy_gates del: readiness.simps(3))
qed simp

end

section \<open>Correctness\<close>

lemma error_response_status:
  assumes "error_response err = Some (st, b)"
  shows "(\<exists>e h. err = Some e \<and> e = EHTTP (Some h) \<and> st = he_Code h)
    \<or> st \<in> {400, 401, 403, 404, 409, 422, 429, 500, 503}"
proof (cases err)
  case None
  with assms show ?thesis by (simp add: error_response_def)
next
  case (Some e)
  show ?thesis
  proof (cases "as_validation e")
    case None
    show ?thesis
    proof (cases "as_rich e")
      case None
      with \<open>as_validation e = None\<close> Some assms show ?thesis
        by (cases e) (auto simp: error_response_def)
    next
      case (Some re)
      with \<open>as_validation e = None\<close> \<open>err = Some e\<close> assms show ?thesis
        by (auto simp: error_response_def statusFromKind_def)
    qed
  next
    case (Some ve)
    with \<open>err = Some e\<close> assms show ?thesis by (auto simp: error_response_def)
  qed
qed

text \<open>
  An error is answered once and by its class: a committed response is left alone; otherwise
  there is exactly one call of \<open>c.JSON\<close>, with the status and body \<open>error_response\<close> gives, after
  one log entry when the status is 500 or more and none when it is less. The only panics are a
  nil \<open>*ValidationError\<close> in the chain and a nil \<open>*echo.HTTPError\<close>.
\<close>

theorem error_handler_response:
  "ErrorHandler json err c =
     (if ctx_Committed c then Some c
      else case error_response err of
             None \<Rightarrow> None
           | Some (st, b) \<Rightarrow>
               let logs = (if st \<ge> 500
                           then [\<lparr>le_level = LevelError, le_msg = ''request failed'',
                                  le_args = failure_args c st err\<rparr>]
                           else []);
                   (jerr, c') = json st b (c\<lparr>ctx_logs := ctx_logs c @ logs\<rparr>)
               in Some (c'\<lparr>ctx_logs := ctx_logs c' @ (case jerr of
                      None \<Rightarrow> []
                    | Some e \<Rightarrow> [\<lparr>le_level = LevelError,
                                 le_msg = ''write error response failed'',
                                 le_args = [(''error'', LStr (err_text e))]\<rparr>])\<rparr>))"
  by (auto simp: ErrorHandler_def write_response_def log_to_def Let_def
      split: option.splits prod.splits)

definition public_messages :: "goerr \<Rightarrow> string set" where
  "public_messages e =
     (case as_rich e of None \<Rightarrow> {} | Some re \<Rightarrow> r_message ` set (rich_chain re))
     \<union> (case e of EHTTP (Some h) \<Rightarrow> set_option (he_Message h) | _ \<Rightarrow> {})
     \<union> {''validation failed'', ''error'', ''internal server error''} \<union> range default_message"

text \<open>
  C29. No internal error text reaches a client: the message of a response is a message some
  \<open>RichError\<close> of the chain or an \<open>echo.HTTPError\<close> carries for that purpose, or a fixed text.
\<close>

theorem error_response_public:
  assumes "error_response (Some e) = Some (st, b)"
  shows "eb_Message b \<in> public_messages e"
proof (cases "as_validation e")
  case None
  show ?thesis
  proof (cases "as_rich e")
    case (Some re)
    with None assms have "eb_Message b = RichError_Message re"
      by (auto simp: error_response_def)
    with message_sources [of re] Some show ?thesis by (auto simp: public_messages_def)
  next
    case noRich: None
    with None assms show ?thesis
      by (cases e) (auto simp: error_response_def public_messages_def split: option.splits)
  qed
next
  case (Some ve)
  with assms show ?thesis by (auto simp: error_response_def public_messages_def)
qed

theorem error_response_public_witness:
  "eb_Message (ErrorBody ''internal server error'' [])
     \<in> public_messages (EWrap ''db: '' (EText ''password=secret''))"
proof -
  have "error_response (Some (EWrap ''db: '' (EText ''password=secret'')))
      = Some (500, ErrorBody ''internal server error'' [])"
    by (simp add: error_response_def as_validation_def as_rich_def find_err.simps)
  then show ?thesis by (rule error_response_public)
qed

definition app_error :: "goerr \<Rightarrow> rich \<Rightarrow> bool" where
  "app_error e r \<longleftrightarrow> as_validation e = None \<and> as_rich e = Some (Some r)"

text \<open>
  Where the metrics and the response disagree. For an application error in the chain the
  recorded status is the status of the response unless the kind is conflict (answered 409,
  recorded 500) or unavailable (answered 503, recorded 500).
\<close>

theorem recorded_status_agrees_iff:
  assumes "app_error e r" and "error_response (Some e) = Some (st, b)"
  shows "recorded_status (Some e) cur = st
    \<longleftrightarrow> RichError_Kind (Some r) \<noteq> KindConflict \<and> RichError_Kind (Some r) \<noteq> KindUnavailable"
proof -
  have st: "st = statusFromKind (RichError_Kind (Some r))"
    using assms by (simp add: app_error_def error_response_def)
  show ?thesis
    using assms(1) unfolding st
    by (simp add: app_error_def recorded_status_def statusFromHandlerError_def
        statusFromKind_def Let_def)
qed

lemma refusal_app_error:
  "k \<noteq> 0 \<Longrightarrow> msg \<noteq> [] \<Longrightarrow> app_error (refusal op k msg) (RichError op None msg k)"
  by (simp add: app_error_def refusal_facts)
     (simp add: refusal_def as_validation_def find_err.simps RichError_Unwrap_def)

theorem recorded_status_agrees_iff_witness:
  "recorded_status (Some (refusal ''orders.Create'' KindConflict ''already exists'')) 200 \<noteq> 409"
proof -
  have a: "app_error (refusal ''orders.Create'' KindConflict ''already exists'')
      (RichError ''orders.Create'' None ''already exists'' KindConflict)"
    by (rule refusal_app_error) simp_all
  then have "error_response (Some (refusal ''orders.Create'' KindConflict ''already exists''))
      = Some (409, ErrorBody ''already exists'' [])"
    by (simp add: app_error_def error_response_def statusFromKind_def rich_walk)
  from recorded_status_agrees_iff [OF a this, of 200] show ?thesis
    by (simp add: rich_walk)
qed

end
