(* ===== verification/Runtime.thy ===== *)
theory Runtime
  imports HTTP_Errors
begin

text \<open>
  \<open>runtime/app.go\<close>: registration of servers, runners and closers, and \<open>Run\<close> as a step relation.

  Three kinds of steps interleave: \<open>run_step\<close> is the goroutine that called \<open>Run\<close>, one statement
  that another goroutine can observe at a time; \<open>task_step\<close> is one of the goroutines it started;
  \<open>outer_step\<close> is the world: the given context is cancelled, its cancellation reaches the derived
  context \<open>runCtx\<close>, the deadline of \<open>shutdownCtx\<close> passes. What a registered function returns is
  any value its kind allows. \<open>rn_trace\<close> records what the caller's goroutine did, each entry with
  the error it had; it has no influence on the steps.

  Registered objects and functions are numbers (\<open>handle\<close>), \<open>None\<close> for nil. \<open>time.ParseDuration\<close>
  and the environment are arguments of \<open>timeoutFromEnv\<close>.
\<close>

section \<open>Registration\<close>

type_synonym handle = nat

datatype serve = ServeHTTP handle string | ServeGRPC "handle option" | ServeFunc handle

datatype shutdown = ShutdownHTTP handle | ShutdownGRPC "handle option" | ShutdownFunc handle

record named_server =
  sv_name :: string
  sv_serve :: serve
  sv_shutdown :: "shutdown option"

record named_runner =
  nr_name :: string
  nr_run :: handle

record named_closer =
  nc_name :: string
  nc_close :: handle

record app_config =
  ac_Name :: string
  ac_ShutdownTimeout :: int

record app =
  a_cfg :: app_config
  a_ready :: bool
  a_servers :: "named_server list"
  a_runners :: "named_runner list"
  a_closers :: "named_closer list"

definition DefaultShutdownTimeout :: int where
  "DefaultShutdownTimeout = 25 * second"

definition timeoutFromEnv :: "(string \<Rightarrow> string) \<Rightarrow> (string \<Rightarrow> int option) \<Rightarrow> int" where
  "timeoutFromEnv getenv ParseDuration =
     (let v = getenv ''SHUTDOWN_TIMEOUT''
      in if v \<noteq> []
         then (case ParseDuration v of
                 Some d \<Rightarrow> if d > 0 then d else DefaultShutdownTimeout
               | None \<Rightarrow> DefaultShutdownTimeout)
         else DefaultShutdownTimeout)"

definition app_new :: "(string \<Rightarrow> string) \<Rightarrow> (string \<Rightarrow> int option) \<Rightarrow> app_config \<Rightarrow> app" where
  "app_new getenv ParseDuration cfg =
     \<lparr>a_cfg = (if ac_ShutdownTimeout cfg \<le> 0
               then cfg\<lparr>ac_ShutdownTimeout := timeoutFromEnv getenv ParseDuration\<rparr> else cfg),
      a_ready = False, a_servers = [], a_runners = [], a_closers = []\<rparr>"

definition name_or :: "string \<Rightarrow> string \<Rightarrow> string" where
  "name_or dflt name = (if name = [] then dflt else name)"

definition AddHTTP :: "string \<Rightarrow> string \<Rightarrow> handle \<Rightarrow> app \<Rightarrow> app" where
  "AddHTTP name addr srv a = a\<lparr>a_servers := a_servers a @
     [\<lparr>sv_name = name_or ''http'' name, sv_serve = ServeHTTP srv addr,
       sv_shutdown = Some (ShutdownHTTP srv)\<rparr>]\<rparr>"

definition AddGRPC :: "string \<Rightarrow> handle option \<Rightarrow> handle option \<Rightarrow> app \<Rightarrow> app" where
  "AddGRPC name srv serve a = a\<lparr>a_servers := a_servers a @
     [\<lparr>sv_name = name_or ''grpc'' name, sv_serve = ServeGRPC serve,
       sv_shutdown = Some (ShutdownGRPC srv)\<rparr>]\<rparr>"

definition AddServer :: "string \<Rightarrow> handle \<Rightarrow> handle option \<Rightarrow> app \<Rightarrow> app" where
  "AddServer name serve shutdown a = a\<lparr>a_servers := a_servers a @
     [\<lparr>sv_name = name_or ''server'' name, sv_serve = ServeFunc serve,
       sv_shutdown = map_option ShutdownFunc shutdown\<rparr>]\<rparr>"

definition AddRunner :: "string \<Rightarrow> handle option \<Rightarrow> app \<Rightarrow> app" where
  "AddRunner name r a =
     (case r of
        None \<Rightarrow> a
      | Some h \<Rightarrow> a\<lparr>a_runners := a_runners a @ [\<lparr>nr_name = name_or ''runner'' name, nr_run = h\<rparr>]\<rparr>)"

definition AddWorker :: "string \<Rightarrow> handle option \<Rightarrow> app \<Rightarrow> app" where
  "AddWorker name r a = AddRunner name r a"

definition AddConsumer :: "string \<Rightarrow> handle option \<Rightarrow> app \<Rightarrow> app" where
  "AddConsumer name r a = AddRunner name r a"

definition AddCloser :: "string \<Rightarrow> handle option \<Rightarrow> app \<Rightarrow> app" where
  "AddCloser name c a =
     (case c of
        None \<Rightarrow> a
      | Some h \<Rightarrow> a\<lparr>a_closers := a_closers a @ [\<lparr>nc_name = name_or ''closer'' name, nc_close = h\<rparr>]\<rparr>)"

definition AddCloseFunc :: "string \<Rightarrow> handle option \<Rightarrow> app \<Rightarrow> app" where
  "AddCloseFunc name fn a =
     (case fn of
        None \<Rightarrow> a
      | Some h \<Rightarrow> a\<lparr>a_closers := a_closers a @ [\<lparr>nc_name = name_or ''closer'' name, nc_close = h\<rparr>]\<rparr>)"

definition ErrNotReady :: goerr where
  "ErrNotReady = EText ''shutting down''"

definition App_Ready :: "'a app_scheme \<Rightarrow> bool" where
  "App_Ready a = a_ready a"

definition App_Ping :: "int \<Rightarrow> 'a app_scheme \<Rightarrow> goerr option \<times> 'a app_scheme" where
  "App_Ping timeout a = (if \<not> a_ready a then Some ErrNotReady else None, a)"

section \<open>What the registered functions return\<close>

definition ErrServerClosed :: goerr where
  "ErrServerClosed = EText ''http: Server closed''"

text \<open>The closure registered around the call that returned \<open>r\<close>.\<close>

definition serve_result :: "serve \<Rightarrow> goerr option \<Rightarrow> goerr option" where
  "serve_result s r =
     (case s of
        ServeHTTP h addr \<Rightarrow>
          (case r of
             None \<Rightarrow> None
           | Some e \<Rightarrow> if err_is (\<lambda>e'. e' = ErrServerClosed) e then None else Some e)
      | ServeGRPC None \<Rightarrow> None
      | ServeGRPC (Some h) \<Rightarrow> r
      | ServeFunc h \<Rightarrow> r)"

text \<open>
  \<open>first\<close> is \<open>None\<close> when \<open>GracefulStop\<close> was done first, else \<open>ctx.Err()\<close>. The flag says whether
  \<open>Stop\<close> was called.
\<close>

definition gracefulStopGRPC :: "handle option \<Rightarrow> goerr option \<Rightarrow> goerr option \<times> bool" where
  "gracefulStopGRPC srv first =
     (case srv of
        None \<Rightarrow> (None, False)
      | Some h \<Rightarrow> (case first of None \<Rightarrow> (None, False) | Some e \<Rightarrow> (Some e, True)))"

definition shutdown_returns :: "bool \<Rightarrow> shutdown \<Rightarrow> goerr option \<Rightarrow> bool" where
  "shutdown_returns deadline s r =
     (case s of
        ShutdownGRPC srv \<Rightarrow>
          r = fst (gracefulStopGRPC srv None)
          \<or> deadline \<and> r = fst (gracefulStopGRPC srv (Some EDeadline))
      | _ \<Rightarrow> True)"

text \<open>\<open>stdHTTP.Start\<close> listens on the server's own address when it is given none.\<close>

definition stdHTTP_Start :: "string \<Rightarrow> string \<Rightarrow> string" where
  "stdHTTP_Start addr srv_Addr = (if addr \<noteq> [] then addr else srv_Addr)"

section \<open>Run\<close>

text \<open>
  A goroutine of \<open>start\<close>: not started, in its function, returned an error that is not yet
  compared with \<open>runCtx.Err()\<close>, about to send, about to call \<open>runCancel\<close>, done.
\<close>

datatype task = TIdle | TRunning | TReturned goerr | TSend goerr | TCancel | TDone

datatype run_pc =
    PStart nat | PReady | PSelect | PUnready | PShutdown nat | PCancel | PDrain | PClose nat | PDone

datatype run_event =
  EvStart nat | EvReady | EvUnready | EvShutdown nat | EvCancel | EvDrain | EvClose nat

record run = app +
  rn_pc :: run_pc
  rn_tasks :: "task list"
  rn_errCh :: "goerr list"
  rn_ctx_done :: bool
  rn_runctx_done :: bool
  rn_deadline :: bool
  rn_runErr :: "goerr option"
  rn_shutdownErr :: "goerr option"
  rn_result :: "goerr option"
  rn_trace :: "(run_event \<times> goerr option) list"

definition task_count :: "'a app_scheme \<Rightarrow> nat" where
  "task_count a = length (a_servers a) + length (a_runners a)"

definition errCh_cap :: "'a app_scheme \<Rightarrow> nat" where
  "errCh_cap a = length (a_servers a) + length (a_runners a) + 1"

definition task_name :: "'a app_scheme \<Rightarrow> nat \<Rightarrow> string" where
  "task_name a i =
     (if i < length (a_servers a) then sv_name (a_servers a ! i)
      else nr_name (a_runners a ! (i - length (a_servers a))))"

definition task_result :: "'a app_scheme \<Rightarrow> nat \<Rightarrow> goerr option \<Rightarrow> goerr option" where
  "task_result a i r =
     (if i < length (a_servers a) then serve_result (sv_serve (a_servers a ! i)) r else r)"

text \<open>The state in which a call of \<open>Run\<close> with a context that is not nil begins.\<close>

definition run_start :: "app \<Rightarrow> bool \<Rightarrow> run" where
  "run_start a ctx_done =
     \<lparr>a_cfg = a_cfg a, a_ready = a_ready a, a_servers = a_servers a, a_runners = a_runners a,
      a_closers = a_closers a,
      rn_pc = PStart 0, rn_tasks = replicate (task_count a) TIdle, rn_errCh = [],
      rn_ctx_done = ctx_done, rn_runctx_done = ctx_done, rn_deadline = False, rn_runErr = None,
      rn_shutdownErr = None, rn_result = None, rn_trace = []\<rparr>"

text \<open>\<open>Run(nil)\<close>\<close>

definition run_nil_ctx :: goerr where
  "run_nil_ctx = EText ''runtime: context is required''"

definition note_err :: "goerr option \<Rightarrow> run \<Rightarrow> run" where
  "note_err err s =
     (if err \<noteq> None \<and> rn_shutdownErr s = None then s\<lparr>rn_shutdownErr := err\<rparr> else s)"

definition goes :: "run_event \<Rightarrow> goerr option \<Rightarrow> run_pc \<Rightarrow> run \<Rightarrow> run" where
  "goes ev err pc s = s\<lparr>rn_pc := pc, rn_trace := rn_trace s @ [(ev, err)]\<rparr>"

definition drain_error :: goerr where
  "drain_error = EText ''runtime: shutdown deadline exceeded waiting for runners''"

definition shutdown_error :: "named_server \<Rightarrow> goerr option \<Rightarrow> goerr option" where
  "shutdown_error sv r = map_option (EWrap (sv_name sv @ '' shutdown: '')) r"

definition close_error :: "named_closer \<Rightarrow> goerr option \<Rightarrow> goerr option" where
  "close_error c r = map_option (EWrap (nc_name c @ '' close: '')) r"

inductive run_step :: "run \<Rightarrow> run \<Rightarrow> bool" where
  rs_start: "rn_pc s = PStart k \<Longrightarrow> k < task_count s \<Longrightarrow>
     run_step s (goes (EvStart k) None (PStart (Suc k)) (s\<lparr>rn_tasks := (rn_tasks s)[k := TRunning]\<rparr>))"
| rs_started: "rn_pc s = PStart k \<Longrightarrow> k = task_count s \<Longrightarrow> run_step s (s\<lparr>rn_pc := PReady\<rparr>)"
| rs_ready: "rn_pc s = PReady \<Longrightarrow> run_step s (goes EvReady None PSelect (s\<lparr>a_ready := True\<rparr>))"
| rs_ctx: "rn_pc s = PSelect \<Longrightarrow> rn_ctx_done s \<Longrightarrow> run_step s (s\<lparr>rn_pc := PUnready\<rparr>)"
| rs_err: "rn_pc s = PSelect \<Longrightarrow> rn_errCh s = e # es \<Longrightarrow>
     run_step s (s\<lparr>rn_pc := PUnready, rn_errCh := es, rn_runErr := Some e\<rparr>)"
| rs_unready: "rn_pc s = PUnready \<Longrightarrow>
     run_step s (goes EvUnready None (PShutdown (length (a_servers s))) (s\<lparr>a_ready := False\<rparr>))"
| rs_no_shutdown: "rn_pc s = PShutdown (Suc k) \<Longrightarrow> sv_shutdown (a_servers s ! k) = None \<Longrightarrow>
     run_step s (s\<lparr>rn_pc := PShutdown k\<rparr>)"
| rs_shutdown: "rn_pc s = PShutdown (Suc k) \<Longrightarrow> sv_shutdown (a_servers s ! k) = Some sh \<Longrightarrow>
     shutdown_returns (rn_deadline s) sh r \<Longrightarrow> err = shutdown_error (a_servers s ! k) r \<Longrightarrow>
     run_step s (goes (EvShutdown k) err (PShutdown k) (note_err err s))"
| rs_stopped: "rn_pc s = PShutdown 0 \<Longrightarrow> run_step s (s\<lparr>rn_pc := PCancel\<rparr>)"
| rs_cancel: "rn_pc s = PCancel \<Longrightarrow>
     run_step s (goes EvCancel None PDrain (s\<lparr>rn_runctx_done := True\<rparr>))"
| rs_drained: "rn_pc s = PDrain \<Longrightarrow> list_all (\<lambda>t. t = TDone) (rn_tasks s) \<Longrightarrow>
     run_step s (goes EvDrain None (PClose (length (a_closers s))) s)"
| rs_deadline: "rn_pc s = PDrain \<Longrightarrow> rn_deadline s \<Longrightarrow>
     run_step s (goes EvDrain (Some drain_error) (PClose (length (a_closers s)))
       (note_err (Some drain_error) s))"
| rs_close: "rn_pc s = PClose (Suc k) \<Longrightarrow> err = close_error (a_closers s ! k) r \<Longrightarrow>
     run_step s (goes (EvClose k) err (PClose k) (note_err err s))"
| rs_return: "rn_pc s = PClose 0 \<Longrightarrow>
     run_step s (s\<lparr>rn_pc := PDone,
       rn_result := (if rn_runErr s \<noteq> None then rn_runErr s else rn_shutdownErr s)\<rparr>)"

abbreviation set_task :: "nat \<Rightarrow> task \<Rightarrow> run \<Rightarrow> run" where
  "set_task i t s \<equiv> s\<lparr>rn_tasks := (rn_tasks s)[i := t]\<rparr>"

inductive task_step :: "run \<Rightarrow> run \<Rightarrow> bool" where
  ts_nil: "i < length (rn_tasks s) \<Longrightarrow> rn_tasks s ! i = TRunning \<Longrightarrow> task_result s i r = None \<Longrightarrow>
     task_step s (set_task i TDone s)"
| ts_err: "i < length (rn_tasks s) \<Longrightarrow> rn_tasks s ! i = TRunning \<Longrightarrow> task_result s i r = Some e \<Longrightarrow>
     task_step s (set_task i (TReturned e) s)"
| ts_ignore: "i < length (rn_tasks s) \<Longrightarrow> rn_tasks s ! i = TReturned e \<Longrightarrow> rn_runctx_done s \<Longrightarrow>
     task_step s (set_task i TDone s)"
| ts_report: "i < length (rn_tasks s) \<Longrightarrow> rn_tasks s ! i = TReturned e \<Longrightarrow> \<not> rn_runctx_done s \<Longrightarrow>
     task_step s (set_task i (TSend (EWrap (task_name s i @ '': '') e)) s)"
| ts_send: "i < length (rn_tasks s) \<Longrightarrow> rn_tasks s ! i = TSend e \<Longrightarrow>
     length (rn_errCh s) < errCh_cap s \<Longrightarrow>
     task_step s (set_task i TCancel (s\<lparr>rn_errCh := rn_errCh s @ [e]\<rparr>))"
| ts_cancel: "i < length (rn_tasks s) \<Longrightarrow> rn_tasks s ! i = TCancel \<Longrightarrow>
     task_step s (set_task i TDone (s\<lparr>rn_runctx_done := True\<rparr>))"

definition shutting_down :: "run_pc \<Rightarrow> bool" where
  "shutting_down pc \<longleftrightarrow> (case pc of
     PShutdown k \<Rightarrow> True | PCancel \<Rightarrow> True | PDrain \<Rightarrow> True | PClose k \<Rightarrow> True | _ \<Rightarrow> False)"

inductive outer_step :: "run \<Rightarrow> run \<Rightarrow> bool" where
  os_ctx: "outer_step s (s\<lparr>rn_ctx_done := True\<rparr>)"
| os_propagate: "rn_ctx_done s \<Longrightarrow> outer_step s (s\<lparr>rn_runctx_done := True\<rparr>)"
| os_deadline: "shutting_down (rn_pc s) \<Longrightarrow> outer_step s (s\<lparr>rn_deadline := True\<rparr>)"

inductive_simps run_step_simps: "run_step s t"
inductive_simps task_step_simps: "task_step s t"
inductive_simps outer_step_simps: "outer_step s t"

text \<open>\<open>run_path n s t\<close>: from \<open>s\<close> to \<open>t\<close> with \<open>n\<close> steps of the caller's goroutine among the others.\<close>

inductive run_path :: "nat \<Rightarrow> run \<Rightarrow> run \<Rightarrow> bool" where
  rp_refl: "run_path 0 s s"
| rp_main: "run_path n s t \<Longrightarrow> run_step t u \<Longrightarrow> run_path (Suc n) s u"
| rp_task: "run_path n s t \<Longrightarrow> task_step t u \<Longrightarrow> run_path n s u"
| rp_outer: "run_path n s t \<Longrightarrow> outer_step t u \<Longrightarrow> run_path n s u"

definition run_reaches :: "app \<Rightarrow> run \<Rightarrow> bool" where
  "run_reaches a s \<longleftrightarrow> (\<exists>n c. run_path n (run_start a c) s)"

section \<open>Invariants\<close>

text \<open>What is registered does not change during \<open>Run\<close>, and every started goroutine has a task.\<close>

definition same_app :: "app \<Rightarrow> run \<Rightarrow> bool" where
  "same_app a s \<longleftrightarrow> a_servers s = a_servers a \<and> a_runners s = a_runners a
     \<and> a_closers s = a_closers a \<and> length (rn_tasks s) = task_count a"

lemma note_err_simps [simp]:
  "a_servers (note_err e s) = a_servers s" "a_runners (note_err e s) = a_runners s"
  "a_closers (note_err e s) = a_closers s" "rn_tasks (note_err e s) = rn_tasks s"
  "rn_pc (note_err e s) = rn_pc s" "rn_trace (note_err e s) = rn_trace s"
  "a_ready (note_err e s) = a_ready s" "rn_errCh (note_err e s) = rn_errCh s"
  "rn_runErr (note_err e s) = rn_runErr s" "rn_deadline (note_err e s) = rn_deadline s"
  "rn_runctx_done (note_err e s) = rn_runctx_done s" "rn_ctx_done (note_err e s) = rn_ctx_done s"
  "rn_result (note_err e s) = rn_result s"
  by (simp_all add: note_err_def)

lemma goes_simps [simp]:
  "a_servers (goes v e p s) = a_servers s" "a_runners (goes v e p s) = a_runners s"
  "a_closers (goes v e p s) = a_closers s" "rn_tasks (goes v e p s) = rn_tasks s"
  "rn_pc (goes v e p s) = p" "rn_trace (goes v e p s) = rn_trace s @ [(v, e)]"
  "a_ready (goes v e p s) = a_ready s" "rn_errCh (goes v e p s) = rn_errCh s"
  "rn_runErr (goes v e p s) = rn_runErr s" "rn_deadline (goes v e p s) = rn_deadline s"
  "rn_runctx_done (goes v e p s) = rn_runctx_done s" "rn_ctx_done (goes v e p s) = rn_ctx_done s"
  "rn_result (goes v e p s) = rn_result s" "rn_shutdownErr (goes v e p s) = rn_shutdownErr s"
  by (simp_all add: goes_def)

lemma same_app_step:
  "run_step s t \<Longrightarrow> same_app a s \<Longrightarrow> same_app a t"
  "task_step s t \<Longrightarrow> same_app a s \<Longrightarrow> same_app a t"
  "outer_step s t \<Longrightarrow> same_app a s \<Longrightarrow> same_app a t"
    apply (induction rule: run_step.induct; simp add: same_app_def)
   apply (induction rule: task_step.induct; simp add: same_app_def)
  apply (induction rule: outer_step.induct; simp add: same_app_def)
  done

text \<open>The induction principle of the reachable states.\<close>

lemma run_invariant:
  assumes "run_reaches a s" and "\<And>c. P (run_start a c)"
    and "\<And>s t. same_app a s \<Longrightarrow> P s \<Longrightarrow> run_step s t \<Longrightarrow> P t"
    and "\<And>s t. same_app a s \<Longrightarrow> P s \<Longrightarrow> task_step s t \<Longrightarrow> P t"
    and "\<And>s t. same_app a s \<Longrightarrow> P s \<Longrightarrow> outer_step s t \<Longrightarrow> P t"
  shows "same_app a s \<and> P s"
proof -
  have "same_app a (run_start a c)" for c by (simp add: same_app_def run_start_def)
  moreover have "run_path n r s \<Longrightarrow> same_app a r \<and> P r \<Longrightarrow> same_app a s \<and> P s" for n r s
    by (induction rule: run_path.induct) (blast intro: assms(3-5) same_app_step)+
  ultimately show ?thesis using assms(1,2) unfolding run_reaches_def by blast
qed

lemma run_same_app: "run_reaches a s \<Longrightarrow> same_app a s"
  using run_invariant [of a s "\<lambda>s. True"] by simp

text \<open>The order of the phases: what the caller's goroutine has done when it is at \<open>pc\<close>.\<close>

definition has_shutdown :: "app \<Rightarrow> nat \<Rightarrow> bool" where
  "has_shutdown a k \<longleftrightarrow> sv_shutdown (a_servers a ! k) \<noteq> None"

definition stops :: "app \<Rightarrow> nat \<Rightarrow> run_event list" where
  "stops a k = map EvShutdown (filter (has_shutdown a) (rev [k..<length (a_servers a)]))"

definition up :: "app \<Rightarrow> run_event list" where
  "up a = map EvStart [0..<task_count a] @ [EvReady]"

fun done_at :: "app \<Rightarrow> run_pc \<Rightarrow> run_event list" where
  "done_at a (PStart k) = map EvStart [0..<k]"
| "done_at a PReady = map EvStart [0..<task_count a]"
| "done_at a PSelect = up a"
| "done_at a PUnready = up a"
| "done_at a (PShutdown k) = up a @ [EvUnready] @ stops a k"
| "done_at a PCancel = up a @ [EvUnready] @ stops a 0"
| "done_at a PDrain = up a @ [EvUnready] @ stops a 0 @ [EvCancel]"
| "done_at a (PClose k) = up a @ [EvUnready] @ stops a 0 @ [EvCancel, EvDrain]
     @ map EvClose (rev [k..<length (a_closers a)])"
| "done_at a PDone = up a @ [EvUnready] @ stops a 0 @ [EvCancel, EvDrain]
     @ map EvClose (rev [0..<length (a_closers a)])"

fun pc_ok :: "app \<Rightarrow> run_pc \<Rightarrow> bool" where
  "pc_ok a (PStart k) = (k \<le> task_count a)"
| "pc_ok a (PShutdown k) = (k \<le> length (a_servers a))"
| "pc_ok a (PClose k) = (k \<le> length (a_closers a))"
| "pc_ok a _ = True"

lemma task_count_same: "same_app a s \<Longrightarrow> task_count s = task_count a"
  by (simp add: same_app_def task_count_def)

lemma rev_upt_Suc: "k < n \<Longrightarrow> rev [k..<n] = rev [Suc k..<n] @ [k]"
  by (simp add: upt_rec)

lemma run_step_trace:
  assumes "run_step s t" and "same_app a s" and "pc_ok a (rn_pc s)"
    and "map fst (rn_trace s) = done_at a (rn_pc s)"
  shows "pc_ok a (rn_pc t) \<and> map fst (rn_trace t) = done_at a (rn_pc t)"
  using assms
proof (cases rule: run_step.cases)
  case (rs_no_shutdown k)
  with assms show ?thesis
    by (auto simp: stops_def has_shutdown_def same_app_def rev_upt_Suc Suc_le_eq)
next
  case (rs_shutdown k sh r err)
  with assms show ?thesis
    by (auto simp: stops_def has_shutdown_def same_app_def rev_upt_Suc Suc_le_eq)
next
  case (rs_unready)
  with assms show ?thesis by (auto simp: stops_def same_app_def)
next
  case (rs_close k err r)
  with assms show ?thesis by (auto simp: same_app_def rev_upt_Suc Suc_le_eq)
qed (auto simp: same_app_def task_count_same up_def)

lemma run_trace:
  assumes "run_reaches a s"
  shows "pc_ok a (rn_pc s) \<and> map fst (rn_trace s) = done_at a (rn_pc s)"
proof -
  let ?P = "\<lambda>s. pc_ok a (rn_pc s) \<and> map fst (rn_trace s) = done_at a (rn_pc s)"
  have "same_app a s \<and> ?P s"
    using assms
  proof (rule run_invariant)
    fix s t assume "same_app a s" "?P s" "run_step s t"
    then show "?P t" using run_step_trace by blast
  next
    fix s t assume "?P s" "task_step s t"
    from this(2,1) show "?P t" by (cases rule: task_step.cases) simp_all
  next
    fix s t assume "?P s" "outer_step s t"
    from this(2,1) show "?P t" by (cases rule: outer_step.cases) simp_all
  qed (simp add: run_start_def)
  then show ?thesis by blast
qed

text \<open>Readiness, the errors kept, and what closers wait for.\<close>

fun first_some :: "'b option list \<Rightarrow> 'b option" where
  "first_some [] = None"
| "first_some (None # xs) = first_some xs"
| "first_some (Some x # xs) = Some x"

lemma first_some_snoc:
  "first_some (xs @ [x]) = (case first_some xs of None \<Rightarrow> x | Some y \<Rightarrow> Some y)"
  by (induction xs rule: first_some.induct; cases x) (auto split: option.split)

definition stopped :: "run_pc \<Rightarrow> bool" where
  "stopped pc \<longleftrightarrow> shutting_down pc \<or> pc = PDone"

definition drained :: "run \<Rightarrow> bool" where
  "drained s \<longleftrightarrow> list_all (\<lambda>t. t = TDone) (rn_tasks s) \<or> rn_deadline s"

fun closing :: "run_pc \<Rightarrow> bool" where
  "closing (PClose k) = True"
| "closing PDone = True"
| "closing _ = False"

definition phase_ok :: "run \<Rightarrow> bool" where
  "phase_ok s \<longleftrightarrow> (stopped (rn_pc s) \<longrightarrow> \<not> a_ready s)
     \<and> (rn_pc s \<in> {PSelect, PUnready} \<longrightarrow> a_ready s)
     \<and> (closing (rn_pc s) \<longrightarrow> drained s)
     \<and> rn_shutdownErr s = first_some (map snd (rn_trace s))
     \<and> (rn_pc s = PDone \<longrightarrow> rn_result s =
          (if rn_runErr s \<noteq> None then rn_runErr s else rn_shutdownErr s))"

lemma note_err_shutdownErr:
  "rn_shutdownErr s = first_some xs \<Longrightarrow> rn_shutdownErr (note_err e s) = first_some (xs @ [e])"
  by (auto simp: note_err_def first_some_snoc split: option.split)

lemma phase_ok_step:
  assumes "run_step s t" and "phase_ok s"
  shows "phase_ok t"
  using assms
  by (cases rule: run_step.cases)
    (auto simp: phase_ok_def stopped_def shutting_down_def drained_def first_some_snoc
      note_err_shutdownErr split: option.splits)

lemma task_step_keeps:
  "task_step s t \<Longrightarrow> rn_pc t = rn_pc s \<and> a_ready t = a_ready s \<and> rn_trace t = rn_trace s
     \<and> rn_shutdownErr t = rn_shutdownErr s \<and> rn_result t = rn_result s \<and> rn_runErr t = rn_runErr s
     \<and> rn_deadline t = rn_deadline s
     \<and> \<not> list_all (\<lambda>t. t = TDone) (rn_tasks s)"
  by (induction rule: task_step.induct) (auto simp: list_all_length)

lemma outer_step_keeps:
  "outer_step s t \<Longrightarrow> rn_pc t = rn_pc s \<and> a_ready t = a_ready s \<and> rn_trace t = rn_trace s
     \<and> rn_shutdownErr t = rn_shutdownErr s \<and> rn_result t = rn_result s \<and> rn_runErr t = rn_runErr s
     \<and> rn_tasks t = rn_tasks s \<and> rn_errCh t = rn_errCh s
     \<and> (rn_deadline s \<longrightarrow> rn_deadline t)"
  by (induction rule: outer_step.induct) auto

lemma run_phase_ok: "run_reaches a s \<Longrightarrow> phase_ok s"
proof -
  assume "run_reaches a s"
  then have "same_app a s \<and> phase_ok s"
  proof (rule run_invariant)
    fix s t assume "phase_ok s" "task_step s t"
    with task_step_keeps [OF this(2)] show "phase_ok t" by (auto simp: phase_ok_def drained_def)
  next
    fix s t assume "phase_ok s" "outer_step s t"
    with outer_step_keeps [OF this(2)] show "phase_ok t" by (auto simp: phase_ok_def drained_def)
  next
    fix s t assume "phase_ok s" "run_step s t"
    then show "phase_ok t" using phase_ok_step by blast
  qed (auto simp: run_start_def phase_ok_def stopped_def shutting_down_def)
  then show ?thesis ..
qed

text \<open>
  Room in \<open>errCh\<close>: every goroutine sends at most once, so the errors in the buffer and the
  goroutines that may still send are never more than the goroutines.
\<close>

fun pending :: "task \<Rightarrow> nat" where
  "pending TCancel = 0"
| "pending TDone = 0"
| "pending _ = 1"

definition load :: "run \<Rightarrow> nat" where
  "load s = length (rn_errCh s) + sum_list (map pending (rn_tasks s))"

lemma pending_update:
  "i < length ts \<Longrightarrow>
     sum_list (map pending (ts[i := t])) + pending (ts ! i) = sum_list (map pending ts) + pending t"
proof (induction ts arbitrary: i)
  case (Cons x ts)
  then show ?case by (cases i) auto
qed simp

lemma task_step_load: "task_step s t \<Longrightarrow> load t \<le> load s"
proof (induction rule: task_step.induct)
  case (ts_nil i s r)
  then show ?case using pending_update [of i "rn_tasks s" TDone] by (simp add: load_def)
next
  case (ts_err i s r e)
  then show ?case using pending_update [of i "rn_tasks s" "TReturned e"] by (simp add: load_def)
next
  case (ts_ignore i s e)
  then show ?case using pending_update [of i "rn_tasks s" TDone] by (simp add: load_def)
next
  case (ts_report i s e)
  then show ?case
    using pending_update [of i "rn_tasks s" "TSend (EWrap (task_name s i @ '': '') e)"]
    by (simp add: load_def)
next
  case (ts_send i s e)
  then show ?case using pending_update [of i "rn_tasks s" TCancel] by (simp add: load_def)
next
  case (ts_cancel i s)
  then show ?case using pending_update [of i "rn_tasks s" TDone] by (simp add: load_def)
qed

lemma pending_le_1: "pending t \<le> 1"
  by (cases t) simp_all

definition idle_above :: "run \<Rightarrow> bool" where
  "idle_above s \<longleftrightarrow>
     (\<forall>k i. rn_pc s = PStart k \<longrightarrow> k \<le> i \<longrightarrow> i < length (rn_tasks s) \<longrightarrow> rn_tasks s ! i = TIdle)"

lemma run_step_load:
  assumes "run_step s t" and "same_app a s" and "idle_above s"
  shows "idle_above t \<and> load t \<le> load s"
  using assms(1)
proof (cases rule: run_step.cases)
  case (rs_start k)
  with assms have "k < length (rn_tasks s)" by (simp add: same_app_def task_count_def)
  moreover from this rs_start assms(3) have "rn_tasks s ! k = TIdle" by (simp add: idle_above_def)
  ultimately show ?thesis
    using rs_start assms(3) pending_update [of k "rn_tasks s" TRunning]
    by (auto simp: idle_above_def load_def)
qed (use assms in \<open>auto simp: idle_above_def load_def\<close>)

lemma run_load: "run_reaches a s \<Longrightarrow> load s \<le> task_count a"
proof -
  assume "run_reaches a s"
  then have "same_app a s \<and> (idle_above s \<and> load s \<le> task_count a)"
  proof (rule run_invariant)
    fix s t assume "same_app a s" "idle_above s \<and> load s \<le> task_count a" "run_step s t"
    then show "idle_above t \<and> load t \<le> task_count a"
      using run_step_load by (meson le_trans)
  next
    fix s t assume "idle_above s \<and> load s \<le> task_count a" "task_step s t"
    moreover have "idle_above t"
      using calculation(2,1)
      by (cases rule: task_step.cases) (auto simp: idle_above_def nth_list_update)
    ultimately show "idle_above t \<and> load t \<le> task_count a"
      using task_step_load by (meson le_trans)
  next
    fix s t assume "idle_above s \<and> load s \<le> task_count a" "outer_step s t"
    with outer_step_keeps [OF this(2)] show "idle_above t \<and> load t \<le> task_count a"
      by (simp add: idle_above_def load_def)
  qed (simp add: run_start_def idle_above_def load_def sum_list_replicate)
  then show ?thesis by blast
qed

text \<open>Where the reported errors come from.\<close>

definition reports :: "app \<Rightarrow> goerr \<Rightarrow> bool" where
  "reports a e \<longleftrightarrow> (\<exists>i r e0. i < task_count a \<and> task_result a i r = Some e0
     \<and> e = EWrap (task_name a i @ '': '') e0)"

definition task_ok :: "app \<Rightarrow> nat \<Rightarrow> task \<Rightarrow> bool" where
  "task_ok a i t \<longleftrightarrow> (case t of
     TReturned e \<Rightarrow> (\<exists>r. task_result a i r = Some e) | TSend e \<Rightarrow> reports a e | _ \<Rightarrow> True)"

definition errors_ok :: "app \<Rightarrow> run \<Rightarrow> bool" where
  "errors_ok a s \<longleftrightarrow> list_all (reports a) (rn_errCh s) \<and> pred_option (reports a) (rn_runErr s)
     \<and> (\<forall>i<length (rn_tasks s). task_ok a i (rn_tasks s ! i))"

lemma task_ok_update:
  "\<forall>i<length ts. task_ok a i (ts ! i) \<Longrightarrow> task_ok a k t \<Longrightarrow> i < length ts
     \<Longrightarrow> task_ok a i (ts[k := t] ! i)"
  by (cases "i = k") auto

lemma task_ok_simps [simp]: "task_ok a i TIdle" "task_ok a i TRunning" "task_ok a i TDone" "task_ok a i TCancel"
  by (simp_all add: task_ok_def)

lemma same_app_task:
  "same_app a s \<Longrightarrow> task_name s i = task_name a i" "same_app a s \<Longrightarrow> task_result s i r = task_result a i r"
  by (simp_all add: same_app_def task_name_def task_result_def)

lemma errors_ok_task:
  assumes "task_step s t" and "same_app a s" and "errors_ok a s"
  shows "errors_ok a t"
  using assms(1)
proof (cases rule: task_step.cases)
  case (ts_report i e)
  then have "task_ok a i (TReturned e)" using assms(3) by (metis errors_ok_def)
  moreover have "i < task_count a" using ts_report assms(2) by (simp add: same_app_def)
  ultimately show ?thesis
    using ts_report assms(2,3)
    by (auto simp: errors_ok_def nth_list_update task_ok_def reports_def same_app_task)
next
  case (ts_send i e)
  then have "task_ok a i (TSend e)" using assms(3) by (metis errors_ok_def)
  then show ?thesis
    using ts_send assms(3) by (auto simp: errors_ok_def nth_list_update task_ok_def)
qed (use assms(2,3) in \<open>auto simp: errors_ok_def nth_list_update task_ok_def same_app_task\<close>)

lemma run_errors_ok: "run_reaches a s \<Longrightarrow> errors_ok a s"
proof -
  assume "run_reaches a s"
  then have "same_app a s \<and> errors_ok a s"
  proof (rule run_invariant)
    fix s t assume "errors_ok a s" "run_step s t"
    from this(2,1) show "errors_ok a t"
      by (cases rule: run_step.cases) (auto simp: errors_ok_def task_ok_update)
  next
    fix s t assume "errors_ok a s" "outer_step s t"
    with outer_step_keeps [OF this(2)] show "errors_ok a t" by (simp add: errors_ok_def)
  next
    fix s t assume "same_app a s" "errors_ok a s" "task_step s t"
    then show "errors_ok a t" using errors_ok_task by blast
  qed (auto simp: run_start_def errors_ok_def)
  then show ?thesis ..
qed

text \<open>Why the caller's goroutine left its \<open>select\<close>.\<close>

definition cause_ok :: "run \<Rightarrow> bool" where
  "cause_ok s \<longleftrightarrow>
     (rn_errCh s \<noteq> [] \<or> rn_runErr s \<noteq> None \<longrightarrow> rn_runctx_done s \<or> TCancel \<in> set (rn_tasks s))
     \<and> (stopped (rn_pc s) \<or> rn_pc s = PUnready \<longrightarrow> rn_ctx_done s \<or> rn_runErr s \<noteq> None)"

lemma in_set_update_other:
  "x \<in> set xs \<Longrightarrow> i < length xs \<Longrightarrow> xs ! i \<noteq> x \<Longrightarrow> x \<in> set (xs[i := y])"
  by (metis in_set_conv_nth length_list_update nth_list_update_neq)

lemma cause_ok_task:
  assumes "task_step s t" and "cause_ok s"
  shows "cause_ok t"
  using assms
  by (cases rule: task_step.cases)
    (auto simp: cause_ok_def in_set_update_other set_update_memI)

lemma cause_ok_run:
  assumes "run_step s t" and "same_app a s" and "idle_above s" and "cause_ok s"
  shows "cause_ok t"
  using assms(1)
proof (cases rule: run_step.cases)
  case (rs_start k)
  with assms(2) have "k < length (rn_tasks s)" by (simp add: same_app_def task_count_def)
  moreover from this rs_start assms(3) have "rn_tasks s ! k = TIdle" by (simp add: idle_above_def)
  ultimately show ?thesis
    using rs_start assms(4) by (auto simp: cause_ok_def in_set_update_other stopped_def shutting_down_def)
qed (use assms(4) in \<open>auto simp: cause_ok_def stopped_def shutting_down_def\<close>)

lemma run_cause_ok: "run_reaches a s \<Longrightarrow> cause_ok s"
proof -
  assume "run_reaches a s"
  then have "same_app a s \<and> (idle_above s \<and> cause_ok s)"
  proof (rule run_invariant)
    fix s t assume "same_app a s" "idle_above s \<and> cause_ok s" "run_step s t"
    then show "idle_above t \<and> cause_ok t" using cause_ok_run run_step_load by blast
  next
    fix s t assume "idle_above s \<and> cause_ok s" "task_step s t"
    moreover have "idle_above t"
      using calculation(2,1)
      by (cases rule: task_step.cases) (auto simp: idle_above_def nth_list_update)
    ultimately show "idle_above t \<and> cause_ok t" using cause_ok_task by blast
  next
    fix s t assume "idle_above s \<and> cause_ok s" "outer_step s t"
    from this(2,1) show "idle_above t \<and> cause_ok t"
      by (cases rule: outer_step.cases) (auto simp: idle_above_def cause_ok_def)
  qed (simp add: run_start_def idle_above_def cause_ok_def stopped_def shutting_down_def)
  then show ?thesis by blast
qed

text \<open>How many of its own steps the caller's goroutine still takes once the deadline has passed.\<close>

fun pc_rank :: "nat \<Rightarrow> run_pc \<Rightarrow> nat" where
  "pc_rank m (PShutdown k) = k + m + 4"
| "pc_rank m PCancel = m + 3"
| "pc_rank m PDrain = m + 2"
| "pc_rank m (PClose k) = k + 1"
| "pc_rank m _ = 0"

definition run_rank :: "run \<Rightarrow> nat" where
  "run_rank s = pc_rank (length (a_closers s)) (rn_pc s)"

lemma run_rank_step:
  "run_step s t \<Longrightarrow> stopped (rn_pc s) \<Longrightarrow> stopped (rn_pc t) \<and> run_rank t < run_rank s
     \<and> (rn_deadline s \<longrightarrow> rn_deadline t)"
  by (induction rule: run_step.induct) (auto simp: stopped_def shutting_down_def run_rank_def)

lemma run_path_rank:
  assumes "run_path n s t" and "stopped (rn_pc s)" and "rn_deadline s"
  shows "stopped (rn_pc t) \<and> rn_deadline t \<and> n + run_rank t \<le> run_rank s"
  using assms
proof (induction rule: run_path.induct)
  case (rp_main n s t u)
  then show ?case using run_rank_step [of t u] by fastforce
next
  case (rp_task n s t u)
  then have "a_closers u = a_closers t" by (auto simp: task_step_simps)
  with rp_task task_step_keeps [of t u] show ?case by (simp add: run_rank_def)
next
  case (rp_outer n s t u)
  then have "a_closers u = a_closers t" by (auto simp: outer_step_simps)
  with rp_outer outer_step_keeps [of t u] show ?case by (simp add: run_rank_def)
qed simp

lemma run_never_stuck:
  assumes "stopped (rn_pc s)" and "rn_pc s \<noteq> PDone" and "rn_pc s = PDrain \<longrightarrow> drained s"
  shows "\<exists>t. run_step s t"
proof (cases "rn_pc s")
  case (PShutdown k)
  show ?thesis
  proof (cases k)
    case 0
    with PShutdown show ?thesis by (blast intro: run_step.intros)
  next
    case (Suc k')
    show ?thesis
    proof (cases "sv_shutdown (a_servers s ! k')")
      case None
      with PShutdown Suc show ?thesis by (blast intro: rs_no_shutdown)
    next
      case (Some sh)
      have "\<exists>r. shutdown_returns (rn_deadline s) sh r"
        by (cases sh) (auto simp: shutdown_returns_def)
      with PShutdown Suc Some show ?thesis by (blast intro: rs_shutdown)
    qed
  qed
next
  case (PClose k)
  then show ?thesis by (cases k) (blast intro: rs_close rs_return)+
next
  case PDrain
  with assms(3) show ?thesis unfolding drained_def by (blast intro: rs_drained rs_deadline)
qed (use assms in \<open>auto simp: stopped_def shutting_down_def intro: rs_cancel\<close>)

section \<open>An application that stops\<close>

text \<open>An HTTP server, a runner and a closer; the runner fails and the server does not stop in time.\<close>

definition demo_app :: app where
  "demo_app =
     AddCloser [] (Some 3) (AddRunner ''worker'' (Some 2) (AddHTTP [] '':80'' 1
       \<lparr>a_cfg = \<lparr>ac_Name = ''demo'', ac_ShutdownTimeout = second\<rparr>, a_ready = False,
        a_servers = [], a_runners = [], a_closers = []\<rparr>))"

definition demo_run :: "run_pc \<Rightarrow> bool \<Rightarrow> task list \<Rightarrow> run" where
  "demo_run pc ready ts = (run_start demo_app False)\<lparr>a_ready := ready, rn_pc := pc, rn_tasks := ts\<rparr>"

lemmas demo_run_defs =
  demo_run_def run_start_def demo_app_def AddHTTP_def AddRunner_def AddCloser_def name_or_def
  goes_def task_count_def errCh_cap_def task_name_def task_result_def

lemma demo_select:
  "\<exists>s. run_path 4 (run_start demo_app False) s
     \<and> s = (demo_run PSelect True [TRunning, TRunning])
           \<lparr>rn_trace := [(EvStart 0, None), (EvStart 1, None), (EvReady, None)]\<rparr>"
proof -
  let ?s0 = "run_start demo_app False"
  let ?s1 = "(demo_run (PStart 1) False [TRunning, TIdle])\<lparr>rn_trace := [(EvStart 0, None)]\<rparr>"
  let ?s2 = "(demo_run (PStart 2) False [TRunning, TRunning])
     \<lparr>rn_trace := [(EvStart 0, None), (EvStart 1, None)]\<rparr>"
  let ?s3 = "?s2\<lparr>rn_pc := PReady\<rparr>"
  let ?s4 = "?s3\<lparr>rn_pc := PSelect, a_ready := True, rn_trace := rn_trace ?s3 @ [(EvReady, None)]\<rparr>"
  have "run_step ?s0 ?s1" "run_step ?s1 ?s2" "run_step ?s2 ?s3" "run_step ?s3 ?s4"
    by (simp_all add: run_step_simps demo_run_defs)
  from rp_main [OF rp_main [OF rp_main [OF rp_main [OF rp_refl this(1)] this(2)] this(3)] this(4)]
  have "run_path 4 ?s0 ?s4" by (simp add: numeral_eq_Suc)
  then show ?thesis by (rule exI [of _ ?s4, OF conjI]) (simp add: demo_run_def)
qed

definition boom :: goerr where
  "boom = EWrap ''worker: '' (EText ''boom'')"

definition demo_up :: "(run_event \<times> goerr option) list" where
  "demo_up = [(EvStart 0, None), (EvStart 1, None), (EvReady, None)]"

definition demo_sending :: run where
  "demo_sending = (demo_run PSelect True [TRunning, TSend boom])\<lparr>rn_trace := demo_up\<rparr>"

definition demo_cancelled :: run where
  "demo_cancelled = (demo_run PSelect True [TRunning, TDone])
     \<lparr>rn_trace := demo_up, rn_errCh := [boom], rn_runctx_done := True\<rparr>"

definition demo_drain :: run where
  "demo_drain = (demo_run PDrain False [TRunning, TDone])
     \<lparr>rn_runctx_done := True, rn_runErr := Some boom, rn_deadline := True,
      rn_trace := demo_up @ [(EvUnready, None), (EvShutdown 0, None), (EvCancel, None)]\<rparr>"

definition demo_done :: run where
  "demo_done = demo_drain
     \<lparr>rn_pc := PDone, rn_shutdownErr := Some drain_error, rn_result := Some boom,
      rn_trace := rn_trace demo_drain @ [(EvDrain, Some drain_error), (EvClose 0, None)]\<rparr>"

lemma run_reachesI: "run_path n (run_start a c) s \<Longrightarrow> run_reaches a s"
  by (auto simp: run_reaches_def)

lemma run_reaches_step:
  "run_reaches a s \<Longrightarrow> run_step s t \<Longrightarrow> run_reaches a t"
  "run_reaches a s \<Longrightarrow> task_step s t \<Longrightarrow> run_reaches a t"
  "run_reaches a s \<Longrightarrow> outer_step s t \<Longrightarrow> run_reaches a t"
  unfolding run_reaches_def by (blast intro: run_path.intros)+

lemma demo_sending_reached: "run_reaches demo_app demo_sending"
proof -
  let ?s4 = "(demo_run PSelect True [TRunning, TRunning])\<lparr>rn_trace := demo_up\<rparr>"
  let ?s5 = "(demo_run PSelect True [TRunning, TReturned (EText ''boom'')])\<lparr>rn_trace := demo_up\<rparr>"
  have "run_reaches demo_app ?s4"
    using demo_select run_reachesI by (auto simp: demo_up_def)
  moreover have "task_step ?s4 ?s5"
    by (rule task_step.intros(2) [of 1, THEN back_subst [of "task_step ?s4"]])
      (auto simp: demo_run_defs)
  moreover have "task_step ?s5 demo_sending"
    by (rule task_step.intros(4) [of 1, THEN back_subst [of "task_step ?s5"]])
      (auto simp: demo_run_defs demo_sending_def boom_def)
  ultimately show ?thesis using run_reaches_step(2) by blast
qed

lemma demo_cancelled_reached: "run_reaches demo_app demo_cancelled"
proof -
  let ?s = "(demo_run PSelect True [TRunning, TCancel])\<lparr>rn_trace := demo_up, rn_errCh := [boom]\<rparr>"
  have "task_step demo_sending ?s"
    by (rule task_step.intros(5) [of 1, THEN back_subst [of "task_step demo_sending"]])
      (auto simp: demo_run_defs demo_sending_def)
  moreover have "task_step ?s demo_cancelled"
    by (rule task_step.intros(6) [of 1, THEN back_subst [of "task_step ?s"]])
      (auto simp: demo_run_defs demo_cancelled_def)
  ultimately show ?thesis using run_reaches_step(2) demo_sending_reached by blast
qed

lemma demo_drain_reached: "run_reaches demo_app demo_drain"
proof -
  let ?s1 = "demo_cancelled\<lparr>rn_pc := PUnready, rn_errCh := [], rn_runErr := Some boom\<rparr>"
  let ?s2 = "?s1\<lparr>rn_pc := PShutdown 1, a_ready := False, rn_trace := demo_up @ [(EvUnready, None)]\<rparr>"
  let ?s3 = "?s2\<lparr>rn_pc := PShutdown 0, rn_trace := demo_up @ [(EvUnready, None), (EvShutdown 0, None)]\<rparr>"
  let ?s4 = "?s3\<lparr>rn_pc := PCancel\<rparr>"
  let ?s5 = "?s4\<lparr>rn_pc := PDrain, rn_trace := rn_trace demo_drain\<rparr>"
  have "run_step demo_cancelled ?s1" "run_step ?s1 ?s2" "run_step ?s2 ?s3" "run_step ?s3 ?s4"
    "run_step ?s4 ?s5"
    by (simp_all add: run_step_simps demo_run_defs demo_cancelled_def demo_drain_def
        shutdown_returns_def shutdown_error_def note_err_def, rule exI [of _ None], simp)
  moreover have "outer_step ?s5 demo_drain"
    by (simp add: outer_step_simps demo_run_defs demo_cancelled_def demo_drain_def shutting_down_def)
  ultimately show ?thesis using run_reaches_step(1,3) demo_cancelled_reached by meson
qed

lemma demo_done_path: "run_path 3 demo_drain demo_done"
proof -
  let ?s1 = "demo_drain\<lparr>rn_pc := PClose 1, rn_shutdownErr := Some drain_error,
     rn_trace := rn_trace demo_drain @ [(EvDrain, Some drain_error)]\<rparr>"
  let ?s2 = "?s1\<lparr>rn_pc := PClose 0, rn_trace := rn_trace demo_done\<rparr>"
  have "run_step demo_drain ?s1" "run_step ?s1 ?s2" "run_step ?s2 demo_done"
    by (auto simp: run_step_simps demo_run_defs demo_done_def demo_drain_def note_err_def
        close_error_def intro: exI [of _ None])
  from rp_main [OF rp_main [OF rp_main [OF rp_refl this(1)] this(2)] this(3)]
  show ?thesis by (simp add: numeral_eq_Suc)
qed

lemma demo_done_reached: "run_reaches demo_app demo_done"
proof -
  have "run_path n s t \<Longrightarrow> run_reaches demo_app s \<Longrightarrow> run_reaches demo_app t" for n s t
    by (induction rule: run_path.induct) (blast intro: run_reaches_step)+
  with demo_done_path demo_drain_reached show ?thesis by blast
qed

section \<open>Correctness\<close>

text \<open>
  C1. The order of the documentation: in every interleaving the caller's goroutine has done exactly
  the steps \<open>done_at\<close> lists for the point it is at. It starts every goroutine once, becomes ready,
  then unready, stops the servers that have a shutdown function in reverse order, cancels the
  runners, waits, and closes the closers in reverse order; and \<open>Ping\<close> fails from before the first
  server is stopped.
\<close>

theorem shutdown_order:
  assumes "run_reaches a s"
  shows "map fst (rn_trace s) = done_at a (rn_pc s)
    \<and> (stopped (rn_pc s) \<longrightarrow> fst (App_Ping t s) = Some ErrNotReady)
    \<and> (rn_pc s = PSelect \<longrightarrow> fst (App_Ping t s) = None)"
  using run_trace [OF assms] run_phase_ok [OF assms]
  by (simp add: phase_ok_def App_Ping_def)

theorem shutdown_order_witness:
  "map fst (rn_trace demo_done) =
     [EvStart 0, EvStart 1, EvReady, EvUnready, EvShutdown 0, EvCancel, EvDrain, EvClose 0]
   \<and> fst (App_Ping 0 demo_done) = Some ErrNotReady"
  using shutdown_order [OF demo_done_reached, of 0]
  by (simp add: demo_done_def demo_drain_def demo_run_defs stopped_def up_def stops_def
      has_shutdown_def)

lemma close_after_drain:
  assumes "run_reaches a s" and "EvClose k \<in> set (map fst (rn_trace s))"
  shows "list_all (\<lambda>t. t = TDone) (rn_tasks s) \<or> rn_deadline s"
proof -
  from assms run_trace [OF assms(1)] have "EvClose k \<in> set (done_at a (rn_pc s))" by metis
  then have "closing (rn_pc s)" by (cases "rn_pc s") (auto simp: up_def stops_def)
  with run_phase_ok [OF assms(1)] show ?thesis by (auto simp: phase_ok_def drained_def)
qed

text \<open>
  C17. Resources are closed only when nothing uses them any more: once a closer has run, every
  server and runner goroutine has returned, unless the shutdown deadline has passed.
\<close>

theorem closers_wait_for_drain:
  assumes "run_reaches a s" and "EvClose k \<in> set (map fst (rn_trace s))"
  shows "list_all (\<lambda>t. t = TDone) (rn_tasks s) \<or> rn_deadline s"
  using assms by (rule close_after_drain)

theorem closers_wait_for_drain_witness:
  "list_all (\<lambda>t. t = TDone) (rn_tasks demo_done) \<or> rn_deadline demo_done"
  by (rule closers_wait_for_drain [OF demo_done_reached, of 0])
    (simp add: demo_done_def demo_drain_def demo_run_defs demo_up_def)

text \<open>
  No goroutine of \<open>Run\<close> blocks on reporting its error: when one is about to send there is room
  in \<open>errCh\<close>, although at most one error is ever received. So none leaks there after \<open>Run\<close> returned.
\<close>

theorem error_send_never_blocks:
  assumes "run_reaches a s" and "TSend e \<in> set (rn_tasks s)"
  shows "length (rn_errCh s) < errCh_cap s"
proof -
  have "pending (TSend e) \<in> set (map pending (rn_tasks s))"
    using assms(2) unfolding list.set_map by (rule imageI)
  then have "1 \<le> sum_list (map pending (rn_tasks s))"
    using member_le_sum_list by fastforce
  with run_load [OF assms(1)] run_same_app [OF assms(1)] show ?thesis
    by (simp add: load_def errCh_cap_def task_count_def same_app_def)
qed

theorem error_send_never_blocks_witness:
  "length (rn_errCh demo_sending) < errCh_cap demo_sending"
  by (rule error_send_never_blocks [OF demo_sending_reached, of boom])
    (simp add: demo_sending_def demo_run_def)

text \<open>
  C25. What \<open>Run\<close> returns: the error of the server or runner that ended it, wrapped with the name it
  was registered under; without one, the first error of the shutdown in the order of its steps,
  the missed deadline of the drain among them; nil when nothing failed.
\<close>

theorem run_result_is_first_error:
  assumes "run_reaches a s" and "rn_pc s = PDone"
  shows "(case rn_runErr s of
            Some e \<Rightarrow> rn_result s = Some e \<and> reports a e
          | None \<Rightarrow> rn_result s = first_some (map snd (rn_trace s)))"
  using run_phase_ok [OF assms(1)] run_errors_ok [OF assms(1)] assms(2)
  by (auto simp: phase_ok_def errors_ok_def pred_option_def split: option.split)

theorem run_result_is_first_error_witness:
  "rn_result demo_done = Some boom \<and> reports demo_app boom"
  using run_result_is_first_error [OF demo_done_reached]
  by (simp add: demo_done_def demo_drain_def demo_run_defs)

text \<open>
  C24. \<open>Run\<close> returns in bounded time: from the moment it stops being ready its goroutine waits for
  nothing but calls it made and the drain, and once the deadline has passed it returns after at
  most one step per server and closer and four more (a shutdown or close function is one step: it
  is taken to return).
\<close>

theorem run_returns_after_deadline:
  assumes "run_reaches a s" and "stopped (rn_pc s)" and "rn_deadline s" and "run_path n s t"
  shows "n \<le> length (a_servers a) + length (a_closers a) + 4
    \<and> (rn_pc t = PDone \<or> (\<exists>u. run_step t u))"
proof -
  note app = run_same_app [OF assms(1)]
  have "run_rank s \<le> length (a_servers a) + length (a_closers a) + 4"
    using run_trace [OF assms(1)] app by (cases "rn_pc s") (auto simp: run_rank_def same_app_def)
  moreover from run_path_rank [OF assms(4,2,3)] have
    "stopped (rn_pc t)" "rn_deadline t" "n + run_rank t \<le> run_rank s" by simp_all
  ultimately show ?thesis using run_never_stuck [of t] by (auto simp: drained_def)
qed

theorem run_returns_after_deadline_witness:
  "(3 :: nat) \<le> length (a_servers demo_app) + length (a_closers demo_app) + 4
   \<and> (rn_pc demo_done = PDone \<or> (\<exists>u. run_step demo_done u))"
proof (rule run_returns_after_deadline [OF demo_drain_reached _ _ demo_done_path])
  show "stopped (rn_pc demo_drain)" "rn_deadline demo_drain"
    by (simp_all add: demo_drain_def demo_run_def stopped_def shutting_down_def)
qed

text \<open>
  The package comment says that the servers are stopped first (2) and the contexts of the runners
  cancelled after that (3). \<open>runCtx\<close> derives from the given context, and a failing goroutine
  cancels it itself, so it is the other way round: in every run, whenever a server is being
  stopped, the context of the runners is already cancelled, or its cancellation is under way
  (the given context is cancelled, or the failed goroutine is at its call of \<open>runCancel\<close>).
\<close>

theorem runners_cancelled_before_servers_stop:
  assumes "run_reaches a s" and "rn_pc s = PShutdown k"
  shows "rn_runctx_done s \<or> rn_ctx_done s \<or> TCancel \<in> set (rn_tasks s)"
  using run_cause_ok [OF assms(1)] assms(2)
  by (auto simp: cause_ok_def stopped_def shutting_down_def)

theorem runners_cancelled_before_servers_stop_witness:
  "\<exists>s. run_reaches demo_app s \<and> rn_pc s = PShutdown 1 \<and> EvShutdown 0 \<notin> set (map fst (rn_trace s))
     \<and> (rn_runctx_done s \<or> rn_ctx_done s \<or> TCancel \<in> set (rn_tasks s))"
proof -
  let ?s1 = "demo_cancelled\<lparr>rn_pc := PUnready, rn_errCh := [], rn_runErr := Some boom\<rparr>"
  let ?s2 = "?s1\<lparr>rn_pc := PShutdown 1, a_ready := False, rn_trace := demo_up @ [(EvUnready, None)]\<rparr>"
  have "run_step demo_cancelled ?s1" "run_step ?s1 ?s2"
    by (simp_all add: run_step_simps demo_run_defs demo_cancelled_def)
  then have r: "run_reaches demo_app ?s2"
    using run_reaches_step(1) demo_cancelled_reached by meson
  have pc: "rn_pc ?s2 = PShutdown 1" by simp
  have "EvShutdown 0 \<notin> set (map fst (rn_trace ?s2))" by (simp add: demo_up_def)
  with runners_cancelled_before_servers_stop [OF r pc] r pc show ?thesis by blast
qed

section \<open>The application as a dependency of the readiness endpoint\<close>

interpretation app: checker App_Ping a_ready
  by unfold_locales (auto simp: App_Ping_def)

text \<open>The app is not ready before \<open>Run\<close> makes it so.\<close>

definition not_yet :: "run \<Rightarrow> bool" where
  "not_yet s \<longleftrightarrow> (case rn_pc s of PStart k \<Rightarrow> True | PReady \<Rightarrow> True | _ \<Rightarrow> False)"

lemma run_not_yet: "run_reaches a s \<Longrightarrow> \<not> a_ready a \<Longrightarrow> not_yet s \<longrightarrow> \<not> a_ready s"
proof -
  assume r: "run_reaches a s" and a: "\<not> a_ready a"
  from r have "same_app a s \<and> (not_yet s \<longrightarrow> \<not> a_ready s)"
  proof (rule run_invariant)
    fix c show "not_yet (run_start a c) \<longrightarrow> \<not> a_ready (run_start a c)"
      using a by (simp add: run_start_def)
  next
    fix s t assume "not_yet s \<longrightarrow> \<not> a_ready s" "run_step s t"
    then show "not_yet t \<longrightarrow> \<not> a_ready t" by (auto simp: run_step_simps not_yet_def)
  next
    fix s t assume "not_yet s \<longrightarrow> \<not> a_ready s" "task_step s t"
    with task_step_keeps [OF this(2)] show "not_yet t \<longrightarrow> \<not> a_ready t" by (simp add: not_yet_def)
  next
    fix s t assume "not_yet s \<longrightarrow> \<not> a_ready s" "outer_step s t"
    with outer_step_keeps [OF this(2)] show "not_yet t \<longrightarrow> \<not> a_ready t" by (simp add: not_yet_def)
  qed
  then show ?thesis ..
qed

lemma ready_at:
  assumes "run_reaches a s" and "\<not> a_ready a"
  shows "a_ready s \<longleftrightarrow> rn_pc s = PSelect \<or> rn_pc s = PUnready"
  using run_phase_ok [OF assms(1)] run_not_yet [OF assms]
  by (cases "rn_pc s") (auto simp: phase_ok_def not_yet_def stopped_def shutting_down_def)

text \<open>
  C20. The health endpoints of an application that checks the \<open>App\<close> first among its dependencies follow the run:
  in every reachable state the readiness endpoint asks the other dependencies exactly while \<open>Run\<close> serves
  (from marking the app ready to marking it unready); otherwise, while goroutines are still being started and
  from before the first server is stopped until the end, it answers 503 with the name of the check; and the
  liveness endpoints answer 200 all the while, a shutdown included.
\<close>

theorem ready_iff_serving:
  assumes "run_reaches a s" and "\<not> a_ready a" and "health_paths_differ cfg"
    and "(''GET'', hc_ReadinessPath (health_defaults cfg), ready)
      \<in> set (health_Register cfg ((name, Some App_Ping) # deps))"
    and "(''GET'', path, live) \<in> set (health_Register cfg ((name, Some App_Ping) # deps))"
    and "path \<in> {hc_LivenessPath (health_defaults cfg), ''/health''}"
  shows "ready s =
      (if rn_pc s = PSelect \<or> rn_pc s = PUnready
       then readiness (hc_ReadinessTimeout (health_defaults cfg)) deps s
       else (NotReady (if name = [] then ''dependency'' else name), s))
    \<and> live s = (HealthOK, s)"
proof -
  have "ready = readiness (hc_ReadinessTimeout (health_defaults cfg)) ((name, Some App_Ping) # deps)"
    using health_routes(1) [OF assms(3)] assms(4) by blast
  moreover have "live = liveness" using health_routes(2) [OF assms(3,6)] assms(5) by blast
  ultimately show ?thesis
    using ready_at [OF assms(1,2)]
    by (simp add: app.unhealthy_gates app.healthy_passes liveness_def del: readiness.simps(3))
qed

definition demo_health :: health_config where
  "demo_health = \<lparr>hc_ReadinessTimeout = 0, hc_LivenessPath = [], hc_ReadinessPath = []\<rparr>"

theorem ready_iff_serving_witness:
  "readiness (2 * second) [(''app'', Some App_Ping)] demo_sending = (Ready, demo_sending)
   \<and> readiness (2 * second) [([], Some App_Ping)] demo_drain = (NotReady ''dependency'', demo_drain)"
proof -
  have a: "\<not> a_ready demo_app" by (simp add: demo_app_def AddCloser_def AddRunner_def AddHTTP_def)
  have d: "health_defaults demo_health
      = \<lparr>hc_ReadinessTimeout = 2 * second, hc_LivenessPath = ''/health-check'', hc_ReadinessPath = ''/ready''\<rparr>"
    by (simp add: health_defaults_def demo_health_def)
  have differ: "health_paths_differ demo_health" by (simp add: health_paths_differ_def d)
  have ready: "(''GET'', hc_ReadinessPath (health_defaults demo_health), readiness (2 * second) deps)
      \<in> set (health_Register demo_health deps)" for deps :: "(string \<times> (int \<Rightarrow> run \<Rightarrow> goerr option \<times> run) option) list"
    by (simp add: health_Register_def d Let_def)
  have live: "(''GET'', ''/health'', liveness) \<in> set (health_Register demo_health deps)"
    for deps :: "(string \<times> (int \<Rightarrow> run \<Rightarrow> goerr option \<times> run) option) list"
    by (simp add: health_Register_def d Let_def)
  show ?thesis
    using ready_iff_serving [OF demo_sending_reached a differ ready live, of "''app''" "[]"]
      ready_iff_serving [OF demo_drain_reached a differ ready live, of "[]" "[]"]
    by (simp add: demo_sending_def demo_drain_def demo_run_def del: readiness.simps(3))
qed

end
