(* ===== verification/Outbox.thy ===== *)
theory Outbox
  imports Go_Errors "HOL-Library.Sublist"
begin

text \<open>
  Module \<open>messaging/outbox\<close>: the relay that claims a batch of stored events, publishes each and
  records the outcome, with its back-off.

  The store, the publisher, the context and the clock act on a world of any type \<open>'w\<close>; they are
  the fields of \<open>relay_env\<close>. What the relay does is returned as a list of \<open>relay_act\<close>, in order,
  with the result of each call: metrics, calls of the store and the publisher, hooks and log entries.
\<close>

section \<open>Back-off\<close>

text \<open>
  The loop of \<open>Backoff\<close> for the \<open>n\<close> iterations that are left. The product is written with the
  wrap-around of \<open>time.Duration\<close>; \<open>max / 2\<close> is rounded towards zero, which is \<open>div\<close> here since the
  loop runs with a positive \<open>max\<close>.
\<close>

fun backoff_loop :: "nat \<Rightarrow> int \<Rightarrow> int \<Rightarrow> int" where
  "backoff_loop 0 delay mx = (if delay > mx then mx else delay)"
| "backoff_loop (Suc n) delay mx =
     (if delay \<ge> mx \<or> delay > mx div 2 then mx else backoff_loop n (wrap64 (delay * 2)) mx)"

definition Backoff :: "int \<Rightarrow> int \<Rightarrow> int \<Rightarrow> int" where
  "Backoff attempt base mx =
     (let attempt = (if attempt < 1 then 1 else attempt);
          base = (if base \<le> 0 then second else base);
          mx = (if mx \<le> 0 then 5 * minute else mx)
      in backoff_loop (nat (attempt - 1)) base mx)"

lemma backoff_loop_closed:
  assumes "0 < delay" and "0 < mx" and "in64 mx"
  shows "backoff_loop n delay mx = min mx (delay * 2 ^ n)"
  using assms(1)
proof (induction n arbitrary: delay)
  case 0
  then show ?case by auto
next
  case (Suc n)
  have grow: "2 * delay \<le> delay * 2 ^ Suc n"
    using Suc.prems by simp
  consider "delay \<ge> mx" | "delay < mx" "delay > mx div 2" | "delay < mx" "delay \<le> mx div 2"
    by linarith
  then show ?case
  proof cases
    case 1
    with grow Suc.prems have "mx \<le> delay * 2 ^ Suc n" by linarith
    with 1 show ?thesis by simp
  next
    case 2
    then have "mx \<le> 2 * delay" by linarith
    with grow have "mx \<le> delay * 2 ^ Suc n" by linarith
    with 2 show ?thesis by simp
  next
    case 3
    then have "delay * 2 \<le> mx" by linarith
    with Suc.prems assms(3) have "wrap64 (delay * 2) = delay * 2"
      by (intro wrap64_id) (auto simp: in64_def)
    with 3 Suc.IH [of "delay * 2"] Suc.prems show ?thesis by (simp add: mult.assoc)
  qed
qed

definition or_default :: "int \<Rightarrow> int \<Rightarrow> int" where
  "or_default d n = (if n \<le> 0 then d else n)"

text \<open>
  C26. For any 64-bit arguments the delay is the base doubled once per earlier attempt, capped at
  the maximum: no intermediate product overflows, whatever the attempt.
\<close>

theorem backoff_closed_form:
  assumes "in64 mx"
  shows "Backoff attempt base mx =
    min (or_default (5 * minute) mx) (or_default second base * 2 ^ nat (attempt - 1))"
proof -
  have "in64 (or_default (5 * minute) mx)"
    using assms by (simp add: or_default_def in64_def duration_defs)
  moreover have "0 < or_default second base" "0 < or_default (5 * minute) mx"
    by (simp_all add: or_default_def duration_defs)
  ultimately show ?thesis
    using backoff_loop_closed by (simp add: Backoff_def or_default_def Let_def)
qed

theorem backoff_closed_form_witness:
  "Backoff 100 second (5 * minute) = 5 * minute \<and> Backoff 4 second (5 * minute) = 8 * second"
  using backoff_closed_form [of "5 * minute" 100 second]
    backoff_closed_form [of "5 * minute" 4 second]
  by (simp add: in64_def duration_defs or_default_def)

text \<open>Consequences: the delay is positive, bounded and does not shrink with the attempts.\<close>

lemma backoff_bounds:
  "in64 mx \<Longrightarrow> 0 < Backoff attempt base mx \<and> Backoff attempt base mx \<le> or_default (5 * minute) mx"
  by (auto simp: backoff_loop_closed Backoff_def Let_def or_default_def in64_def duration_defs)

lemma min_mono_right: "a \<le> b \<Longrightarrow> min m a \<le> min m (b :: int)"
  by (simp add: min_def)

section \<open>The relay\<close>

record event =
  ev_ID :: string
  ev_Exchange :: string
  ev_RoutingKey :: string
  ev_Payload :: string
  ev_Attempts :: int

text \<open>The hooks that are not nil.\<close>

record hooks =
  h_OnPublished :: bool
  h_OnPublishFailed :: bool
  h_OnError :: bool

record relay_config =
  oc_BatchSize :: int
  oc_PollInterval :: int
  oc_LockTimeout :: int
  oc_MaxAttempts :: int
  oc_RecoveryInterval :: int
  oc_BaseBackoff :: int
  oc_MaxBackoff :: int
  oc_PublishTimeout :: int
  oc_LockedBy :: string
  oc_DefaultExchange :: string
  oc_Hooks :: hooks

record 'w relay_env =
  env_ClaimBatch :: "int \<Rightarrow> string \<Rightarrow> 'w \<Rightarrow> (goerr + event list) \<times> 'w"
  env_MarkPublished :: "string \<Rightarrow> 'w \<Rightarrow> goerr option \<times> 'w"
  env_MarkFailed :: "string \<Rightarrow> string \<Rightarrow> int \<Rightarrow> 'w \<Rightarrow> goerr option \<times> 'w"
  env_RecoverStuckLocks :: "int \<Rightarrow> 'w \<Rightarrow> (goerr + int) \<times> 'w"
  env_Publish :: "int \<Rightarrow> string \<Rightarrow> string \<Rightarrow> string \<Rightarrow> 'w \<Rightarrow> goerr option \<times> 'w"
  env_Cancelled :: "'w \<Rightarrow> bool"
  env_Now :: "'w \<Rightarrow> int"

text \<open>
  \<open>relay_new store publisher hostname cfg\<close> is \<open>New\<close>: the first two say whether the store and
  the publisher are there, \<open>hostname\<close> is the result of \<open>os.Hostname\<close> (empty on an error).
\<close>

definition relay_new :: "bool \<Rightarrow> bool \<Rightarrow> string \<Rightarrow> relay_config \<Rightarrow> goerr + relay_config" where
  "relay_new store publisher hostname cfg =
     (if \<not> store then Inl (EText ''outbox: store is required'')
      else if \<not> publisher then Inl (EText ''outbox: publisher is required'')
      else Inr (cfg\<lparr>
        oc_BatchSize := or_default 100 (oc_BatchSize cfg),
        oc_PollInterval := or_default second (oc_PollInterval cfg),
        oc_LockTimeout := or_default minute (oc_LockTimeout cfg),
        oc_RecoveryInterval := or_default (30 * second) (oc_RecoveryInterval cfg),
        oc_BaseBackoff := or_default second (oc_BaseBackoff cfg),
        oc_MaxBackoff := or_default (5 * minute) (oc_MaxBackoff cfg),
        oc_PublishTimeout := or_default (10 * second) (oc_PublishTimeout cfg),
        oc_LockedBy :=
          (if oc_LockedBy cfg = []
           then (if hostname = [] then ''outbox'' else hostname)
           else oc_LockedBy cfg)\<rparr>))"

datatype relay_act =
    ARecord event string bool  \<comment> \<open>\<open>RecordOutboxDispatch\<close>: result, and whether a start time is given\<close>
  | APublish event string "goerr option"
  | AMarkPublished string "goerr option"
  | AMarkFailed string string int "goerr option"
  | AOnPublished event
  | AOnPublishFailed event goerr
  | AOnError string goerr
  | ALogError string goerr "string option"
  | ALogRecovered int

text \<open>\<open>report\<close>: the hook, if there is one, then the log entry (with the event's ID if it has one).\<close>

definition report :: "relay_config \<Rightarrow> string \<Rightarrow> goerr \<Rightarrow> string option \<Rightarrow> relay_act list" where
  "report cfg stage err ev_id =
     (if h_OnError (oc_Hooks cfg) then [AOnError stage err] else []) @ [ALogError stage err ev_id]"

definition publishOne ::
    "'w relay_env \<Rightarrow> relay_config \<Rightarrow> event \<Rightarrow> 'w \<Rightarrow> (goerr option \<times> string) \<times> 'w"
where
  "publishOne env cfg e w =
     (let exchange = (if ev_Exchange e = [] then oc_DefaultExchange cfg else ev_Exchange e)
      in case env_Publish env (oc_PublishTimeout cfg) exchange (ev_RoutingKey e) (ev_Payload e) w of
           (r, w') \<Rightarrow> ((r, exchange), w'))"

text \<open>The message and the delay \<open>fail\<close> stores.\<close>

definition fail_message :: "relay_config \<Rightarrow> event \<Rightarrow> goerr \<Rightarrow> string" where
  "fail_message cfg e pubErr =
     (let attempt = wrap64 (ev_Attempts e + 1);
          msg = take 500 (err_text pubErr)
      in if oc_MaxAttempts cfg > 0 \<and> attempt \<ge> oc_MaxAttempts cfg
         then ''max attempts exceeded: '' @ msg else msg)"

definition fail_delay :: "relay_config \<Rightarrow> event \<Rightarrow> int" where
  "fail_delay cfg e =
     (let attempt = wrap64 (ev_Attempts e + 1)
      in if oc_MaxAttempts cfg > 0 \<and> attempt \<ge> oc_MaxAttempts cfg then oc_MaxBackoff cfg
         else Backoff attempt (oc_BaseBackoff cfg) (oc_MaxBackoff cfg))"

definition relay_fail ::
    "'w relay_env \<Rightarrow> relay_config \<Rightarrow> event \<Rightarrow> goerr \<Rightarrow> 'w \<Rightarrow> relay_act list \<times> 'w"
where
  "relay_fail env cfg e pubErr w =
     (let msg = fail_message cfg e pubErr; at = env_Now env w + fail_delay cfg e
      in case env_MarkFailed env (ev_ID e) msg at w of
           (r, w') \<Rightarrow>
             (AMarkFailed (ev_ID e) msg at r
                # (case r of None \<Rightarrow> [] | Some err \<Rightarrow> report cfg ''mark_failed'' err (Some (ev_ID e))),
              w'))"

text \<open>The body of the loop of \<open>tick\<close> for one event.\<close>

definition relay_event ::
    "'w relay_env \<Rightarrow> relay_config \<Rightarrow> event \<Rightarrow> 'w \<Rightarrow> relay_act list \<times> 'w"
where
  "relay_event env cfg e w =
     (case publishOne env cfg e w of
        ((Some err, ex), w1) \<Rightarrow>
          (case relay_fail env cfg e err w1 of
             (acts, w2) \<Rightarrow>
               ([ARecord e ''claimed'' False, APublish e ex (Some err), ARecord e ''failed'' True]
                  @ (if h_OnPublishFailed (oc_Hooks cfg) then [AOnPublishFailed e err] else [])
                  @ acts, w2))
      | ((None, ex), w1) \<Rightarrow>
          (case env_MarkPublished env (ev_ID e) w1 of
             (Some err, w2) \<Rightarrow>
               ([ARecord e ''claimed'' False, APublish e ex None,
                 AMarkPublished (ev_ID e) (Some err), ARecord e ''failed'' True]
                  @ report cfg ''mark_published'' err (Some (ev_ID e)), w2)
           | (None, w2) \<Rightarrow>
               ([ARecord e ''claimed'' False, APublish e ex None,
                 AMarkPublished (ev_ID e) None, ARecord e ''dispatched'' True]
                  @ (if h_OnPublished (oc_Hooks cfg) then [AOnPublished e] else []), w2)))"

fun relay_events ::
    "'w relay_env \<Rightarrow> relay_config \<Rightarrow> event list \<Rightarrow> 'w \<Rightarrow> relay_act list \<times> 'w"
where
  "relay_events env cfg [] w = ([], w)"
| "relay_events env cfg (e # es) w =
     (if env_Cancelled env w then ([], w)
      else case relay_event env cfg e w of
             (acts, w1) \<Rightarrow>
               (case relay_events env cfg es w1 of (acts', w2) \<Rightarrow> (acts @ acts', w2)))"

definition tick :: "'w relay_env \<Rightarrow> relay_config \<Rightarrow> 'w \<Rightarrow> relay_act list \<times> 'w" where
  "tick env cfg w =
     (case env_ClaimBatch env (oc_BatchSize cfg) (oc_LockedBy cfg) w of
        (Inl err, w1) \<Rightarrow> (report cfg ''claim'' err None, w1)
      | (Inr es, w1) \<Rightarrow> relay_events env cfg es w1)"

definition relay_recover :: "'w relay_env \<Rightarrow> relay_config \<Rightarrow> 'w \<Rightarrow> relay_act list \<times> 'w" where
  "relay_recover env cfg w =
     (case env_RecoverStuckLocks env (oc_LockTimeout cfg) w of
        (Inl err, w1) \<Rightarrow> (report cfg ''recover'' err None, w1)
      | (Inr n, w1) \<Rightarrow> ((if n > 0 then [ALogRecovered n] else []), w1))"

text \<open>
  The \<open>select\<close> loop of \<open>Run\<close>: a list of the cases chosen, with what the rest of the world did
  before each. \<open>Run\<close> has returned (\<open>True\<close>) after \<open>CtxDone\<close>; a run that has not returned is a
  prefix of a longer one.
\<close>

datatype 'w choice = PollTick "'w \<Rightarrow> 'w" | RecoveryTick "'w \<Rightarrow> 'w" | CtxDone

fun relay_loop ::
    "'w relay_env \<Rightarrow> relay_config \<Rightarrow> 'w choice list \<Rightarrow> 'w \<Rightarrow> relay_act list \<times> 'w \<times> bool"
where
  "relay_loop env cfg [] w = ([], w, False)"
| "relay_loop env cfg (CtxDone # cs) w = ([], w, True)"
| "relay_loop env cfg (PollTick f # cs) w =
     (case tick env cfg (f w) of
        (acts, w1) \<Rightarrow> (case relay_loop env cfg cs w1 of (acts', r) \<Rightarrow> (acts @ acts', r)))"
| "relay_loop env cfg (RecoveryTick f # cs) w =
     (case relay_recover env cfg (f w) of
        (acts, w1) \<Rightarrow> (case relay_loop env cfg cs w1 of (acts', r) \<Rightarrow> (acts @ acts', r)))"

definition relay_run ::
    "'w relay_env \<Rightarrow> relay_config \<Rightarrow> 'w choice list \<Rightarrow> 'w \<Rightarrow> relay_act list \<times> 'w \<times> bool"
where
  "relay_run env cfg cs w =
     (case tick env cfg w of
        (acts, w1) \<Rightarrow> (case relay_loop env cfg cs w1 of (acts', r) \<Rightarrow> (acts @ acts', r)))"

section \<open>What the relay promises\<close>

text \<open>The publish calls of a run, with success or failure, and the marks put on events.\<close>

fun act_pub :: "relay_act \<Rightarrow> (string \<times> bool) list" where
  "act_pub (APublish e ex r) = [(ev_ID e, r = None)]"
| "act_pub _ = []"

fun act_mark :: "relay_act \<Rightarrow> (string \<times> bool) list" where
  "act_mark (AMarkPublished i r) = [(i, True)]"
| "act_mark (AMarkFailed i m t r) = [(i, False)]"
| "act_mark _ = []"

definition publishes :: "relay_act list \<Rightarrow> (string \<times> bool) list" where
  "publishes acts = concat (map act_pub acts)"

definition marks :: "relay_act list \<Rightarrow> (string \<times> bool) list" where
  "marks acts = concat (map act_mark acts)"

lemma publishes_simps [simp]:
  "publishes [] = []" "publishes (a # as) = act_pub a @ publishes as"
  "publishes (as @ bs) = publishes as @ publishes bs"
  by (simp_all add: publishes_def)

lemma marks_simps [simp]:
  "marks [] = []" "marks (a # as) = act_mark a @ marks as"
  "marks (as @ bs) = marks as @ marks bs"
  by (simp_all add: marks_def)

lemma report_quiet [simp]:
  "publishes (report cfg st err i) = []" "marks (report cfg st err i) = []"
  by (simp_all add: report_def)

lemma relay_fail_acts:
  "relay_fail env cfg e err w = (acts, w') \<Longrightarrow>
     publishes acts = [] \<and> marks acts = [(ev_ID e, False)]"
  by (auto simp: relay_fail_def Let_def split: prod.splits option.splits)

lemma report_no_publish [simp]: "APublish e ex r \<notin> set (report cfg st err i)"
  by (simp add: report_def)

lemma relay_fail_no_publish:
  "relay_fail env cfg e err w = (acts, w') \<Longrightarrow> APublish e' ex r \<notin> set acts"
  by (auto simp: relay_fail_def Let_def split: prod.splits option.splits)

lemma relay_event_publish:
  assumes "relay_event env cfg e w = (acts, w')" and "APublish e' ex r \<in> set acts"
  shows "e' = e"
proof -
  obtain r1 ex1 w1 where p: "publishOne env cfg e w = ((r1, ex1), w1)"
    by (cases "publishOne env cfg e w") auto
  show ?thesis
  proof (cases r1)
    case (Some err)
    obtain a2 w2 where f: "relay_fail env cfg e err w1 = (a2, w2)"
      by (cases "relay_fail env cfg e err w1")
    from assms p Some f relay_fail_no_publish [OF f] show ?thesis
      by (auto simp: relay_event_def split: if_splits)
  next
    case None
    obtain r2 w2 where "env_MarkPublished env (ev_ID e) w1 = (r2, w2)"
      by (cases "env_MarkPublished env (ev_ID e) w1")
    with assms p None show ?thesis
      by (cases r2) (auto simp: relay_event_def split: if_splits)
  qed
qed

text \<open>One event: one publish, then one mark that says what the publish returned.\<close>

lemma relay_event_acts:
  assumes "relay_event env cfg e w = (acts, w')"
  shows "\<exists>ok. publishes acts = [(ev_ID e, ok)] \<and> marks acts = [(ev_ID e, ok)]"
  using assms
  by (auto simp: relay_event_def split: prod.splits option.splits dest!: relay_fail_acts)

lemma relay_events_acts:
  assumes "relay_events env cfg es w = (acts, w')"
  shows "marks acts = publishes acts
    \<and> (\<exists>n. map fst (publishes acts) = map ev_ID (take n es)
         \<and> (n = length es \<or> env_Cancelled env w'))"
  using assms
proof (induction es arbitrary: w acts)
  case Nil
  then show ?case by simp
next
  case (Cons e es)
  show ?case
  proof (cases "env_Cancelled env w")
    case True
    with Cons.prems show ?thesis by (auto intro: exI [of _ 0])
  next
    case False
    obtain a1 w1 where e1: "relay_event env cfg e w = (a1, w1)" by (cases "relay_event env cfg e w")
    obtain a2 w2 where e2: "relay_events env cfg es w1 = (a2, w2)"
      by (cases "relay_events env cfg es w1")
    from Cons.prems False e1 e2 have acts: "acts = a1 @ a2" and w': "w' = w2" by auto
    from relay_event_acts [OF e1] obtain ok where
      "publishes a1 = [(ev_ID e, ok)]" "marks a1 = [(ev_ID e, ok)]" by blast
    moreover from Cons.IH [OF e2 [folded w']] obtain n where
      "marks a2 = publishes a2" "map fst (publishes a2) = map ev_ID (take n es)"
      "n = length es \<or> env_Cancelled env w'" by blast
    ultimately have "marks acts = publishes acts"
      "map fst (publishes acts) = map ev_ID (take (Suc n) (e # es))"
      "Suc n = length (e # es) \<or> env_Cancelled env w'"
      using acts by auto
    then show ?thesis by blast
  qed
qed

text \<open>The outcome of a claim as the relay sees it.\<close>

definition claimed :: "'w relay_env \<Rightarrow> relay_config \<Rightarrow> 'w \<Rightarrow> event list" where
  "claimed env cfg w =
     (case fst (env_ClaimBatch env (oc_BatchSize cfg) (oc_LockedBy cfg) w) of
        Inl err \<Rightarrow> [] | Inr es \<Rightarrow> es)"

lemma tick_acts:
  assumes "tick env cfg w = (acts, w')"
  shows "marks acts = publishes acts
    \<and> (\<exists>n. map fst (publishes acts) = map ev_ID (take n (claimed env cfg w))
         \<and> (n = length (claimed env cfg w) \<or> env_Cancelled env w'))"
proof (cases "env_ClaimBatch env (oc_BatchSize cfg) (oc_LockedBy cfg) w")
  case (Pair r w1)
  show ?thesis
  proof (cases r)
    case (Inl err)
    with Pair assms show ?thesis by (auto simp: tick_def claimed_def)
  next
    case (Inr es)
    with Pair assms have "relay_events env cfg es w1 = (acts, w')" by (simp add: tick_def)
    from relay_events_acts [OF this] Pair Inr show ?thesis by (simp add: claimed_def)
  qed
qed

text \<open>A store for examples: a queue of events, and a publisher that fails for one routing key.\<close>

definition demo_env :: "event list relay_env" where
  "demo_env =
     \<lparr>env_ClaimBatch = (\<lambda>n by w. (Inr (take (nat n) w), w)),
      env_MarkPublished = (\<lambda>i w. (None, filter (\<lambda>e. ev_ID e \<noteq> i) w)),
      env_MarkFailed = (\<lambda>i m t w. (None, w)),
      env_RecoverStuckLocks = (\<lambda>t w. (Inr 0, w)),
      env_Publish = (\<lambda>t ex rk b w. (if rk = ''bad'' then Some (EText ''nacked'') else None, w)),
      env_Cancelled = (\<lambda>w. False),
      env_Now = (\<lambda>w. 0)\<rparr>"

definition demo_hooks :: hooks where
  "demo_hooks = \<lparr>h_OnPublished = False, h_OnPublishFailed = False, h_OnError = False\<rparr>"

definition demo_config :: relay_config where
  "demo_config =
     \<lparr>oc_BatchSize = 10, oc_PollInterval = 1, oc_LockTimeout = 1, oc_MaxAttempts = 2,
      oc_RecoveryInterval = 1, oc_BaseBackoff = second, oc_MaxBackoff = minute,
      oc_PublishTimeout = 1, oc_LockedBy = ''h'', oc_DefaultExchange = ''dx'',
      oc_Hooks = demo_hooks\<rparr>"

definition demo_event :: "string \<Rightarrow> string \<Rightarrow> event" where
  "demo_event i rk = \<lparr>ev_ID = i, ev_Exchange = [], ev_RoutingKey = rk, ev_Payload = ''{}'', ev_Attempts = 0\<rparr>"

lemmas demo_defs = demo_env_def demo_hooks_def demo_config_def demo_event_def
lemmas relay_defs = tick_def relay_event_def publishOne_def relay_fail_def report_def

text \<open>
  C6. In one tick the events of the claimed batch are published in its order, each at most once, and
  each published event gets exactly one mark, in the same order: published when the publish was
  confirmed, failed when it was not. Only the cancellation of the context cuts the batch short.
\<close>

theorem tick_marks_publishes:
  assumes "tick env cfg w = (acts, w')"
  shows "marks acts = publishes acts
    \<and> (\<exists>n. map fst (publishes acts) = map ev_ID (take n (claimed env cfg w))
         \<and> (n = length (claimed env cfg w) \<or> env_Cancelled env w'))"
  using assms by (rule tick_acts)

theorem tick_marks_publishes_witness:
  "\<exists>acts w'. tick demo_env demo_config [demo_event ''1'' ''ok'', demo_event ''2'' ''bad''] = (acts, w')
     \<and> marks acts = publishes acts \<and> publishes acts = [(''1'', True), (''2'', False)]"
proof -
  let ?w = "[demo_event ''1'' ''ok'', demo_event ''2'' ''bad'']"
  obtain acts w' where t: "tick demo_env demo_config ?w = (acts, w')"
    by (cases "tick demo_env demo_config ?w")
  moreover have "publishes acts = [(''1'', True), (''2'', False)]"
    using t by (auto simp: relay_defs demo_defs Let_def)
  ultimately show ?thesis using tick_marks_publishes [OF t] by blast
qed

definition config_ok :: "relay_config \<Rightarrow> bool" where
  "config_ok cfg \<longleftrightarrow> in64 (oc_MaxBackoff cfg) \<and> 0 < oc_MaxBackoff cfg"

lemma relay_new_MaxBackoff:
  "relay_new st pb hn cfg = Inr cfg' \<Longrightarrow> oc_MaxBackoff cfg' = or_default (5 * minute) (oc_MaxBackoff cfg)"
  by (cases st; cases pb) (auto simp: relay_new_def)

lemma relay_new_ok:
  "relay_new st pb hn cfg = Inr cfg' \<Longrightarrow> in64 (oc_MaxBackoff cfg) \<Longrightarrow> config_ok cfg'"
  by (simp add: config_ok_def relay_new_MaxBackoff) (simp add: or_default_def in64_def duration_defs)

text \<open>
  After a failed publish the stored message is at most 523 bytes and the event becomes
  available again strictly later, by at most \<open>MaxBackoff\<close>: there is no hot retry, also when the
  attempts are exhausted.
\<close>

theorem fail_backs_off:
  assumes "config_ok cfg"
  shows "length (fail_message cfg e err) \<le> 523
    \<and> 0 < fail_delay cfg e \<and> fail_delay cfg e \<le> oc_MaxBackoff cfg"
  using assms backoff_bounds [of "oc_MaxBackoff cfg" "wrap64 (ev_Attempts e + 1)" "oc_BaseBackoff cfg"]
  by (auto simp: fail_message_def fail_delay_def config_ok_def or_default_def Let_def)

theorem fail_backs_off_witness:
  "length (fail_message demo_config (demo_event ''1'' ''bad'') (EText (replicate 600 CHR ''x''))) \<le> 523
   \<and> 0 < fail_delay demo_config (demo_event ''1'' ''bad'')
   \<and> fail_delay demo_config (demo_event ''1'' ''bad'') \<le> minute"
proof -
  have "config_ok demo_config" by (simp add: config_ok_def demo_defs in64_def duration_defs)
  note h = fail_backs_off [OF this]
  have m: "oc_MaxBackoff demo_config = minute" by (simp add: demo_config_def)
  show ?thesis
    using h [of "demo_event ''1'' ''bad''" "EText (replicate 600 CHR ''x'')"]
      h [of "demo_event ''1'' ''bad''" "EText []"]
    unfolding m by blast
qed

text \<open>The whole run keeps the discipline of one tick.\<close>

lemma relay_recover_acts:
  "relay_recover env cfg w = (acts, w') \<Longrightarrow> publishes acts = [] \<and> marks acts = []"
  by (auto simp: relay_recover_def split: prod.splits sum.splits if_splits)

lemma relay_loop_marks:
  "relay_loop env cfg cs w = (acts, w', d) \<Longrightarrow> marks acts = publishes acts"
proof (induction env cfg cs w arbitrary: acts rule: relay_loop.induct)
  case (3 env cfg f cs w)
  obtain a1 w1 where t: "tick env cfg (f w) = (a1, w1)" by (cases "tick env cfg (f w)")
  with "3.prems" obtain a2 where "relay_loop env cfg cs w1 = (a2, w', d)" "acts = a1 @ a2"
    by (auto split: prod.splits)
  with "3.IH" [OF t [symmetric]] tick_acts [OF t] show ?case by simp
next
  case (4 env cfg f cs w)
  obtain a1 w1 where t: "relay_recover env cfg (f w) = (a1, w1)"
    by (cases "relay_recover env cfg (f w)")
  with "4.prems" obtain a2 where "relay_loop env cfg cs w1 = (a2, w', d)" "acts = a1 @ a2"
    by (auto split: prod.splits)
  with "4.IH" [OF t [symmetric]] relay_recover_acts [OF t] show ?case by simp
qed auto

lemma relay_run_returns: "CtxDone \<in> set cs \<Longrightarrow> snd (snd (relay_run env cfg cs w))"
proof -
  have "CtxDone \<in> set cs \<Longrightarrow> snd (snd (relay_loop env cfg cs w))" for w
    by (induction env cfg cs w rule: relay_loop.induct) (auto split: prod.splits)
  then show "CtxDone \<in> set cs \<Longrightarrow> snd (snd (relay_run env cfg cs w))"
    by (auto simp: relay_run_def split: prod.splits) (metis snd_conv)
qed

section \<open>Publishers\<close>

text \<open>A relay over a publisher, with a store whose calls do not touch the broker.\<close>

definition relays_over ::
    "(int \<Rightarrow> string \<Rightarrow> string \<Rightarrow> string \<Rightarrow> 'w \<Rightarrow> goerr option \<times> 'w)
       \<Rightarrow> ('w \<Rightarrow> 'a) \<Rightarrow> 'w relay_env \<Rightarrow> bool"
where
  "relays_over publish acked env \<longleftrightarrow>
     env_Publish env = publish
     \<and> (\<forall>n by w. acked (snd (env_ClaimBatch env n by w)) = acked w)
     \<and> (\<forall>i w. acked (snd (env_MarkPublished env i w)) = acked w)
     \<and> (\<forall>i m t w. acked (snd (env_MarkFailed env i m t w)) = acked w)
     \<and> (\<forall>t w. acked (snd (env_RecoverStuckLocks env t w)) = acked w)"

text \<open>
  The message of an event (exchange, routing key, body), and the messages of the events of a batch whose
  publish was confirmed.
\<close>

definition event_message :: "relay_config \<Rightarrow> event \<Rightarrow> string \<times> string \<times> string" where
  "event_message cfg e =
     (if ev_Exchange e = [] then oc_DefaultExchange cfg else ev_Exchange e, ev_RoutingKey e, ev_Payload e)"

definition confirmed :: "relay_config \<Rightarrow> event list \<Rightarrow> bool list \<Rightarrow> (string \<times> string \<times> string) list" where
  "confirmed cfg es oks = map (\<lambda>p. event_message cfg (fst p)) (filter snd (zip es oks))"

lemma confirmed_simps [simp]:
  "confirmed cfg es [] = []" "confirmed cfg [] oks = []"
  "confirmed cfg (e # es) (ok # oks) = (if ok then [event_message cfg e] else []) @ confirmed cfg es oks"
  by (simp_all add: confirmed_def)

lemma confirmed_member: "(i, True) \<in> set (zip (map ev_ID es) oks)
    \<Longrightarrow> \<exists>e\<in>set es. ev_ID e = i \<and> event_message cfg e \<in> set (confirmed cfg es oks)"
proof (induction es arbitrary: oks)
  case (Cons e es)
  then show ?case by (cases oks) auto
qed simp

text \<open>
  The contract of the \<open>Publisher\<close> interface: a publish that returned nil has had that very message
  acknowledged, once; one that returned an error may have had it acknowledged or not. \<open>acked w\<close> are
  the messages acknowledged so far, in order.
\<close>

locale confirming_publisher =
  fixes publish :: "int \<Rightarrow> string \<Rightarrow> string \<Rightarrow> string \<Rightarrow> 'w \<Rightarrow> goerr option \<times> 'w"
    and acked :: "'w \<Rightarrow> (string \<times> string \<times> string) list"
  assumes publish_acked: "publish t ex rk b w = (None, w') \<Longrightarrow> acked w' = acked w @ [(ex, rk, b)]"
    and publish_failed:
      "publish t ex rk b w = (Some err, w') \<Longrightarrow> acked w' = acked w \<or> acked w' = acked w @ [(ex, rk, b)]"
begin

lemma relay_fail_keeps:
  assumes "relays_over publish acked env" and "relay_fail env cfg e err w = (acts, w')"
  shows "acked w' = acked w"
  using assms unfolding relays_over_def relay_fail_def Let_def
  by (auto split: prod.splits) (metis snd_conv)+

lemma relay_event_delivers:
  assumes env: "relays_over publish acked env" and step: "relay_event env cfg e w = (acts, w')"
  shows "\<exists>ok news. marks acts = [(ev_ID e, ok)] \<and> acked w' = acked w @ news
    \<and> (news = [event_message cfg e] \<or> \<not> ok \<and> news = [])"
proof -
  define ex where "ex = (if ev_Exchange e = [] then oc_DefaultExchange cfg else ev_Exchange e)"
  obtain r w1 where p: "publish (oc_PublishTimeout cfg) ex (ev_RoutingKey e) (ev_Payload e) w = (r, w1)"
    by (cases "publish (oc_PublishTimeout cfg) ex (ev_RoutingKey e) (ev_Payload e) w")
  have msg: "event_message cfg e = (ex, ev_RoutingKey e, ev_Payload e)"
    by (simp add: event_message_def ex_def)
  from env p have one: "publishOne env cfg e w = ((r, ex), w1)"
    by (simp add: publishOne_def relays_over_def ex_def)
  show ?thesis
  proof (cases r)
    case (Some err)
    obtain a2 w2 where f: "relay_fail env cfg e err w1 = (a2, w2)"
      by (cases "relay_fail env cfg e err w1")
    have "marks acts = [(ev_ID e, False)]" "acked w' = acked w1"
      using step one Some f relay_fail_acts [OF f] relay_fail_keeps [OF env f]
      by (auto simp: relay_event_def)
    with publish_failed [OF p [unfolded Some]] msg show ?thesis by auto
  next
    case None
    obtain r2 w2 where m: "env_MarkPublished env (ev_ID e) w1 = (r2, w2)"
      by (cases "env_MarkPublished env (ev_ID e) w1")
    have "acked w2 = acked w1" using env m unfolding relays_over_def by (metis snd_conv)
    moreover have "marks acts = [(ev_ID e, True)]" "w' = w2"
      using step one None m by (cases r2; auto simp: relay_event_def)+
    ultimately show ?thesis using publish_acked [OF p [unfolded None]] msg by auto
  qed
qed

lemma relay_events_deliver:
  assumes env: "relays_over publish acked env" and run: "relay_events env cfg es w = (acts, w')"
  shows "\<exists>oks news. marks acts = zip (map ev_ID es) oks \<and> length oks \<le> length es
    \<and> acked w' = acked w @ news \<and> subseq (confirmed cfg es oks) news
    \<and> subseq news (map (event_message cfg) (take (length oks) es))"
  using run
proof (induction es arbitrary: w acts)
  case Nil
  then show ?case by simp
next
  case (Cons e es)
  show ?case
  proof (cases "env_Cancelled env w")
    case True
    with Cons.prems show ?thesis by (intro exI [of _ "[]"]) simp
  next
    case False
    obtain a1 w1 where e1: "relay_event env cfg e w = (a1, w1)" by (cases "relay_event env cfg e w")
    obtain a2 w2 where e2: "relay_events env cfg es w1 = (a2, w2)"
      by (cases "relay_events env cfg es w1")
    from Cons.prems False e1 e2 have acts: "acts = a1 @ a2" and w': "w' = w2" by auto
    obtain ok n1 where one: "marks a1 = [(ev_ID e, ok)]" "acked w1 = acked w @ n1"
      and n1: "n1 = [event_message cfg e] \<or> \<not> ok \<and> n1 = []"
      using relay_event_delivers [OF env e1] by blast
    obtain oks n2 where "marks a2 = zip (map ev_ID es) oks" "length oks \<le> length es"
      "acked w' = acked w1 @ n2" "subseq (confirmed cfg es oks) n2"
      "subseq n2 (map (event_message cfg) (take (length oks) es))"
      using Cons.IH [OF e2 [folded w']] by blast
    with one n1 show ?thesis unfolding acts
      by (intro exI [of _ "ok # oks"] exI [of _ "n1 @ n2"]) auto
  qed
qed

lemma tick_delivers:
  assumes env: "relays_over publish acked env" and "tick env cfg w = (acts, w')"
  shows "\<exists>oks news. marks acts = zip (map ev_ID (claimed env cfg w)) oks
    \<and> length oks \<le> length (claimed env cfg w)
    \<and> acked w' = acked w @ news \<and> subseq (confirmed cfg (claimed env cfg w) oks) news
    \<and> subseq news (map (event_message cfg) (take (length oks) (claimed env cfg w)))"
proof (cases "env_ClaimBatch env (oc_BatchSize cfg) (oc_LockedBy cfg) w")
  case (Pair r w1)
  have same: "acked w1 = acked w"
    using env Pair unfolding relays_over_def by (metis snd_conv)
  show ?thesis
  proof (cases r)
    case (Inl err)
    with Pair assms(2) same show ?thesis by (auto simp: tick_def claimed_def)
  next
    case (Inr es)
    with Pair assms have "relay_events env cfg es w1 = (acts, w')" by (simp add: tick_def)
    from relay_events_deliver [OF env this] same Pair Inr show ?thesis by (simp add: claimed_def)
  qed
qed

end

end
