(* ===== verification/RabbitMQ.thy ===== *)
theory RabbitMQ
  imports Outbox
begin

text \<open>
  Module \<open>messaging/rabbitmq\<close>: the reconnecting client (\<open>client.go\<close>, \<open>wait.go\<close>).

  The client runs in two goroutines, the reconnect loop and the caller of \<open>Close\<close>, that share
  the fields of \<open>Client\<close>. Each goroutine has a program counter, whose values name the points
  between two accesses to shared state; a step of \<open>client_step\<close> is one such access by one of
  them, or an event outside: the broker drops a connection, the parent context is cancelled.
  Connections are numbered in the order they are dialled; \<open>cl_open\<close> are those that are open.
  \<open>closeOnce\<close> runs the body of \<open>Close\<close> once, so one caller is enough.
\<close>

section \<open>State\<close>

datatype loop_pc =
    LTop                                 \<comment> \<open>\<open>reconnectLoop\<close>: the check at the top\<close>
  | LNotify                              \<comment> \<open>\<open>closeNotifications\<close>\<close>
  | LSelect nat                          \<comment> \<open>the \<open>select\<close>, on the notifications of a connection\<close>
  | LNotified                            \<comment> \<open>a notification was received\<close>
  | LWait                                \<comment> \<open>\<open>waitReconnect\<close> when there is no connection\<close>
  | LTry                                 \<comment> \<open>\<open>tryReconnect\<close>: the loop condition\<close>
  | LDo                                  \<comment> \<open>\<open>doReconnect\<close>: its check\<close>
  | LAdd                                 \<comment> \<open>\<open>reconnects.Add(1)\<close>\<close>
  | LConnect                             \<comment> \<open>\<open>connectAndSetup\<close>: the first check\<close>
  | LDial
  | LDialed nat                          \<comment> \<open>the check after the dial\<close>
  | LSetup nat                           \<comment> \<open>topology\<close>
  | LChecked nat                         \<comment> \<open>the check after the topology\<close>
  | LLock nat                            \<comment> \<open>the section under \<open>c.mu\<close>\<close>
  | LCloseNew nat                        \<comment> \<open>about to close the new connection and fail\<close>
  | LCloseOld "nat option"               \<comment> \<open>about to close the connection it replaced\<close>
  | LErr                                 \<comment> \<open>\<open>tryReconnect\<close>: an attempt failed\<close>
  | LDone                                \<comment> \<open>the goroutine has returned\<close>

datatype close_pc =
    CIdle                                \<comment> \<open>\<open>Close\<close> has not been called\<close>
  | CCancel                              \<comment> \<open>\<open>closing\<close> is set\<close>
  | CTake                                \<comment> \<open>the context is cancelled\<close>
  | CCloseConn "nat option"              \<comment> \<open>\<open>c.conn\<close> was taken\<close>
  | CJoin                                \<comment> \<open>in \<open>wg.Wait\<close>\<close>
  | CTakeLeft
  | CCloseLeft "nat option"              \<comment> \<open>\<open>leftover\<close> was taken\<close>
  | CDone                                \<comment> \<open>\<open>Close\<close> has returned\<close>

record client =
  cl_closing :: bool
  cl_cancelled :: bool                   \<comment> \<open>\<open>c.ctx.Err() != nil\<close>\<close>
  cl_conn :: "nat option"
  cl_open :: "nat set"
  cl_next :: nat
  cl_reconnects :: nat
  cl_loop :: loop_pc
  cl_close :: close_pc

definition isClosing :: "client \<Rightarrow> bool" where
  "isClosing c \<longleftrightarrow> cl_closing c \<or> cl_cancelled c"

text \<open>The client \<open>New\<close> returns: the first \<open>connectAndSetup\<close> succeeded with connection 0.\<close>

definition new_client :: client where
  "new_client =
     \<lparr>cl_closing = False, cl_cancelled = False, cl_conn = Some 0, cl_open = {0}, cl_next = 1,
      cl_reconnects = 0, cl_loop = LTop, cl_close = CIdle\<rparr>"

abbreviation goto :: "loop_pc \<Rightarrow> client \<Rightarrow> client" where
  "goto l c \<equiv> c\<lparr>cl_loop := l\<rparr>"

section \<open>The reconnect loop\<close>

text \<open>
  \<open>loop_step c c'\<close>: the reconnect goroutine moves. Where the code calls the network, the outcome
  is a choice between rules. A \<open>select\<close> with two ready cases may take either.
\<close>

inductive loop_step :: "client \<Rightarrow> client \<Rightarrow> bool" where
  top_return: "cl_loop c = LTop \<Longrightarrow> isClosing c \<Longrightarrow> loop_step c (goto LDone c)"
| top_go: "cl_loop c = LTop \<Longrightarrow> \<not> isClosing c \<Longrightarrow> loop_step c (goto LNotify c)"
| notify_none: "cl_loop c = LNotify \<Longrightarrow> cl_conn c = None \<Longrightarrow> loop_step c (goto LWait c)"
| notify_some: "cl_loop c = LNotify \<Longrightarrow> cl_conn c = Some n \<Longrightarrow> loop_step c (goto (LSelect n) c)"
| select_done: "cl_loop c = LSelect n \<Longrightarrow> cl_cancelled c \<Longrightarrow> loop_step c (goto LDone c)"
| select_closed: "cl_loop c = LSelect n \<Longrightarrow> n \<notin> cl_open c \<Longrightarrow> loop_step c (goto LNotified c)"
| notified_return: "cl_loop c = LNotified \<Longrightarrow> isClosing c \<Longrightarrow> loop_step c (goto LDone c)"
| notified_go: "cl_loop c = LNotified \<Longrightarrow> \<not> isClosing c \<Longrightarrow> loop_step c (goto LTry c)"
| wait_cancelled: "cl_loop c = LWait \<Longrightarrow> cl_cancelled c \<Longrightarrow> loop_step c (goto LDone c)"
| wait_closing: "cl_loop c = LWait \<Longrightarrow> cl_closing c \<Longrightarrow> loop_step c (goto LDone c)"
| wait_elapsed: "cl_loop c = LWait \<Longrightarrow> \<not> cl_closing c \<Longrightarrow> loop_step c (goto LTry c)"
| try_return: "cl_loop c = LTry \<Longrightarrow> isClosing c \<Longrightarrow> loop_step c (goto LTop c)"
| try_go: "cl_loop c = LTry \<Longrightarrow> \<not> isClosing c \<Longrightarrow> loop_step c (goto LDo c)"
| do_closed: "cl_loop c = LDo \<Longrightarrow> isClosing c \<Longrightarrow> loop_step c (goto LErr c)"
| do_go: "cl_loop c = LDo \<Longrightarrow> \<not> isClosing c \<Longrightarrow> loop_step c (goto LAdd c)"
| add_reconnect: "cl_loop c = LAdd \<Longrightarrow>
    loop_step c (c\<lparr>cl_reconnects := Suc (cl_reconnects c), cl_loop := LConnect\<rparr>)"
| connect_closed: "cl_loop c = LConnect \<Longrightarrow> isClosing c \<Longrightarrow> loop_step c (goto LErr c)"
| connect_go: "cl_loop c = LConnect \<Longrightarrow> \<not> isClosing c \<Longrightarrow> loop_step c (goto LDial c)"
| dial_fails: "cl_loop c = LDial \<Longrightarrow> loop_step c (goto LErr c)"
| dial_ok: "cl_loop c = LDial \<Longrightarrow>
    loop_step c (c\<lparr>cl_open := insert (cl_next c) (cl_open c), cl_next := Suc (cl_next c),
                   cl_loop := LDialed (cl_next c)\<rparr>)"
| dialed_closed: "cl_loop c = LDialed n \<Longrightarrow> isClosing c \<Longrightarrow> loop_step c (goto (LCloseNew n) c)"
| dialed_go: "cl_loop c = LDialed n \<Longrightarrow> \<not> isClosing c \<Longrightarrow> loop_step c (goto (LSetup n) c)"
| setup_fails: "cl_loop c = LSetup n \<Longrightarrow> loop_step c (goto (LCloseNew n) c)"
| setup_ok: "cl_loop c = LSetup n \<Longrightarrow> loop_step c (goto (LChecked n) c)"
| checked_closed: "cl_loop c = LChecked n \<Longrightarrow> isClosing c \<Longrightarrow> loop_step c (goto (LCloseNew n) c)"
| checked_go: "cl_loop c = LChecked n \<Longrightarrow> \<not> isClosing c \<Longrightarrow> loop_step c (goto (LLock n) c)"
| lock_closed: "cl_loop c = LLock n \<Longrightarrow> cl_closing c \<Longrightarrow> loop_step c (goto (LCloseNew n) c)"
| lock_swap: "cl_loop c = LLock n \<Longrightarrow> \<not> cl_closing c \<Longrightarrow>
    loop_step c (c\<lparr>cl_conn := Some n, cl_loop := LCloseOld (cl_conn c)\<rparr>)"
| close_new: "cl_loop c = LCloseNew n \<Longrightarrow>
    loop_step c (c\<lparr>cl_open := cl_open c - {n}, cl_loop := LErr\<rparr>)"
| close_old: "cl_loop c = LCloseOld old \<Longrightarrow>
    loop_step c (c\<lparr>cl_open := cl_open c - set_option old, cl_loop := LTop\<rparr>)"
| err_closing: "cl_loop c = LErr \<Longrightarrow> isClosing c \<Longrightarrow> loop_step c (goto LTop c)"
| err_wait: "cl_loop c = LErr \<Longrightarrow> \<not> cl_closing c \<Longrightarrow> loop_step c (goto LTry c)"

section \<open>Close and the outside\<close>

inductive close_step :: "client \<Rightarrow> client \<Rightarrow> bool" where
  close_set: "cl_close c = CIdle \<Longrightarrow> close_step c (c\<lparr>cl_closing := True, cl_close := CCancel\<rparr>)"
| close_cancel: "cl_close c = CCancel \<Longrightarrow> close_step c (c\<lparr>cl_cancelled := True, cl_close := CTake\<rparr>)"
| close_take: "cl_close c = CTake \<Longrightarrow>
    close_step c (c\<lparr>cl_conn := None, cl_close := CCloseConn (cl_conn c)\<rparr>)"
| close_conn: "cl_close c = CCloseConn old \<Longrightarrow>
    close_step c (c\<lparr>cl_open := cl_open c - set_option old, cl_close := CJoin\<rparr>)"
| close_join: "cl_close c = CJoin \<Longrightarrow> cl_loop c = LDone \<Longrightarrow> close_step c (c\<lparr>cl_close := CTakeLeft\<rparr>)"
| close_take_left: "cl_close c = CTakeLeft \<Longrightarrow>
    close_step c (c\<lparr>cl_conn := None, cl_close := CCloseLeft (cl_conn c)\<rparr>)"
| close_left: "cl_close c = CCloseLeft old \<Longrightarrow>
    close_step c (c\<lparr>cl_open := cl_open c - set_option old, cl_close := CDone\<rparr>)"

inductive env_step :: "client \<Rightarrow> client \<Rightarrow> bool" where
  broker_drops: "env_step c (c\<lparr>cl_open := cl_open c - {n}\<rparr>)"
| parent_cancelled: "env_step c (c\<lparr>cl_cancelled := True\<rparr>)"

definition client_step :: "client \<Rightarrow> client \<Rightarrow> bool" where
  "client_step c c' \<longleftrightarrow> loop_step c c' \<or> close_step c c' \<or> env_step c c'"

inductive client_reachable :: "client \<Rightarrow> bool" where
  reach_new: "client_reachable new_client"
| reach_step: "client_reachable c \<Longrightarrow> client_step c c' \<Longrightarrow> client_reachable c'"

section \<open>Invariant\<close>

text \<open>The open connections a goroutine holds in a local variable.\<close>

fun loop_holds :: "loop_pc \<Rightarrow> nat set" where
  "loop_holds (LDialed n) = {n}"
| "loop_holds (LSetup n) = {n}"
| "loop_holds (LChecked n) = {n}"
| "loop_holds (LLock n) = {n}"
| "loop_holds (LCloseNew n) = {n}"
| "loop_holds (LCloseOld old) = set_option old"
| "loop_holds _ = {}"

fun close_holds :: "close_pc \<Rightarrow> nat set" where
  "close_holds (CCloseConn old) = set_option old"
| "close_holds (CCloseLeft old) = set_option old"
| "close_holds _ = {}"

text \<open>The points of \<open>Close\<close> after \<open>cancel()\<close>, after the first sweep, and after \<open>wg.Wait\<close>.\<close>

definition swept :: "close_pc \<Rightarrow> bool" where
  "swept p \<longleftrightarrow> (case p of CIdle \<Rightarrow> False | CCancel \<Rightarrow> False | CTake \<Rightarrow> False | _ \<Rightarrow> True)"

definition joined :: "close_pc \<Rightarrow> bool" where
  "joined p \<longleftrightarrow> (case p of CTakeLeft \<Rightarrow> True | CCloseLeft _ \<Rightarrow> True | CDone \<Rightarrow> True | _ \<Rightarrow> False)"

definition client_inv :: "client \<Rightarrow> bool" where
  "client_inv c \<longleftrightarrow>
     (cl_closing c \<longleftrightarrow> cl_close c \<noteq> CIdle)
     \<and> (cl_close c \<notin> {CIdle, CCancel} \<longrightarrow> cl_cancelled c)
     \<and> (swept (cl_close c) \<longrightarrow> cl_conn c = None)
     \<and> (joined (cl_close c) \<longrightarrow> cl_loop c = LDone \<and> close_holds (cl_close c) = {})
     \<and> cl_open c \<subseteq> set_option (cl_conn c) \<union> loop_holds (cl_loop c) \<union> close_holds (cl_close c)"

lemma pc_flags [simp]:
  "\<not> swept CIdle" "\<not> swept CCancel" "\<not> swept CTake" "swept (CCloseConn x)" "swept CJoin"
  "swept CTakeLeft" "swept (CCloseLeft x)" "swept CDone"
  "\<not> joined CIdle" "\<not> joined CCancel" "\<not> joined CTake" "\<not> joined (CCloseConn x)"
  "\<not> joined CJoin" "joined CTakeLeft" "joined (CCloseLeft x)" "joined CDone"
  by (simp_all add: swept_def joined_def)

lemma client_inv_new: "client_inv new_client"
  by (simp add: client_inv_def new_client_def)

lemma loop_step_inv: "loop_step c c' \<Longrightarrow> client_inv c \<Longrightarrow> client_inv c'"
  by (induction rule: loop_step.induct) (auto simp: client_inv_def)

lemma close_step_inv: "close_step c c' \<Longrightarrow> client_inv c \<Longrightarrow> client_inv c'"
  by (induction rule: close_step.induct) (auto simp: client_inv_def)

lemma env_step_inv: "env_step c c' \<Longrightarrow> client_inv c \<Longrightarrow> client_inv c'"
  by (induction rule: env_step.induct) (auto simp: client_inv_def)

lemma client_step_inv: "client_step c c' \<Longrightarrow> client_inv c \<Longrightarrow> client_inv c'"
  unfolding client_step_def by (blast intro: loop_step_inv close_step_inv env_step_inv)

lemma reachable_inv: "client_reachable c \<Longrightarrow> client_inv c"
  by (induction rule: client_reachable.induct) (auto intro: client_inv_new client_step_inv)

text \<open>
  C2. When \<open>Close\<close> has returned, no connection the client dialled is open, however its steps
  interleaved with a reconnect, the broker and the parent context; the client holds no connection
  and its goroutine has ended.
\<close>

theorem close_leaks_nothing:
  assumes "client_reachable c" and "cl_close c = CDone"
  shows "cl_open c = {} \<and> cl_conn c = None \<and> cl_loop c = LDone"
  using reachable_inv [OF assms(1)] assms(2) by (auto simp: client_inv_def)

text \<open>A run for examples: the broker drops connection 0, a reconnect dials, \<open>Close\<close> comes in between.\<close>

fun client_run :: "client list \<Rightarrow> bool" where
  "client_run [] = True"
| "client_run [c] = True"
| "client_run (c # d # cs) = (client_step c d \<and> client_run (d # cs))"

lemma run_reachable: "client_run (c # cs) \<Longrightarrow> client_reachable c \<Longrightarrow> client_reachable (last (c # cs))"
proof (induction cs arbitrary: c)
  case (Cons d cs)
  then have "client_reachable d" "client_run (d # cs)" by (auto intro: reach_step)
  from Cons.IH [OF this(2,1)] show ?case by simp
qed simp

definition close_mid_dial :: "client list" where
  "close_mid_dial =
     (let c = \<lparr>cl_closing = False, cl_cancelled = False, cl_conn = Some 0, cl_open = {},
               cl_next = 1, cl_reconnects = 1, cl_loop = LDial, cl_close = CIdle\<rparr>;
          d = c\<lparr>cl_open := {1}, cl_next := 2, cl_loop := LDialed 1\<rparr>;
          e = d\<lparr>cl_closing := True, cl_close := CCancel\<rparr>;
          f = e\<lparr>cl_cancelled := True, cl_close := CTake\<rparr>;
          g = f\<lparr>cl_conn := None, cl_close := CCloseConn (Some 0)\<rparr>;
          h = g\<lparr>cl_close := CJoin\<rparr>;
          i = h\<lparr>cl_loop := LCloseNew 1\<rparr>;
          j = i\<lparr>cl_open := {}, cl_loop := LErr\<rparr>;
          k = j\<lparr>cl_loop := LTop\<rparr>;
          l = k\<lparr>cl_loop := LDone\<rparr>;
          m = l\<lparr>cl_close := CTakeLeft\<rparr>;
          n = m\<lparr>cl_close := CCloseLeft None\<rparr>
      in [goto LTop (c\<lparr>cl_open := {0}, cl_reconnects := 0\<rparr>),
          goto LNotify (c\<lparr>cl_open := {0}, cl_reconnects := 0\<rparr>),
          goto (LSelect 0) (c\<lparr>cl_open := {0}, cl_reconnects := 0\<rparr>),
          goto (LSelect 0) (c\<lparr>cl_reconnects := 0\<rparr>), goto LNotified (c\<lparr>cl_reconnects := 0\<rparr>),
          goto LTry (c\<lparr>cl_reconnects := 0\<rparr>), goto LDo (c\<lparr>cl_reconnects := 0\<rparr>),
          goto LAdd (c\<lparr>cl_reconnects := 0\<rparr>), goto LConnect c, c, d, e, f, g, h, i, j, k, l, m, n,
          n\<lparr>cl_close := CDone\<rparr>])"

inductive_simps loop_step_simps: "loop_step c c'"
inductive_simps close_step_simps: "close_step c c'"
inductive_simps env_step_simps: "env_step c c'"

lemmas step_simps = client_step_def loop_step_simps close_step_simps env_step_simps

lemma close_mid_dial_run: "client_run close_mid_dial"
  by (simp add: close_mid_dial_def step_simps isClosing_def)

lemma close_mid_dial_reachable: "client_reachable (last close_mid_dial)"
proof -
  obtain cs where cs: "close_mid_dial = new_client # cs"
    by (simp add: close_mid_dial_def new_client_def)
  from run_reachable [of new_client cs] close_mid_dial_run reach_new show ?thesis
    unfolding cs by simp
qed

theorem close_leaks_nothing_witness:
  "cl_reconnects (last close_mid_dial) = 1 \<and> cl_open (last close_mid_dial) = {}
   \<and> cl_conn (last close_mid_dial) = None \<and> cl_loop (last close_mid_dial) = LDone"
proof -
  have "cl_close (last close_mid_dial) = CDone" "cl_reconnects (last close_mid_dial) = 1"
    by (simp_all add: close_mid_dial_def)
  with close_leaks_nothing [OF close_mid_dial_reachable] show ?thesis by simp
qed

section \<open>Close stops the loop\<close>

text \<open>
  \<open>client_path n c c'\<close>: the client gets from \<open>c\<close> to \<open>c'\<close>, with \<open>n\<close> steps of the reconnect loop
  among its steps.
\<close>

inductive client_path :: "nat \<Rightarrow> client \<Rightarrow> client \<Rightarrow> bool" where
  path_refl: "client_path 0 c c"
| path_loop: "client_path n c d \<Longrightarrow> loop_step d e \<Longrightarrow> client_path (Suc n) c e"
| path_other: "client_path n c d \<Longrightarrow> close_step d e \<or> env_step d e \<Longrightarrow> client_path n c e"

lemma closing_stable:
  "loop_step c d \<Longrightarrow> cl_closing d = cl_closing c \<and> cl_cancelled d = cl_cancelled c"
  "close_step c d \<Longrightarrow> cl_loop d = cl_loop c \<and> cl_reconnects d = cl_reconnects c
     \<and> (cl_closing c \<longrightarrow> cl_closing d) \<and> (cl_cancelled c \<longrightarrow> cl_cancelled d)"
  "env_step c d \<Longrightarrow> cl_loop d = cl_loop c \<and> cl_reconnects d = cl_reconnects c
     \<and> cl_closing d = cl_closing c \<and> (cl_cancelled c \<longrightarrow> cl_cancelled d)"
  by (auto simp: loop_step_simps close_step_simps env_step_simps)

text \<open>How many steps the loop can still take once the client is closing and cancelled.\<close>

fun loop_rank :: "loop_pc \<Rightarrow> nat" where
  "loop_rank LDone = 0"
| "loop_rank LTop = 1"
| "loop_rank LTry = 2"
| "loop_rank LErr = 2"
| "loop_rank (LCloseOld old) = 2"
| "loop_rank LNotified = 1"
| "loop_rank LWait = 1"
| "loop_rank (LSelect n) = 2"
| "loop_rank LNotify = 3"
| "loop_rank (LCloseNew n) = 3"
| "loop_rank (LLock n) = 4"
| "loop_rank (LChecked n) = 4"
| "loop_rank (LSetup n) = 5"
| "loop_rank (LDialed n) = 4"
| "loop_rank LDial = 5"
| "loop_rank LConnect = 3"
| "loop_rank LAdd = 4"
| "loop_rank LDo = 3"

lemma loop_step_rank:
  "loop_step c d \<Longrightarrow> cl_closing c \<Longrightarrow> cl_cancelled c \<Longrightarrow> loop_rank (cl_loop d) < loop_rank (cl_loop c)"
  by (induction rule: loop_step.induct) (auto simp: isClosing_def)

lemma loop_never_stuck:
  assumes "cl_closing c" and "cl_cancelled c" and "cl_loop c \<noteq> LDone"
  shows "\<exists>d. loop_step c d"
proof -
  have c: "isClosing c" using assms by (simp add: isClosing_def)
  show ?thesis
  proof (cases "cl_loop c")
    case LNotify
    then show ?thesis by (cases "cl_conn c") (blast intro: loop_step.intros)+
  qed (use c assms in \<open>blast intro: loop_step.intros\<close>)+
qed

lemma client_path_rank:
  assumes "client_path n c d" and "cl_closing c" and "cl_cancelled c"
  shows "cl_closing d \<and> cl_cancelled d \<and> n + loop_rank (cl_loop d) \<le> loop_rank (cl_loop c)"
  using assms
proof (induction rule: client_path.induct)
  case (path_loop n c d e)
  then show ?case using loop_step_rank [of d e] closing_stable(1) [of d e] by fastforce
next
  case (path_other n c d e)
  then show ?case using closing_stable(2) [of d e] closing_stable(3) [of d e] by auto
qed simp

text \<open>
  C22. \<open>Close\<close> cannot hang in \<open>wg.Wait\<close>: once it has set the flag and cancelled the context, the
  reconnect goroutine takes at most five more steps in any interleaving, and until it has
  returned it always has a step to take (the calls of the network and of the topology function
  are single steps: they are taken to return).
\<close>

theorem close_join_terminates:
  assumes "client_path n c d" and "cl_closing c" and "cl_cancelled c"
  shows "n \<le> 5 \<and> (cl_loop d = LDone \<or> (\<exists>e. loop_step d e))"
proof -
  have "loop_rank p \<le> 5" for p by (cases p) simp_all
  moreover from client_path_rank [OF assms] have
    "cl_closing d" "cl_cancelled d" "n + loop_rank (cl_loop d) \<le> loop_rank (cl_loop c)" by simp_all
  ultimately show ?thesis
    using loop_never_stuck [of d] by (meson add_leD1 le_trans)
qed

definition closing_client :: "loop_pc \<Rightarrow> client" where
  "closing_client l =
     new_client\<lparr>cl_closing := True, cl_cancelled := True, cl_conn := None, cl_open := {},
                cl_loop := l, cl_close := CJoin\<rparr>"

lemma closing_path: "client_path 2 (closing_client LNotify) (closing_client LDone)"
proof -
  have "loop_step (closing_client LNotify) (closing_client LWait)"
    "loop_step (closing_client LWait) (closing_client LDone)"
    by (simp_all add: loop_step_simps closing_client_def new_client_def)
  with path_refl show ?thesis by (metis numeral_2_eq_2 path_loop)
qed

theorem close_join_terminates_witness:
  "(2 :: nat) \<le> 5 \<and> (cl_loop (closing_client LDone) = LDone
     \<or> (\<exists>e. loop_step (closing_client LDone) e))"
  using close_join_terminates [OF closing_path] by (simp add: closing_client_def)

text \<open>
  Closing starts no reconnect: after \<open>closing\<close> is set the number of attempts grows only if the
  loop had already passed its check and was about to count one, and then by one.
\<close>

theorem no_reconnect_after_close:
  assumes "client_path n c d" and "cl_closing c"
  shows "cl_reconnects d \<le> cl_reconnects c + (if cl_loop c = LAdd then 1 else 0)"
proof -
  have "cl_closing d \<and> cl_reconnects d + (if cl_loop d = LAdd then 1 else 0)
      \<le> cl_reconnects c + (if cl_loop c = LAdd then 1 else 0)"
    using assms
  proof (induction rule: client_path.induct)
    case (path_loop n c d e)
    then show ?case by (auto simp: loop_step_simps isClosing_def split: if_splits)
  next
    case (path_other n c d e)
    then show ?case using closing_stable(2) [of d e] closing_stable(3) [of d e] by auto
  qed simp
  then show ?thesis by simp
qed

theorem no_reconnect_after_close_witness:
  "cl_reconnects (closing_client LDone) \<le> cl_reconnects (closing_client LNotify) + 0"
  using no_reconnect_after_close [OF closing_path] by (simp add: closing_client_def)

section \<open>Operations of the client\<close>

record rabbit_config =
  rc_URL :: string
  rc_ContentType :: string
  rc_ConfirmTimeout :: int
  rc_ReconnectDelay :: int
  rc_DialTimeout :: int

text \<open>
  \<open>New\<close>: the configuration with its defaults, and a client unless the first connect fails.
  \<open>dial\<close>, \<open>channel\<close> and \<open>topology\<close> are the errors of these calls; \<open>topology\<close> is \<open>None\<close> when no setup
  function is given.
\<close>

definition defaultConfirmTimeout :: int where
  "defaultConfirmTimeout = 5 * second"

definition defaultReconnectDelay :: int where
  "defaultReconnectDelay = 5 * second"

definition rabbit_defaults :: "rabbit_config \<Rightarrow> rabbit_config" where
  "rabbit_defaults cfg = cfg\<lparr>
     rc_ContentType := (if rc_ContentType cfg = [] then ''application/json'' else rc_ContentType cfg),
     rc_ConfirmTimeout := or_default defaultConfirmTimeout (rc_ConfirmTimeout cfg),
     rc_ReconnectDelay := or_default defaultReconnectDelay (rc_ReconnectDelay cfg),
     rc_DialTimeout := or_default (5 * second) (rc_DialTimeout cfg)\<rparr>"

definition ErrClosed :: goerr where
  "ErrClosed = EText ''rabbitmq: client closed''"

text \<open>
  The error of \<open>connectAndSetup\<close>. \<open>closing i\<close> is what its check number \<open>i\<close> of the closing flags
  sees: at entry, after the dial, after the topology, and under the lock.
\<close>

definition connect_error ::
    "(nat \<Rightarrow> bool) \<Rightarrow> goerr option \<Rightarrow> (goerr option \<times> goerr option) option \<Rightarrow> goerr option"
where
  "connect_error closing dial topology =
     (let swap = (if closing 2 then Some ErrClosed
                  else if closing 3 then Some ErrClosed else None)
      in if closing 0 then Some ErrClosed
         else case dial of
                Some e \<Rightarrow> Some (EWrap ''rabbitmq dial: '' e)
              | None \<Rightarrow>
                  if closing 1 then Some ErrClosed
                  else (case topology of
                          None \<Rightarrow> swap
                        | Some (Some e, _) \<Rightarrow> Some (EWrap ''rabbitmq topology channel: '' e)
                        | Some (None, Some e) \<Rightarrow> Some (EWrap ''rabbitmq topology: '' e)
                        | Some (None, None) \<Rightarrow> swap))"

definition rabbit_new ::
    "rabbit_config \<Rightarrow> (nat \<Rightarrow> bool) \<Rightarrow> goerr option \<Rightarrow> (goerr option \<times> goerr option) option
       \<Rightarrow> goerr + (rabbit_config \<times> client)"
where
  "rabbit_new cfg closing dial topology =
     (if rc_URL cfg = [] then Inl (EText ''rabbitmq: URL is required'')
      else case connect_error closing dial topology of
             Some e \<Rightarrow> Inl e
           | None \<Rightarrow> Inr (rabbit_defaults cfg, new_client))"

text \<open>
  A connect succeeds exactly when every call it makes does and no check sees the client closing.
\<close>

lemma connect_error_None:
  "connect_error closing dial topology = None \<longleftrightarrow>
     (\<forall>i<4. \<not> closing i) \<and> dial = None
     \<and> (case topology of None \<Rightarrow> True | Some (ch, setup) \<Rightarrow> ch = None \<and> setup = None)"
proof -
  have "(\<forall>i<4. \<not> closing i) \<longleftrightarrow> \<not> closing 0 \<and> \<not> closing 1 \<and> \<not> closing 2 \<and> \<not> closing (3::nat)"
    by (auto simp: numeral_eq_Suc less_Suc_eq)
  then show ?thesis
    by (auto simp: connect_error_def Let_def split: option.splits)
qed

text \<open>
  \<open>Wait\<close>: \<open>now\<close> is \<open>ctx.Err()\<close> at the call, \<open>first\<close> what the \<open>select\<close> saw first, the error of the
  context or, as \<open>None\<close>, the timer. A nil context never has an error.
\<close>

definition Wait :: "goerr option \<Rightarrow> goerr option \<Rightarrow> int \<Rightarrow> goerr option" where
  "Wait now first d = (if d \<le> 0 then now else first)"

text \<open>\<open>Channel\<close>; \<open>opened\<close> is the error of \<open>conn.Channel()\<close>.\<close>

definition currentConnection :: "client \<Rightarrow> nat option" where
  [simp]: "currentConnection c = cl_conn c"

definition Channel :: "client \<Rightarrow> goerr option \<Rightarrow> goerr option" where
  "Channel c opened =
     (if isClosing c then Some ErrClosed
      else case currentConnection c of
             None \<Rightarrow> Some (EText ''rabbitmq not connected'')
           | Some n \<Rightarrow>
               if n \<notin> cl_open c then Some (EText ''rabbitmq not connected'') else opened)"

definition SetupTopology :: "client \<Rightarrow> goerr option \<Rightarrow> goerr option option \<Rightarrow> goerr option" where
  "SetupTopology c opened setup =
     (case setup of
        None \<Rightarrow> None
      | Some r \<Rightarrow> (case Channel c opened of Some e \<Rightarrow> Some e | None \<Rightarrow> r))"

definition rabbit_Ping :: "goerr option \<Rightarrow> client \<Rightarrow> goerr option \<Rightarrow> goerr option \<Rightarrow> goerr option" where
  "rabbit_Ping ctx_err c opened closed =
     (case ctx_err of
        Some e \<Rightarrow> Some e
      | None \<Rightarrow> (case Channel c opened of Some e \<Rightarrow> Some e | None \<Rightarrow> closed))"

section \<open>Publishing with confirms\<close>

text \<open>
  What the broker answers to one publish. The flag of the first two says whether the broker has
  taken the message although the client did not see the confirmation.
\<close>

datatype broker_reply =
    ReplyTimeout goerr bool
  | ReplyClosed bool
  | ReplyConfirm bool

fun broker_took :: "broker_reply \<Rightarrow> bool" where
  "broker_took (ReplyTimeout e b) = b"
| "broker_took (ReplyClosed b) = b"
| "broker_took (ReplyConfirm ack) = ack"

record attempt =
  at_channel :: "goerr option"
  at_confirm :: "goerr option"
  at_publish :: "goerr option"
  at_reply :: broker_reply

text \<open>
  \<open>pubErr\<close> of \<open>PublishWithConfirmHeaders\<close>. It is the named result, so each \<open>return\<close> assigns it
  before the deferred function reads it.
\<close>

definition publish_error :: "client \<Rightarrow> attempt \<Rightarrow> goerr option" where
  "publish_error c a =
     (case Channel c (at_channel a) of
        Some e \<Rightarrow> Some e
      | None \<Rightarrow>
          (case at_confirm a of
             Some e \<Rightarrow> Some (EWrap ''rabbitmq confirm mode: '' e)
           | None \<Rightarrow>
               (case at_publish a of
                  Some e \<Rightarrow> Some (EWrap ''rabbitmq publish: '' e)
                | None \<Rightarrow>
                    (case at_reply a of
                       ReplyTimeout e b \<Rightarrow> Some e
                     | ReplyClosed b \<Rightarrow> Some (EText ''rabbitmq confirm channel closed'')
                     | ReplyConfirm ack \<Rightarrow>
                         if ack then None else Some (EText ''rabbitmq publish nacked'')))))"

definition reaches_broker :: "client \<Rightarrow> attempt \<Rightarrow> bool" where
  "reaches_broker c a \<longleftrightarrow>
     Channel c (at_channel a) = None \<and> at_confirm a = None \<and> at_publish a = None"

text \<open>
  The world of a publisher: the client, what will happen to the attempts to come, the messages the
  broker has taken, and the metrics recorded (routing key, exchange, result).
\<close>

record broker_world =
  bw_client :: client
  bw_attempts :: "nat \<Rightarrow> attempt"
  bw_count :: nat
  bw_acked :: "(string \<times> string \<times> string) list"
  bw_metrics :: "(string \<times> string \<times> string) list"

definition PublishWithConfirm ::
    "int \<Rightarrow> string \<Rightarrow> string \<Rightarrow> string \<Rightarrow> broker_world \<Rightarrow> goerr option \<times> broker_world"
where
  "PublishWithConfirm t exchange routingKey body w =
     (let a = bw_attempts w (bw_count w);
          pubErr = publish_error (bw_client w) a;
          took = reaches_broker (bw_client w) a \<and> broker_took (at_reply a);
          result = (if pubErr = None then ''success'' else ''error'')
      in (pubErr,
          w\<lparr>bw_count := Suc (bw_count w),
            bw_acked := bw_acked w @ (if took then [(exchange, routingKey, body)] else []),
            bw_metrics := bw_metrics w @ [(routingKey, exchange, result)]\<rparr>))"

lemma publish_error_None:
  "publish_error c a = None \<longleftrightarrow> reaches_broker c a \<and> at_reply a = ReplyConfirm True"
  by (auto simp: publish_error_def reaches_broker_def split: option.splits broker_reply.splits if_splits)

interpretation rabbit: confirming_publisher PublishWithConfirm bw_acked
  by unfold_locales (auto simp: PublishWithConfirm_def Let_def publish_error_None split: if_splits)

text \<open>
  C3. A relay over this client marks an event as published only if the broker has acknowledged that event's
  own message. In one tick the marks go to the first events of the claimed batch, in its order
  (\<open>oks\<close> says which are marked as published, the others are marked as failed); the messages of those marked
  as published have each been acknowledged during the tick, in that order; and besides, nothing has been
  acknowledged but messages of the marked events, at most one for each.
\<close>

theorem relay_marks_only_acked:
  assumes "relays_over PublishWithConfirm bw_acked env" and "tick env cfg w = (acts, w')"
  shows "\<exists>oks news. marks acts = zip (map ev_ID (claimed env cfg w)) oks
    \<and> length oks \<le> length (claimed env cfg w)
    \<and> bw_acked w' = bw_acked w @ news
    \<and> subseq (confirmed cfg (claimed env cfg w) oks) news
    \<and> subseq news (map (event_message cfg) (take (length oks) (claimed env cfg w)))"
  using assms by (rule rabbit.tick_delivers)

definition demo_broker :: broker_world where
  "demo_broker =
     \<lparr>bw_client = new_client,
      bw_attempts = (\<lambda>n. \<lparr>at_channel = None, at_confirm = None, at_publish = None,
                          at_reply = ReplyConfirm (n = 0)\<rparr>),
      bw_count = 0, bw_acked = [], bw_metrics = []\<rparr>"

definition demo_rabbit_env :: "broker_world relay_env" where
  "demo_rabbit_env =
     \<lparr>env_ClaimBatch = (\<lambda>n by w. (Inr [demo_event ''1'' ''a'', demo_event ''2'' ''b''], w)),
      env_MarkPublished = (\<lambda>i w. (None, w)), env_MarkFailed = (\<lambda>i m t w. (None, w)),
      env_RecoverStuckLocks = (\<lambda>t w. (Inr 0, w)), env_Publish = PublishWithConfirm,
      env_Cancelled = (\<lambda>w. False), env_Now = (\<lambda>w. 0)\<rparr>"

text \<open>The second of two messages is refused by the broker.\<close>

theorem relay_marks_only_acked_witness:
  "\<exists>acts w'. tick demo_rabbit_env demo_config demo_broker = (acts, w')
     \<and> marks acts = [(''1'', True), (''2'', False)]
     \<and> (''dx'', ''a'', ''{}'') \<in> set (bw_acked w')"
proof -
  have env: "relays_over PublishWithConfirm bw_acked demo_rabbit_env"
    by (simp add: relays_over_def demo_rabbit_env_def)
  obtain acts w' where t: "tick demo_rabbit_env demo_config demo_broker = (acts, w')"
    by (cases "tick demo_rabbit_env demo_config demo_broker")
  then have m: "marks acts = [(''1'', True), (''2'', False)]"
    by (auto simp: relay_defs demo_rabbit_env_def demo_broker_def demo_config_def demo_hooks_def
        demo_event_def PublishWithConfirm_def publish_error_def reaches_broker_def Channel_def
        new_client_def isClosing_def Let_def)
  have c: "claimed demo_rabbit_env demo_config demo_broker = [demo_event ''1'' ''a'', demo_event ''2'' ''b'']"
    by (simp add: claimed_def demo_rabbit_env_def)
  from relay_marks_only_acked [OF env t] obtain oks news where
    "[(''1'', True), (''2'', False)] = zip [''1'', ''2''] oks" "length oks \<le> 2"
    "bw_acked w' = bw_acked demo_broker @ news"
    and sub: "subseq (confirmed demo_config [demo_event ''1'' ''a'', demo_event ''2'' ''b''] oks) news"
    unfolding m c by (auto simp: demo_event_def)
  moreover from this have "oks = [True, False]" by (cases oks; cases "tl oks") auto
  ultimately show ?thesis
    using t m by (auto simp: event_message_def demo_event_def demo_config_def subseq_singleton_left)
qed

text \<open>The metric of a publish says success exactly when nil was returned.\<close>

lemma publish_metric:
  "PublishWithConfirm t ex rk b w = (r, w') \<Longrightarrow>
     bw_metrics w' = bw_metrics w @ [(rk, ex, if r = None then ''success'' else ''error'')]"
  by (auto simp: PublishWithConfirm_def Let_def)

end
