(* ===== verification/Delivery.thy ===== *)
theory Delivery
  imports RabbitMQ
begin

text \<open>
  The outbox as a whole: the relay of \<open>messaging/outbox/outbox.go\<close> refines an abstract specification of
  delivery, in which an event leaves the store only after it has been sent; with the RabbitMQ client
  under it, no event is lost.
\<close>

section \<open>The specification\<close>

text \<open>
  The events that are not marked as published, and those sent so far, by their IDs. Events are
  submitted, sent (any number of times) and, once sent, settled.
\<close>

inductive delivery_step :: "string set \<times> string set \<Rightarrow> string set \<times> string set \<Rightarrow> bool" where
  submit: "delivery_step (P, S) (P \<union> X, S)"
| send: "delivery_step (P, S) (P, insert i S)"
| settle: "i \<in> S \<Longrightarrow> delivery_step (P, S) (P - {i}, S)"

abbreviation delivers :: "string set \<times> string set \<Rightarrow> string set \<times> string set \<Rightarrow> bool" where
  "delivers \<equiv> delivery_step\<^sup>*\<^sup>*"

text \<open>Nothing is lost: what was to be delivered still is, or has been sent.\<close>

lemma delivery_keeps: "delivers x y \<Longrightarrow> fst x \<subseteq> fst y \<union> snd y \<and> snd x \<subseteq> snd y"
proof (induction rule: rtranclp_induct)
  case (step y z)
  from step.hyps(2) step.IH show ?case by (cases rule: delivery_step.cases) auto
qed simp

section \<open>The relay refines it\<close>

text \<open>
  What the relay relies on of its \<open>Store\<close>: only \<open>MarkPublished\<close> takes an event out of the unpublished
  ones, only the one it is given, and it has done so if it returns nil.
\<close>

definition store_laws :: "('w \<Rightarrow> string set) \<Rightarrow> 'w relay_env \<Rightarrow> bool" where
  "store_laws pend env \<longleftrightarrow>
     (\<forall>n by w. pend (snd (env_ClaimBatch env n by w)) = pend w)
     \<and> (\<forall>i w. pend (snd (env_MarkPublished env i w)) \<in> {pend w, pend w - {i}}
          \<and> (fst (env_MarkPublished env i w) = None \<longrightarrow> i \<notin> pend (snd (env_MarkPublished env i w))))
     \<and> (\<forall>i m t w. pend (snd (env_MarkFailed env i m t w)) = pend w)
     \<and> (\<forall>t w. pend (snd (env_RecoverStuckLocks env t w)) = pend w)
     \<and> (\<forall>t ex rk b w. pend (snd (env_Publish env t ex rk b w)) = pend w)"

text \<open>What the rest of the program does between the steps of the loop only adds to \<open>view\<close>.\<close>

fun only_adds :: "('w \<Rightarrow> 'a set) \<Rightarrow> 'w choice list \<Rightarrow> bool" where
  "only_adds view [] \<longleftrightarrow> True"
| "only_adds view (CtxDone # cs) \<longleftrightarrow> only_adds view cs"
| "only_adds view (PollTick f # cs) \<longleftrightarrow> (\<forall>w. view w \<subseteq> view (f w)) \<and> only_adds view cs"
| "only_adds view (RecoveryTick f # cs) \<longleftrightarrow> (\<forall>w. view w \<subseteq> view (f w)) \<and> only_adds view cs"

definition sent :: "relay_act list \<Rightarrow> string set" where
  "sent acts = {i. (i, True) \<in> set (publishes acts)}"

lemma sent_append [simp]: "sent (as @ bs) = sent as \<union> sent bs"
  by (auto simp: sent_def)

lemma submits: "P \<subseteq> P' \<Longrightarrow> delivers (P, S) (P', S)"
  using delivery_step.submit [of P S P'] by (simp add: sup.absorb2 r_into_rtranclp)

lemma store_call:
  assumes "store_laws pend env"
  shows "env_ClaimBatch env n by w = (c, w') \<Longrightarrow> pend w' = pend w"
    and "env_MarkFailed env i m t w = (r, w') \<Longrightarrow> pend w' = pend w"
    and "env_RecoverStuckLocks env t w = (q, w') \<Longrightarrow> pend w' = pend w"
    and "env_Publish env t ex rk b w = (r, w') \<Longrightarrow> pend w' = pend w"
    and "env_MarkPublished env i w = (r, w') \<Longrightarrow> pend w' \<in> {pend w, pend w - {i}}"
  using assms unfolding store_laws_def by (metis snd_conv)+

lemma publishOne_keeps:
  "store_laws pend env \<Longrightarrow> publishOne env cfg e w = (r, w') \<Longrightarrow> pend w' = pend w"
  using store_call(4) by (fastforce simp: publishOne_def Let_def split: prod.splits)

lemma relay_fail_store:
  "store_laws pend env \<Longrightarrow> relay_fail env cfg e err w = (acts, w') \<Longrightarrow> pend w' = pend w"
  using store_call(2) by (fastforce simp: relay_fail_def Let_def split: prod.splits)

lemma event_refines:
  assumes laws: "store_laws pend env" and "relay_event env cfg e w = (acts, w')"
  shows "delivers (pend w, S) (pend w', S \<union> sent acts)"
proof -
  obtain r ex w1 where p: "publishOne env cfg e w = ((r, ex), w1)" by (metis surj_pair)
  note same = publishOne_keeps [OF laws p]
  show ?thesis
  proof (cases r)
    case (Some err)
    obtain a2 w2 where f: "relay_fail env cfg e err w1 = (a2, w2)" by (metis surj_pair)
    have "w' = w2" "sent acts = {}"
      using assms(2) p Some f relay_fail_acts [OF f]
      by (auto simp: relay_event_def sent_def split: if_splits)
    then show ?thesis using relay_fail_store [OF laws f] same by simp
  next
    case None
    obtain r2 w2 where m: "env_MarkPublished env (ev_ID e) w1 = (r2, w2)" by (metis surj_pair)
    have w': "w' = w2" and s: "sent acts = {ev_ID e}"
      using assms(2) p None m by (cases r2; auto simp: relay_event_def sent_def split: if_splits)+
    have "delivers (pend w, S) (pend w, insert (ev_ID e) S)" 
      by (simp add: delivery_step.send r_into_rtranclp)
    moreover have "delivers (pend w, insert (ev_ID e) S) (pend w2, insert (ev_ID e) S)"
      using store_call(5) [OF laws m] same delivery_step.settle [of "ev_ID e" "insert (ev_ID e) S" "pend w"]
      by auto
    ultimately show ?thesis using w' s by simp
  qed
qed

lemma events_refine:
  assumes laws: "store_laws pend env" and "relay_events env cfg es w = (acts, w')"
  shows "delivers (pend w, S) (pend w', S \<union> sent acts)"
  using assms(2)
proof (induction es arbitrary: w acts S)
  case Nil
  then show ?case by (simp add: sent_def)
next
  case (Cons e es)
  show ?case
  proof (cases "env_Cancelled env w")
    case True
    with Cons.prems show ?thesis by (simp add: sent_def)
  next
    case False
    obtain a1 w1 a2 w2 where e: "relay_event env cfg e w = (a1, w1)" "relay_events env cfg es w1 = (a2, w2)"
      by (metis surj_pair)
    with Cons.prems False have "acts = a1 @ a2" "w' = w2" by auto
    with event_refines [OF laws e(1), of S] Cons.IH [of w1 a2 "S \<union> sent a1"] e(2) show ?thesis
      by (simp add: Un_assoc)
  qed
qed

lemma tick_refines:
  assumes laws: "store_laws pend env" and "tick env cfg w = (acts, w')"
  shows "delivers (pend w, S) (pend w', S \<union> sent acts)"
proof -
  obtain c w1 where b: "env_ClaimBatch env (oc_BatchSize cfg) (oc_LockedBy cfg) w = (c, w1)"
    by (metis surj_pair)
  note same = store_call(1) [OF laws b]
  show ?thesis
  proof (cases c)
    case (Inl err)
    with assms(2) b same show ?thesis by (auto simp: tick_def sent_def)
  next
    case (Inr es)
    with assms(2) b have "relay_events env cfg es w1 = (acts, w')" by (simp add: tick_def)
    from events_refine [OF laws this] same show ?thesis by simp
  qed
qed

lemma recover_refines:
  assumes "store_laws pend env" and "relay_recover env cfg w = (acts, w')"
  shows "pend w' = pend w \<and> sent acts = {}"
proof -
  obtain q w1 where "env_RecoverStuckLocks env (oc_LockTimeout cfg) w = (q, w1)" by (metis surj_pair)
  with store_call(3) [OF assms(1) this] relay_recover_acts [OF assms(2)] assms(2) show ?thesis
    by (auto simp: relay_recover_def sent_def split: sum.splits)
qed

lemma loop_refines:
  "store_laws pend env \<Longrightarrow> only_adds pend cs \<Longrightarrow> relay_loop env cfg cs w = (acts, w', d)
     \<Longrightarrow> delivers (pend w, S) (pend w', S \<union> sent acts)"
proof (induction env cfg cs w arbitrary: acts S rule: relay_loop.induct)
  case (3 env cfg f cs w)
  obtain a1 w1 where t: "tick env cfg (f w) = (a1, w1)" by (metis surj_pair)
  from "3.prems"(3) t obtain a2 where l: "relay_loop env cfg cs w1 = (a2, w', d)" "acts = a1 @ a2"
    by (auto split: prod.splits)
  have "delivers (pend w, S) (pend (f w), S)" using "3.prems"(2) by (intro submits) simp
  also have "delivers \<dots> (pend w1, S \<union> sent a1)" by (rule tick_refines [OF "3.prems"(1) t])
  also have "delivers \<dots> (pend w', S \<union> sent a1 \<union> sent a2)"
    using "3.IH" [OF t [symmetric] _ _ l(1)] "3.prems" by simp
  finally show ?case using l(2) by (simp add: Un_assoc)
next
  case (4 env cfg f cs w)
  obtain a1 w1 where t: "relay_recover env cfg (f w) = (a1, w1)" by (metis surj_pair)
  from "4.prems"(3) t obtain a2 where l: "relay_loop env cfg cs w1 = (a2, w', d)" "acts = a1 @ a2"
    by (auto split: prod.splits)
  note r = recover_refines [OF "4.prems"(1) t]
  have "delivers (pend w, S) (pend w1, S)" using "4.prems"(2) r by (intro submits) simp
  also have "delivers \<dots> (pend w', S \<union> sent a2)"
    using "4.IH" [OF t [symmetric] _ _ l(1)] "4.prems" by simp
  finally show ?case using l(2) r by simp
qed (auto simp: sent_def)

lemma run_refines:
  assumes "store_laws pend env" and "only_adds pend cs" and "relay_run env cfg cs w = (acts, w', d)"
  shows "delivers (pend w, {}) (pend w', sent acts) \<and> pend w \<subseteq> pend w' \<union> sent acts"
proof -
  obtain a1 w1 where t: "tick env cfg w = (a1, w1)" by (metis surj_pair)
  with assms(3) obtain a2 where l: "relay_loop env cfg cs w1 = (a2, w', d)" "acts = a1 @ a2"
    by (auto simp: relay_run_def split: prod.splits)
  have "delivers (pend w, {}) (pend w1, {} \<union> sent a1)" by (rule tick_refines [OF assms(1) t])
  also have "delivers \<dots> (pend w', {} \<union> sent a1 \<union> sent a2)" by (rule loop_refines [OF assms(1,2) l(1)])
  finally have d: "delivers (pend w, {}) (pend w', sent acts)" using l(2) by simp
  from delivery_keeps [OF this] d show ?thesis by simp
qed

text \<open>
  C4. The relay delivers at least once: a run of the relay, over a store that keeps its contract and with
  whatever else happens between its ticks, is a run of the specification, with the sent events those
  whose publish was confirmed; so an event that was unpublished before is still unpublished after, and
  will be claimed again, or its publish has been confirmed.
\<close>

theorem relay_refines_delivery:
  assumes "store_laws pend env" and "only_adds pend cs" and "relay_run env cfg cs w = (acts, w', d)"
  shows "delivers (pend w, {}) (pend w', sent acts) \<and> pend w \<subseteq> pend w' \<union> sent acts"
  using assms by (rule run_refines)

text \<open>The store of the examples: a list of unpublished events.\<close>

lemma demo_store: "store_laws (\<lambda>w. ev_ID ` set w) demo_env"
  by (auto simp: store_laws_def demo_env_def)

theorem relay_refines_delivery_witness:
  "\<exists>acts w' d. relay_run demo_env demo_config [PollTick id, CtxDone]
       [demo_event ''1'' ''ok'', demo_event ''2'' ''bad''] = (acts, w', d)
     \<and> {''1'', ''2''} \<subseteq> ev_ID ` set w' \<union> sent acts"
proof -
  let ?w = "[demo_event ''1'' ''ok'', demo_event ''2'' ''bad'']"
  obtain acts w' d where r: "relay_run demo_env demo_config [PollTick id, CtxDone] ?w = (acts, w', d)"
    by (metis surj_pair)
  have "only_adds (\<lambda>w. ev_ID ` set w) [PollTick id, CtxDone]" by simp
  from relay_refines_delivery [OF demo_store this r] r show ?thesis by (auto simp: demo_event_def)
qed

section \<open>Over RabbitMQ\<close>

text \<open>
  The store hands out the rows it was given: an event that is claimed is the row stored under its ID,
  but for the number of attempts.
\<close>

definition claims_rows :: "(string \<Rightarrow> event) \<Rightarrow> 'w relay_env \<Rightarrow> bool" where
  "claims_rows row env \<longleftrightarrow>
     (\<forall>n by w es w'. env_ClaimBatch env n by w = (Inr es, w') \<longrightarrow>
        (\<forall>e\<in>set es. e = row (ev_ID e) \<lparr>ev_Attempts := ev_Attempts e\<rparr>))"

text \<open>What the rest of the program does between the steps of the loop only appends to \<open>log\<close>.\<close>

fun only_appends :: "('w \<Rightarrow> 'a list) \<Rightarrow> 'w choice list \<Rightarrow> bool" where
  "only_appends log [] \<longleftrightarrow> True"
| "only_appends log (CtxDone # cs) \<longleftrightarrow> only_appends log cs"
| "only_appends log (PollTick f # cs) \<longleftrightarrow> (\<forall>w. prefix (log w) (log (f w))) \<and> only_appends log cs"
| "only_appends log (RecoveryTick f # cs) \<longleftrightarrow> (\<forall>w. prefix (log w) (log (f w))) \<and> only_appends log cs"

text \<open>The part of \<open>log'\<close> after \<open>log\<close> has the messages of the rows \<open>I\<close>.\<close>

definition carries :: "relay_config \<Rightarrow> (string \<Rightarrow> event) \<Rightarrow> string set
    \<Rightarrow> (string \<times> string \<times> string) list \<Rightarrow> (string \<times> string \<times> string) list \<Rightarrow> bool"
where
  "carries cfg row I log log' \<longleftrightarrow>
     (\<exists>news. log' = log @ news \<and> (\<forall>i\<in>I. event_message cfg (row i) \<in> set news))"

lemma carries_prefix: "prefix log log' \<Longrightarrow> carries cfg row {} log log'"
  by (auto simp: carries_def prefix_def)

lemma carries_trans:
  assumes "carries cfg row I log1 log2" and "carries cfg row J log2 log3"
  shows "carries cfg row (I \<union> J) log1 log3"
proof -
  obtain n m where "log2 = log1 @ n" "log3 = log2 @ m" "\<forall>i\<in>I. event_message cfg (row i) \<in> set n"
    "\<forall>i\<in>J. event_message cfg (row i) \<in> set m"
    using assms unfolding carries_def by blast
  then show ?thesis unfolding carries_def by (intro exI [of _ "n @ m"]) auto
qed

lemma row_message:
  "e = r \<lparr>ev_Attempts := a\<rparr> \<Longrightarrow> event_message cfg e = event_message cfg r"
  by (simp add: event_message_def)

context confirming_publisher
begin

lemma tick_carries:
  assumes env: "relays_over publish acked env" and rows: "claims_rows row env"
    and t: "tick env cfg w = (acts, w')"
  shows "carries cfg row (sent acts) (acked w) (acked w')"
proof -
  let ?es = "claimed env cfg w"
  obtain oks news where m: "marks acts = zip (map ev_ID ?es) oks" and n: "acked w' = acked w @ news"
    and sub: "subseq (confirmed cfg ?es oks) news"
    using tick_delivers [OF env t] by blast
  have row: "e = row (ev_ID e) \<lparr>ev_Attempts := ev_Attempts e\<rparr>" if "e \<in> set ?es" for e
  proof -
    obtain c w1 where c: "env_ClaimBatch env (oc_BatchSize cfg) (oc_LockedBy cfg) w = (c, w1)"
      by (metis surj_pair)
    with that obtain es where "c = Inr es" "e \<in> set es" by (cases c) (auto simp: claimed_def)
    with c rows show ?thesis unfolding claims_rows_def by blast
  qed
  have "event_message cfg (row i) \<in> set news" if "i \<in> sent acts" for i
  proof -
    have "(i, True) \<in> set (zip (map ev_ID ?es) oks)"
      using that tick_acts [OF t] m by (simp add: sent_def)
    then obtain e where e: "e \<in> set ?es" "ev_ID e = i" "event_message cfg e \<in> set (confirmed cfg ?es oks)"
      using confirmed_member by blast
    then show ?thesis using row_message [OF row [OF e(1)]] list_emb_set [OF sub] by metis
  qed
  with n show ?thesis unfolding carries_def by blast
qed

lemma recover_carries:
  assumes env: "relays_over publish acked env" and t: "relay_recover env cfg w = (acts, w')"
  shows "carries cfg row (sent acts) (acked w) (acked w')"
proof -
  obtain q w2 where q: "env_RecoverStuckLocks env (oc_LockTimeout cfg) w = (q, w2)" by (metis surj_pair)
  with t have "w' = w2" by (auto simp: relay_recover_def split: sum.splits)
  moreover have "acked w2 = acked w" using env q unfolding relays_over_def by (metis snd_conv)
  ultimately show ?thesis using relay_recover_acts [OF t] by (simp add: carries_def sent_def)
qed

lemma loop_carries:
  "relays_over publish acked env \<Longrightarrow> claims_rows row env \<Longrightarrow> only_appends acked cs
     \<Longrightarrow> relay_loop env cfg cs w = (acts, w', d) \<Longrightarrow> carries cfg row (sent acts) (acked w) (acked w')"
proof (induction env cfg cs w arbitrary: acts rule: relay_loop.induct)
  case (3 env cfg f cs w)
  obtain a1 w1 where t: "tick env cfg (f w) = (a1, w1)" by (metis surj_pair)
  from "3.prems"(4) t obtain a2 where l: "relay_loop env cfg cs w1 = (a2, w', d)" and acts: "acts = a1 @ a2"
    by (auto split: prod.splits)
  have rest: "carries cfg row (sent a2) (acked w1) (acked w')"
    using "3.IH" [OF t [symmetric] "3.prems"(1,2) _ l] "3.prems"(3) by simp
  have "carries cfg row {} (acked w) (acked (f w))" using "3.prems"(3) by (intro carries_prefix) simp
  from carries_trans [OF this carries_trans [OF tick_carries [OF "3.prems"(1,2) t] rest]] acts
  show ?case by simp
next
  case (4 env cfg f cs w)
  obtain a1 w1 where t: "relay_recover env cfg (f w) = (a1, w1)" by (metis surj_pair)
  from "4.prems"(4) t obtain a2 where l: "relay_loop env cfg cs w1 = (a2, w', d)" and acts: "acts = a1 @ a2"
    by (auto split: prod.splits)
  have rest: "carries cfg row (sent a2) (acked w1) (acked w')"
    using "4.IH" [OF t [symmetric] "4.prems"(1,2) _ l] "4.prems"(3) by simp
  have "carries cfg row {} (acked w) (acked (f w))" using "4.prems"(3) by (intro carries_prefix) simp
  from carries_trans [OF this carries_trans [OF recover_carries [OF "4.prems"(1) t] rest]] acts
  show ?case by simp
qed (auto simp: sent_def carries_def)

lemma run_carries:
  assumes "relays_over publish acked env" and "claims_rows row env" and "only_appends acked cs"
    and "relay_run env cfg cs w = (acts, w', d)"
  shows "carries cfg row (sent acts) (acked w) (acked w')"
proof -
  obtain a1 w1 where t: "tick env cfg w = (a1, w1)" by (metis surj_pair)
  with assms(4) obtain a2 where l: "relay_loop env cfg cs w1 = (a2, w', d)" and acts: "acts = a1 @ a2"
    by (auto simp: relay_run_def split: prod.splits)
  from carries_trans [OF tick_carries [OF assms(1,2) t] loop_carries [OF assms(1-3) l]] acts
  show ?thesis by simp
qed

end

text \<open>A publisher beside a store with a state of its own.\<close>

definition beside ::
    "(int \<Rightarrow> string \<Rightarrow> string \<Rightarrow> string \<Rightarrow> 'w \<Rightarrow> goerr option \<times> 'w)
       \<Rightarrow> int \<Rightarrow> string \<Rightarrow> string \<Rightarrow> string \<Rightarrow> 's \<times> 'w \<Rightarrow> goerr option \<times> ('s \<times> 'w)"
where
  "beside publish t ex rk b x = (case publish t ex rk b (snd x) of (r, w) \<Rightarrow> (r, (fst x, w)))"

interpretation rabbit_store: confirming_publisher "beside PublishWithConfirm" "\<lambda>x. bw_acked (snd x)"
  by unfold_locales
    (auto simp: beside_def split: prod.splits dest: rabbit.publish_acked rabbit.publish_failed)

text \<open>
  C5. An event leaves the outbox only through the broker. For the relay over the RabbitMQ client and a
  store that keeps its contract: after any run, each event that was unpublished before is unpublished
  still, or among the messages the broker has acknowledged since is the message of that very event: the
  exchange, routing key and payload of the row stored under its ID.
\<close>

theorem outbox_loses_nothing:
  assumes "relays_over (beside PublishWithConfirm) (\<lambda>x. bw_acked (snd x)) env"
    and "claims_rows row env" and "store_laws (\<lambda>x. pend (fst x)) env"
    and "only_adds (\<lambda>x. pend (fst x)) cs" and "only_appends (\<lambda>x. bw_acked (snd x)) cs"
    and "relay_run env cfg cs x = (acts, x', d)"
  shows "\<exists>news. bw_acked (snd x') = bw_acked (snd x) @ news
    \<and> (\<forall>i\<in>pend (fst x). i \<in> pend (fst x') \<or> event_message cfg (row i) \<in> set news)"
proof -
  have "pend (fst x) \<subseteq> pend (fst x') \<union> sent acts" using run_refines [OF assms(3,4,6)] by blast
  moreover from rabbit_store.run_carries [OF assms(1,2,5,6)] obtain news where
    "bw_acked (snd x') = bw_acked (snd x) @ news" "\<forall>i\<in>sent acts. event_message cfg (row i) \<in> set news"
    unfolding carries_def by blast
  ultimately show ?thesis by blast
qed

text \<open>The rows of the examples, and a store that is the list of the IDs of the unpublished ones.\<close>

definition demo_row :: "string \<Rightarrow> event" where
  "demo_row i = demo_event i (''key.'' @ i)"

definition demo_outbox :: "(string list \<times> broker_world) relay_env" where
  "demo_outbox =
     \<lparr>env_ClaimBatch = (\<lambda>n by x. (Inr (map demo_row (take (nat n) (fst x))), x)),
      env_MarkPublished = (\<lambda>i x. (None, (filter (\<lambda>j. j \<noteq> i) (fst x), snd x))),
      env_MarkFailed = (\<lambda>i m t x. (None, x)), env_RecoverStuckLocks = (\<lambda>t x. (Inr 0, x)),
      env_Publish = beside PublishWithConfirm, env_Cancelled = (\<lambda>x. False), env_Now = (\<lambda>x. 0)\<rparr>"

theorem outbox_loses_nothing_witness:
  "\<exists>acts x' d. relay_run demo_outbox demo_config [PollTick id, CtxDone] ([''1'', ''2''], demo_broker) = (acts, x', d)
     \<and> (''2'' \<in> set (fst x') \<or> (''dx'', ''key.2'', ''{}'') \<in> set (bw_acked (snd x')))"
proof -
  let ?x = "([''1'', ''2''], demo_broker)"
  obtain acts x' d where r: "relay_run demo_outbox demo_config [PollTick id, CtxDone] ?x = (acts, x', d)"
    by (metis surj_pair)
  have over: "relays_over (beside PublishWithConfirm) (\<lambda>x. bw_acked (snd x)) demo_outbox"
    by (simp add: relays_over_def demo_outbox_def)
  have rows: "claims_rows demo_row demo_outbox"
    by (auto simp: claims_rows_def demo_outbox_def demo_row_def demo_event_def)
  have laws: "store_laws (\<lambda>x. set (fst x)) demo_outbox"
    by (auto simp: store_laws_def demo_outbox_def beside_def split: prod.splits)
  from outbox_loses_nothing [where pend = set, OF over rows laws _ _ r] obtain news where
    "bw_acked (snd x') = bw_acked demo_broker @ news"
    "\<forall>i\<in>{''1'', ''2''}. i \<in> set (fst x') \<or> event_message demo_config (demo_row i) \<in> set news" by auto
  moreover have "event_message demo_config (demo_row ''2'') = (''dx'', ''key.2'', ''{}'')"
    by (simp add: event_message_def demo_row_def demo_event_def demo_config_def)
  ultimately show ?thesis using r by auto
qed

end
