(* ===== verification/Retry_Policy.thy ===== *)
theory Retry_Policy
  imports Go_Prelude
begin

text \<open>
  Module \<open>messaging/retry\<close>: the retry count a message carries in its headers and the decision
  after a failed delivery.

  An AMQP table is a map from names to values, \<open>None\<close> for the nil table. Integers have their Go
  width. A finite \<open>float64\<close> is a mantissa and an exponent of 2; its conversion to \<open>int\<close> rounds
  towards zero, and where the value does not fit the language leaves the result to the
  implementation: that is the argument \<open>impl\<close>.
\<close>

section \<open>Parsing integers\<close>

text \<open>\<open>strconv.ParseUint\<close> on the digits that are left; an overflow stops it at the largest value.\<close>

fun parse_uint :: "int \<Rightarrow> string \<Rightarrow> int option" where
  "parse_uint n [] = Some n"
| "parse_uint n (c # cs) =
     (if \<not> is_digit c then None
      else let n' = 10 * n + digit_val c
           in if n' \<ge> 2 ^ 64 then Some (2 ^ 64 - 1) else parse_uint n' cs)"

text \<open>The integer \<open>strconv.Atoi\<close> returns beside its error: 0 on a syntax error, clamped on a range error.\<close>

definition atoi :: "string \<Rightarrow> int" where
  "atoi s =
     (let neg = (s \<noteq> [] \<and> hd s = CHR ''-'');
          ds = (if s \<noteq> [] \<and> (hd s = CHR ''-'' \<or> hd s = CHR ''+'') then tl s else s)
      in if ds = [] then 0
         else case parse_uint 0 ds of
                None \<Rightarrow> 0
              | Some u \<Rightarrow>
                  if neg then (if u > 2 ^ 63 then - (2 ^ 63) else - u)
                  else if u \<ge> 2 ^ 63 then 2 ^ 63 - 1 else u)"

lemma digit_val_nonneg: "is_digit c \<Longrightarrow> 0 \<le> digit_val c"
  by (simp add: is_digit_def digit_val_def)

lemma foldl_digits_mono:
  "list_all is_digit ds \<Longrightarrow> 0 \<le> n \<Longrightarrow> n \<le> foldl (\<lambda>n c. 10 * n + digit_val c) n ds"
proof (induction ds arbitrary: n)
  case (Cons d ds)
  then have "0 \<le> digit_val d" by (simp add: digit_val_nonneg)
  with Cons.prems Cons.IH [of "10 * n + digit_val d"] show ?case by simp
qed simp

lemma parse_uint_digits:
  assumes "list_all is_digit ds" and "0 \<le> n"
    and "foldl (\<lambda>n c. 10 * n + digit_val c) n ds < 2 ^ 64"
  shows "parse_uint n ds = Some (foldl (\<lambda>n c. 10 * n + digit_val c) n ds)"
  using assms
proof (induction ds arbitrary: n)
  case (Cons d ds)
  let ?n = "10 * n + digit_val d"
  have d: "0 \<le> digit_val d" using Cons.prems by (simp add: digit_val_nonneg)
  moreover have "?n \<le> foldl (\<lambda>n c. 10 * n + digit_val c) ?n ds"
    using foldl_digits_mono [of ds ?n] Cons.prems d by simp
  ultimately show ?case using Cons.prems Cons.IH [of ?n] by (simp add: Let_def)
qed simp

lemma dec_nat_head: "dec_nat n = c # cs \<Longrightarrow> is_digit c"
  using dec_nat_digits [of n] by simp

lemma atoi_itoa: "in64 n \<Longrightarrow> atoi (itoa n) = n"
proof -
  assume n: "in64 n"
  have p: "parse_uint 0 (dec_nat m) = Some (int m)" if "m \<le> 2 ^ 63" for m
    using parse_uint_digits [OF dec_nat_digits, of 0 m] that digits_val_dec_nat [of m]
    by (simp add: digits_val_def)
  show ?thesis
  proof (cases "n < 0")
    case True
    with n have "parse_uint 0 (dec_nat (nat (- n))) = Some (- n)"
      using p [of "nat (- n)"] by (simp add: in64_def)
    with True n show ?thesis by (simp add: atoi_def itoa_def in64_def)
  next
    case False
    with n have u: "parse_uint 0 (dec_nat (nat n)) = Some n"
      using p [of "nat n"] by (simp add: in64_def)
    obtain c cs where c: "dec_nat (nat n) = c # cs" by (cases "dec_nat (nat n)") auto
    with dec_nat_head have "c \<noteq> CHR ''-''" "c \<noteq> CHR ''+''"
      using is_digit_simps by blast+
    with False n u c show ?thesis by (simp add: atoi_def itoa_def in64_def)
  qed
qed

section \<open>The retry count\<close>

datatype float64 = Finite int int | NotFinite  \<comment> \<open>mantissa, exponent of 2\<close>

definition float_trunc :: "int \<Rightarrow> int \<Rightarrow> int" where
  "float_trunc m e =
     (if e \<ge> 0 then m * 2 ^ nat e else sgn m * (\<bar>m\<bar> div 2 ^ nat (- e)))"

definition float_to_int :: "(float64 \<Rightarrow> int) \<Rightarrow> float64 \<Rightarrow> int" where
  "float_to_int impl f =
     (case f of
        Finite m e \<Rightarrow> if in64 (float_trunc m e) then float_trunc m e else impl f
      | NotFinite \<Rightarrow> impl f)"

datatype amqp_value =
    VInt int | VInt32 int | VInt64 int | VFloat64 float64 | VString string | VBytes string | VNil
  | VOther string  \<comment> \<open>any other type, with what \<open>fmt.Sprint\<close> prints\<close>

type_synonym table = "(string \<rightharpoonup> amqp_value) option"

definition Header :: string where
  "Header = ''x-retry-count''"

definition Attempt :: "(float64 \<Rightarrow> int) \<Rightarrow> table \<Rightarrow> int" where
  "Attempt impl headers =
     (case headers of
        None \<Rightarrow> 0
      | Some h \<Rightarrow>
          (case h Header of
             None \<Rightarrow> 0
           | Some raw \<Rightarrow>
               (case raw of
                  VInt v \<Rightarrow> v
                | VInt32 v \<Rightarrow> v
                | VInt64 v \<Rightarrow> v
                | VFloat64 v \<Rightarrow> float_to_int impl v
                | VString v \<Rightarrow> atoi v
                | _ \<Rightarrow> 0)))"

datatype action = Ack | Retry | DLQ

record decision =
  d_Action :: action
  d_Attempt :: int
  d_Reason :: string

text \<open>\<open>n+1\<close> is an \<open>int\<close>: at the largest value it wraps.\<close>

definition Decide :: "(float64 \<Rightarrow> int) \<Rightarrow> bool \<Rightarrow> table \<Rightarrow> int \<Rightarrow> decision" where
  "Decide impl retriable headers maxAttempts =
     (let maxAttempts = (if maxAttempts \<le> 0 then 8 else maxAttempts);
          n = Attempt impl headers
      in if \<not> retriable then \<lparr>d_Action = DLQ, d_Attempt = n, d_Reason = ''terminal''\<rparr>
         else if wrap64 (n + 1) > maxAttempts
              then \<lparr>d_Action = DLQ, d_Attempt = n, d_Reason = ''retries_exhausted''\<rparr>
         else \<lparr>d_Action = Retry, d_Attempt = wrap64 (n + 1), d_Reason = ''retriable''\<rparr>)"

definition WithAttempt :: "table \<Rightarrow> int \<Rightarrow> table" where
  "WithAttempt headers n =
     Some ((case headers of None \<Rightarrow> Map.empty | Some h \<Rightarrow> h)(Header \<mapsto> VInt n))"

section \<open>Correctness\<close>

definition header_value :: "table \<Rightarrow> string \<Rightarrow> amqp_value option" where
  "header_value h k = (case h of None \<Rightarrow> None | Some m \<Rightarrow> m k)"

lemma Attempt_WithAttempt [simp]: "Attempt impl (WithAttempt h n) = n"
  by (simp add: Attempt_def WithAttempt_def)

lemma header_WithAttempt: "header_value (WithAttempt h n) = (header_value h)(Header \<mapsto> VInt n)"
  by (auto simp: WithAttempt_def header_value_def fun_eq_iff split: option.split)

lemma Attempt_decimal: "Attempt impl (Some [Header \<mapsto> VString (itoa (wrap64 n))]) = wrap64 n"
  by (simp add: Attempt_def atoi_itoa)

text \<open>
  Writing a count and reading it back gives the count, whatever the headers were, and the other
  headers are kept; a count another producer wrote as a decimal text is read back as well.
\<close>

theorem attempt_roundtrip:
  "Attempt impl (WithAttempt h n) = n
   \<and> header_value (WithAttempt h n) = (header_value h)(Header \<mapsto> VInt n)
   \<and> Attempt impl (Some [Header \<mapsto> VString (itoa (wrap64 n))]) = wrap64 n"
  by (simp add: header_WithAttempt Attempt_decimal)

text \<open>
  The life of a message whose handler keeps failing with a retriable error: each \<open>Retry\<close>
  decision republishes it with the decided count.
\<close>

fun failing_run :: "(float64 \<Rightarrow> int) \<Rightarrow> nat \<Rightarrow> table \<Rightarrow> int \<Rightarrow> decision list" where
  "failing_run impl 0 h mx = []"
| "failing_run impl (Suc fuel) h mx =
     (let d = Decide impl True h mx
      in d # (if d_Action d = Retry
              then failing_run impl fuel (WithAttempt h (d_Attempt d)) mx else []))"

definition retry_limit :: "int \<Rightarrow> int" where
  "retry_limit mx = (if mx \<le> 0 then 8 else mx)"

lemma Decide_retriable:
  assumes "0 \<le> Attempt impl h" and "Attempt impl h < 2 ^ 63 - 1"
  shows "Decide impl True h mx =
    (if Attempt impl h < retry_limit mx
     then \<lparr>d_Action = Retry, d_Attempt = Attempt impl h + 1, d_Reason = ''retriable''\<rparr>
     else \<lparr>d_Action = DLQ, d_Attempt = Attempt impl h, d_Reason = ''retries_exhausted''\<rparr>)"
proof -
  have "wrap64 (Attempt impl h + 1) = Attempt impl h + 1"
    using assms by (intro wrap64_id) (simp add: in64_def)
  then show ?thesis by (simp add: Decide_def retry_limit_def Let_def)
qed

lemma failing_run_from:
  assumes "retry_limit mx < 2 ^ 63 - 1" and "0 \<le> Attempt impl h" and "Attempt impl h \<le> retry_limit mx"
    and "Attempt impl h < 2 ^ 63 - 1" and "nat (retry_limit mx - Attempt impl h) < fuel"
  shows "map d_Action (failing_run impl fuel h mx)
    = replicate (nat (retry_limit mx - Attempt impl h)) Retry @ [DLQ]"
  using assms
proof (induction fuel arbitrary: h)
  case 0
  then show ?case by simp
next
  case (Suc fuel)
  note D = Decide_retriable [OF Suc.prems(2,4), of mx]
  show ?case
  proof (cases "Attempt impl h < retry_limit mx")
    case False
    with Suc.prems(3) D show ?thesis by (simp add: Let_def)
  next
    case True
    let ?h = "WithAttempt h (Attempt impl h + 1)"
    have a: "Attempt impl ?h = Attempt impl h + 1" by simp
    show ?thesis
    proof (cases "Attempt impl ?h < 2 ^ 63 - 1")
      case True
      have n: "nat (retry_limit mx - Attempt impl h) = Suc (nat (retry_limit mx - Attempt impl ?h))"
        using \<open>Attempt impl h < retry_limit mx\<close> a by simp
      have "map d_Action (failing_run impl fuel ?h mx)
          = replicate (nat (retry_limit mx - Attempt impl ?h)) Retry @ [DLQ]"
        by (rule Suc.IH) (use Suc.prems \<open>Attempt impl h < retry_limit mx\<close> True a n in auto)
      with n D \<open>Attempt impl h < retry_limit mx\<close> show ?thesis by (simp add: Let_def)
    next
      case False
      with a Suc.prems \<open>Attempt impl h < retry_limit mx\<close> show ?thesis by simp
    qed
  qed
qed

text \<open>
  C23. A message that starts without a count and always fails is retried exactly as often as the
  limit says (8 when none is given) and then dead-lettered: there is no further delivery.
\<close>

theorem retries_are_bounded:
  assumes "retry_limit mx < 2 ^ 63 - 1" and "Attempt impl h = 0" and "nat (retry_limit mx) < fuel"
  shows "map d_Action (failing_run impl fuel h mx) = replicate (nat (retry_limit mx)) Retry @ [DLQ]"
proof -
  have "0 < retry_limit mx" by (simp add: retry_limit_def)
  with assms failing_run_from [of mx impl h fuel] show ?thesis by simp
qed

theorem retries_are_bounded_witness:
  "map d_Action (failing_run (\<lambda>_. 0) 100 None 3) = [Retry, Retry, Retry, DLQ]
   \<and> map d_Action (failing_run (\<lambda>_. 0) 100 None 0) = replicate 8 Retry @ [DLQ]"
  using retries_are_bounded [of 3 "\<lambda>_. 0" None 100] retries_are_bounded [of 0 "\<lambda>_. 0" None 100]
  by (simp add: retry_limit_def Attempt_def numeral_3_eq_3)

text \<open>
  The count is not checked: a count at the largest \<open>int\<close>, which a decimal text of any
  larger number is read as, makes \<open>n+1\<close> wrap, and the decision is a retry with the smallest
  count, for any limit.
\<close>

theorem huge_count_is_retried:
  "Decide impl True (Some [Header \<mapsto> VString ''9223372036854775808'']) mx
     = \<lparr>d_Action = Retry, d_Attempt = - (2 ^ 63), d_Reason = ''retriable''\<rparr>"
proof -
  have "atoi ''9223372036854775808'' = 2 ^ 63 - 1"
    by (simp add: atoi_def is_digit_def digit_val_def)
  then have "Attempt impl (Some [Header \<mapsto> VString ''9223372036854775808'']) = 2 ^ 63 - 1"
    by (simp add: Attempt_def)
  moreover have "wrap64 (2 ^ 63) = - (2 ^ 63)" by (simp add: wrap64_def)
  ultimately show ?thesis by (simp add: Decide_def)
qed

end
