(* ===== verification/Encoding.thy ===== *)
theory Encoding
  imports Go_Prelude
begin

text \<open>
  The text encodings the sources use, as byte functions: \<open>encoding/hex\<close>, and the standard and URL
  alphabets of \<open>encoding/base64\<close> with and without padding. The decoders accept what Go's accept:
  upper and lower case in hex; carriage returns and line feeds anywhere in base64, and any bits in
  the unused tail of the last character. \<open>None\<close> is an error (its text names the offending byte
  and is not modelled).
\<close>

section \<open>Hex\<close>

definition hex_char :: "nat \<Rightarrow> char" where
  "hex_char n = (if n < 10 then char_of (48 + n) else char_of (87 + n))"

definition hex_val :: "char \<Rightarrow> nat option" where
  "hex_val c =
     (let n = of_char c :: nat
      in if 48 \<le> n \<and> n \<le> 57 then Some (n - 48)
         else if 97 \<le> n \<and> n \<le> 102 then Some (n - 87)
         else if 65 \<le> n \<and> n \<le> 70 then Some (n - 55)
         else None)"

fun hex_encode :: "string \<Rightarrow> string" where
  "hex_encode [] = []"
| "hex_encode (c # cs) =
     hex_char (of_char c div 16) # hex_char (of_char c mod 16) # hex_encode cs"

fun hex_decode :: "string \<Rightarrow> string option" where
  "hex_decode [] = Some []"
| "hex_decode [a] = None"
| "hex_decode (a # b # cs) =
     (case (hex_val a, hex_val b, hex_decode cs) of
        (Some x, Some y, Some bs) \<Rightarrow> Some (char_of (16 * x + y) # bs)
      | _ \<Rightarrow> None)"

lemma nat_less_256: "(of_char c :: nat) < 256"
proof -
  have "(of_char c :: nat) = of_char c mod 256" by simp
  also have "\<dots> < 256" by simp
  finally show ?thesis .
qed

lemma printable_plain:
  "33 \<le> (of_char c :: nat) \<Longrightarrow> (of_char c :: nat) < 128 \<Longrightarrow> plain_char c"
  by (auto simp: plain_char_def space_runes_def)

lemma byte_parts:
  "(of_char c :: nat) div 4 < 64" "(of_char c :: nat) div 16 < 16" "(of_char c :: nat) div 64 < 4"
  using nat_less_256 [of c] by (simp_all add: div_less_iff_less_mult)

lemma hex_val_char: "n < 16 \<Longrightarrow> hex_val (hex_char n) = Some n"
  by (auto simp: hex_val_def hex_char_def Let_def)

lemma hex_char_plain: "n < 16 \<Longrightarrow> plain_char (hex_char n)"
  by (rule printable_plain) (auto simp: hex_char_def)

theorem hex_decode_encode [simp]: "hex_decode (hex_encode s) = Some s"
proof (induction s)
  case (Cons c cs)
  then show ?case by (simp add: hex_val_char byte_parts)
qed simp

lemma hex_encode_length [simp]: "length (hex_encode s) = 2 * length s"
  by (induction s) auto

lemma hex_encode_plain: "list_all plain_char (hex_encode s)"
proof (induction s)
  case (Cons c cs)
  then show ?case by (simp add: hex_char_plain byte_parts)
qed simp

lemma hex_encode_inject: "hex_encode s = hex_encode t \<longleftrightarrow> s = t"
  by (metis hex_decode_encode option.inject)

section \<open>Base64\<close>

text \<open>The flags: the URL alphabet instead of the standard one, and padding.\<close>

definition b64_char :: "bool \<Rightarrow> nat \<Rightarrow> char" where
  "b64_char url n =
     (if n < 26 then char_of (65 + n)
      else if n < 52 then char_of (71 + n)
      else if n < 62 then char_of (n - 4)
      else if n = 62 then (if url then CHR ''-'' else CHR ''+'')
      else (if url then CHR ''_'' else CHR ''/''))"

definition b64_val :: "bool \<Rightarrow> char \<Rightarrow> nat option" where
  "b64_val url c =
     (let n = of_char c :: nat
      in if 65 \<le> n \<and> n \<le> 90 then Some (n - 65)
         else if 97 \<le> n \<and> n \<le> 122 then Some (n - 71)
         else if 48 \<le> n \<and> n \<le> 57 then Some (n + 4)
         else if c = (if url then CHR ''-'' else CHR ''+'') then Some 62
         else if c = (if url then CHR ''_'' else CHR ''/'') then Some 63
         else None)"

fun b64_encode :: "bool \<Rightarrow> bool \<Rightarrow> string \<Rightarrow> string" where
  "b64_encode url pad [] = []"
| "b64_encode url pad [a] =
     (let x = of_char a :: nat
      in [b64_char url (x div 4), b64_char url (16 * (x mod 4))] @ (if pad then ''=='' else []))"
| "b64_encode url pad [a, b] =
     (let x = of_char a :: nat; y = of_char b :: nat
      in [b64_char url (x div 4), b64_char url (16 * (x mod 4) + y div 16),
          b64_char url (4 * (y mod 16))] @ (if pad then ''='' else []))"
| "b64_encode url pad (a # b # c # cs) =
     (let x = of_char a :: nat; y = of_char b :: nat; z = of_char c :: nat
      in [b64_char url (x div 4), b64_char url (16 * (x mod 4) + y div 16),
          b64_char url (4 * (y mod 16) + z div 64), b64_char url (z mod 64)]
         @ b64_encode url pad cs)"

definition quad_1 :: "nat \<Rightarrow> nat \<Rightarrow> char" where
  "quad_1 p q = char_of (4 * p + q div 16)"
definition quad_2 :: "nat \<Rightarrow> nat \<Rightarrow> char" where
  "quad_2 q r = char_of (16 * (q mod 16) + r div 4)"
definition quad_3 :: "nat \<Rightarrow> nat \<Rightarrow> char" where
  "quad_3 r s = char_of (64 * (r mod 4) + s)"

fun b64_quads :: "bool \<Rightarrow> bool \<Rightarrow> string \<Rightarrow> string option" where
  "b64_quads url pad [] = Some []"
| "b64_quads url pad [a] = None"
| "b64_quads url pad [a, b] =
     (case (pad, b64_val url a, b64_val url b) of
        (False, Some p, Some q) \<Rightarrow> Some [quad_1 p q]
      | _ \<Rightarrow> None)"
| "b64_quads url pad [a, b, c] =
     (case (pad, b64_val url a, b64_val url b, b64_val url c) of
        (False, Some p, Some q, Some r) \<Rightarrow> Some [quad_1 p q, quad_2 q r]
      | _ \<Rightarrow> None)"
| "b64_quads url pad (a # b # c # d # cs) =
     (case (b64_val url a, b64_val url b, b64_val url c, b64_val url d) of
        (Some p, Some q, Some r, Some s) \<Rightarrow>
          map_option (\<lambda>bs. quad_1 p q # quad_2 q r # quad_3 r s # bs) (b64_quads url pad cs)
      | (Some p, Some q, Some r, None) \<Rightarrow>
          if pad \<and> d = CHR ''='' \<and> cs = [] then Some [quad_1 p q, quad_2 q r] else None
      | (Some p, Some q, None, None) \<Rightarrow>
          if pad \<and> c = CHR ''='' \<and> d = CHR ''='' \<and> cs = [] then Some [quad_1 p q] else None
      | _ \<Rightarrow> None)"

definition is_newline :: "char \<Rightarrow> bool" where
  "is_newline c \<longleftrightarrow> c = CHR 0x0A \<or> c = CHR 0x0D"

definition b64_decode :: "bool \<Rightarrow> bool \<Rightarrow> string \<Rightarrow> string option" where
  "b64_decode url pad s = b64_quads url pad (filter (\<lambda>c. \<not> is_newline c) s)"

abbreviation "b64_std \<equiv> b64_encode False True"
abbreviation "b64_raw_std \<equiv> b64_encode False False"
abbreviation "b64_raw_url \<equiv> b64_encode True False"

lemma b64_val_char: "n < 64 \<Longrightarrow> b64_val url (b64_char url n) = Some n"
  by (cases "n = 62"; cases "n = 63") (auto simp: b64_val_def b64_char_def Let_def)

lemma b64_char_plain:
  "n < 64 \<Longrightarrow> plain_char (b64_char url n) \<and> \<not> is_newline (b64_char url n)"
proof -
  assume "n < 64"
  then have "33 \<le> (of_char (b64_char url n) :: nat)" "(of_char (b64_char url n) :: nat) < 128"
    by (auto simp: b64_char_def)
  then show ?thesis using printable_plain by (auto simp: is_newline_def)
qed

lemma b64_val_pad [simp]: "b64_val url (CHR ''='') = None"
proof -
  have "b64_val True (CHR ''='') = None" "b64_val False (CHR ''='') = None" by code_simp+
  then show ?thesis by (cases url) simp_all
qed

lemma pad_char_plain: "plain_char (CHR ''='') \<and> \<not> is_newline (CHR ''='')"
  by code_simp

lemma b64_ranges:
  "(of_char a :: nat) div 4 < 64" "16 * ((of_char a :: nat) mod 4) + of_char b div 16 < 64"
  "4 * ((of_char b :: nat) mod 16) + of_char c div 64 < 64" "(of_char c :: nat) mod 64 < 64"
  "16 * ((of_char a :: nat) mod 4) < 64" "4 * ((of_char b :: nat) mod 16) < 64"
proof -
  have "(of_char a :: nat) mod 4 < 4" "(of_char b :: nat) mod 16 < 16" by simp_all
  then show "16 * ((of_char a :: nat) mod 4) + of_char b div 16 < 64"
    "4 * ((of_char b :: nat) mod 16) + of_char c div 64 < 64"
    using byte_parts(2) [of b] byte_parts(3) [of c] by linarith+
qed (simp_all add: byte_parts)

lemma b64_encode_chars:
  "list_all (\<lambda>c. plain_char c \<and> \<not> is_newline c) (b64_encode url pad s)"
  by (induction url pad s rule: b64_encode.induct)
    (simp_all add: Let_def b64_char_plain b64_ranges pad_char_plain)

lemma quad_inverse:
  "quad_1 (of_char a div 4) (16 * (of_char a mod 4)) = a"
  "quad_1 (of_char a div 4) (16 * (of_char a mod 4) + of_char b div 16) = a"
  "quad_2 (16 * (of_char a mod 4) + of_char b div 16) (4 * (of_char b mod 16)) = b"
  "quad_2 (16 * (of_char a mod 4) + of_char b div 16) (4 * (of_char b mod 16) + of_char c div 64) = b"
  "quad_3 (4 * (of_char b mod 16) + of_char c div 64) (of_char c mod 64) = c"
proof -
  let ?x = "of_char a :: nat" and ?y = "of_char b :: nat" and ?z = "of_char c :: nat"
  note [simp] = byte_parts(2) [of b] byte_parts(3) [of c]
  have "4 * (?x div 4) + 16 * (?x mod 4) div 16 = ?x"
    "4 * (?x div 4) + (16 * (?x mod 4) + ?y div 16) div 16 = ?x"
    "16 * ((16 * (?x mod 4) + ?y div 16) mod 16) + 4 * (?y mod 16) div 4 = ?y"
    "16 * ((16 * (?x mod 4) + ?y div 16) mod 16) + (4 * (?y mod 16) + ?z div 64) div 4 = ?y"
    "64 * ((4 * (?y mod 16) + ?z div 64) mod 4) + ?z mod 64 = ?z"
    by (simp_all only: mod_mult_self4 div_mult_self4 mod_less byte_parts
        nonzero_mult_div_cancel_left mult_div_mod_eq) simp_all
  then show
    "quad_1 (of_char a div 4) (16 * (of_char a mod 4)) = a"
    "quad_1 (of_char a div 4) (16 * (of_char a mod 4) + of_char b div 16) = a"
    "quad_2 (16 * (of_char a mod 4) + of_char b div 16) (4 * (of_char b mod 16)) = b"
    "quad_2 (16 * (of_char a mod 4) + of_char b div 16) (4 * (of_char b mod 16) + of_char c div 64) = b"
    "quad_3 (4 * (of_char b mod 16) + of_char c div 64) (of_char c mod 64) = c"
    by (simp_all add: quad_1_def quad_2_def quad_3_def)
qed

lemma quads_encode: "b64_quads url pad (b64_encode url pad s) = Some s"
  by (induction url pad s rule: b64_encode.induct)
    (simp_all add: Let_def b64_val_char b64_ranges quad_inverse)

theorem b64_decode_encode [simp]: "b64_decode url pad (b64_encode url pad s) = Some s"
proof -
  have "filter (\<lambda>c. \<not> is_newline c) (b64_encode url pad s) = b64_encode url pad s"
    using b64_encode_chars [of url pad s] by (simp add: filter_id_conv list_all_iff)
  then show ?thesis by (simp add: b64_decode_def quads_encode)
qed

lemma b64_encode_inject: "b64_encode url pad s = b64_encode url pad t \<longleftrightarrow> s = t"
  by (metis b64_decode_encode option.inject)

lemma b64_encode_plain: "list_all plain_char (b64_encode url pad s)"
  using b64_encode_chars [of url pad s] by (simp add: list_all_iff)

end
