(* ===== verification/Aead.thy ===== *)
theory Aead
  imports Go_Errors Encoding
begin

text \<open>
  \<open>security/aead/aead.go\<close>: the versioned AES-GCM envelope for secrets at rest. AES-GCM and
  HMAC-SHA256 are arguments (\<open>seal\<close>, \<open>unseal\<close> and \<open>hmac\<close>; the key, the nonce, the text): what the
  source relies on is that opening inverts sealing, and that only sealed texts open. The
  constructors of AES and GCM cannot fail for a key of 32 bytes, which is checked before, and the
  nonce of \<open>cipher.NewGCM\<close> has 12 bytes. A \<open>Crypter\<close> is its key; \<open>None\<close> is nil.
\<close>

datatype aead_error =
  ErrMissingKey | ErrInvalidKey | ErrInvalidPayload
| ErrPayloadEncoding     \<comment> \<open>\<open>ErrInvalidPayload\<close> wrapped with the base64 error\<close>
| ErrRandom goerr

definition prefixV1 :: string where
  "prefixV1 = ''enc:v1:''"

definition keySize :: nat where
  "keySize = 32"

definition nonceSize :: nat where
  "nonceSize = 12"

definition parseKey :: "string \<Rightarrow> aead_error + string" where
  "parseKey material =
     (let raw = trim_space material; fits = (\<lambda>d. case d of None \<Rightarrow> None
                | Some k \<Rightarrow> if length k = keySize then Some k else None)
      in if raw = [] then Inl ErrMissingKey
         else case fits (hex_decode raw) of
                Some k \<Rightarrow> Inr k
              | None \<Rightarrow>
                  (case fits (b64_decode False True raw) of
                     Some k \<Rightarrow> Inr k
                   | None \<Rightarrow>
                       (case fits (b64_decode False False raw) of
                          Some k \<Rightarrow> Inr k
                        | None \<Rightarrow>
                            if length raw = keySize then Inr raw else Inl ErrInvalidKey)))"

definition aead_New :: "string \<Rightarrow> aead_error + string" where
  "aead_New keyMaterial =
     (case parseKey keyMaterial of Inl err \<Rightarrow> Inl err | Inr key \<Rightarrow> Inr key)"

text \<open>The random source: the error of reading from it, and the bytes it yields.\<close>

record random =
  rnd_err :: "goerr option"
  rnd_bytes :: "nat \<Rightarrow> char"

definition Encrypt ::
    "(string \<Rightarrow> string \<Rightarrow> string \<Rightarrow> string) \<Rightarrow> random \<Rightarrow> string option \<Rightarrow> string \<Rightarrow> aead_error + string"
where
  "Encrypt seal rnd c plaintext =
     (case c of
        None \<Rightarrow> Inl ErrMissingKey
      | Some key \<Rightarrow>
          if length key \<noteq> keySize then Inl ErrMissingKey
          else case rnd_err rnd of
                 Some e \<Rightarrow> Inl (ErrRandom e)
               | None \<Rightarrow>
                   (let nonce = map (rnd_bytes rnd) [0..<nonceSize];
                        sealed = nonce @ seal key nonce plaintext
                    in Inr (prefixV1 @ b64_raw_url sealed)))"

definition IsEnvelope :: "string \<Rightarrow> bool" where
  "IsEnvelope value \<longleftrightarrow> has_prefix value prefixV1"

definition Decrypt ::
    "(string \<Rightarrow> string \<Rightarrow> string \<Rightarrow> string option) \<Rightarrow> string option \<Rightarrow> string \<Rightarrow> aead_error + string"
where
  "Decrypt unseal c value =
     (if \<not> IsEnvelope value then Inr value
      else case c of
             None \<Rightarrow> Inl ErrMissingKey
           | Some key \<Rightarrow>
               if length key \<noteq> keySize then Inl ErrMissingKey
               else case b64_decode True False (trim_prefix value prefixV1) of
                      None \<Rightarrow> Inl ErrPayloadEncoding
                    | Some raw \<Rightarrow>
                        if length raw < nonceSize then Inl ErrInvalidPayload
                        else case unseal key (take nonceSize raw) (drop nonceSize raw) of
                               None \<Rightarrow> Inl ErrInvalidPayload
                             | Some plain \<Rightarrow> Inr plain)"

definition HMACSHA256 :: "(string \<Rightarrow> string \<Rightarrow> string) \<Rightarrow> string option \<Rightarrow> string \<Rightarrow> aead_error + string" where
  "HMACSHA256 hmac c msg =
     (case c of
        None \<Rightarrow> Inl ErrMissingKey
      | Some key \<Rightarrow>
          if length key \<noteq> keySize then Inl ErrMissingKey else Inr (hex_encode (hmac key msg)))"

definition HMACEqual ::
    "(string \<Rightarrow> string \<Rightarrow> string) \<Rightarrow> string option \<Rightarrow> string \<Rightarrow> string \<Rightarrow> aead_error + bool"
where
  "HMACEqual hmac c msg digestHex =
     (case HMACSHA256 hmac c msg of
        Inl err \<Rightarrow> Inl err
      | Inr want \<Rightarrow> Inr (want = trim_space digestHex))"

section \<open>Keys\<close>

lemma parseKey_length: "parseKey m = Inr k \<Longrightarrow> length k = 32"
  by (auto simp: parseKey_def Let_def keySize_def split: option.splits if_splits)

lemma b64_raw_length: "length (b64_encode url False s) = (4 * length s + 2) div 3"
  by (induction url False s rule: b64_encode.induct) (simp_all add: Let_def)

lemma b64_std_length: "length (b64_encode url True s) = 4 * ((length s + 2) div 3)"
  by (induction url True s rule: b64_encode.induct) (simp_all add: Let_def, presburger)

lemma hex_decode_even: "hex_decode s = Some t \<Longrightarrow> length s = 2 * length t"
  by (induction s arbitrary: t rule: hex_decode.induct) (auto split: option.splits)

lemma four_mod: "Suc (Suc (Suc (Suc n))) mod 4 = n mod 4"
  by presburger

lemma quads_pad_length: "b64_quads url True s = Some t \<Longrightarrow> length s mod 4 = 0"
  by (induction url True s arbitrary: t rule: b64_quads.induct)
    (auto simp: four_mod split: option.splits if_splits)

lemma b64_filter_id: "filter (\<lambda>c. \<not> is_newline c) (b64_encode url pad s) = b64_encode url pad s"
  using b64_encode_chars [of url pad s] by (simp add: filter_id_conv list_all_iff)

text \<open>
  A key of 32 bytes is recovered from its hex text, from its base64 text with and without
  padding, and white space around it does not matter; whatever is accepted is 32 bytes long.
\<close>

theorem parseKey_roundtrip:
  assumes "length k = 32"
  shows "parseKey (hex_encode k) = Inr k \<and> parseKey (b64_std k) = Inr k
    \<and> parseKey (b64_raw_std k) = Inr k \<and> parseKey (trim_space m) = parseKey m
    \<and> (\<forall>k'. parseKey m = Inr k' \<longrightarrow> length k' = 32)"
proof -
  have "hex_encode k \<noteq> []" using assms by (cases k) auto
  then have nonempty: "hex_encode k \<noteq> []" "b64_std k \<noteq> []" "b64_raw_std k \<noteq> []"
    using assms b64_std_length [of False k] b64_raw_length [of False k]
    by auto
  have "hex_decode (b64_std k) = None \<or> (\<exists>t. hex_decode (b64_std k) = Some t \<and> length t \<noteq> 32)"
    using hex_decode_even [of "b64_std k"] b64_std_length [of False k] assms
    by (cases "hex_decode (b64_std k)") auto
  moreover have "hex_decode (b64_raw_std k) = None"
    using hex_decode_even [of "b64_raw_std k"] b64_raw_length [of False k] assms
    by (cases "hex_decode (b64_raw_std k)") (auto, presburger)
  moreover have "b64_decode False True (b64_raw_std k) = None"
    using quads_pad_length [of False "b64_raw_std k"] b64_raw_length [of False k] assms
    by (cases "b64_decode False True (b64_raw_std k)") (auto simp: b64_decode_def b64_filter_id)
  moreover note rules = parseKey_def Let_def keySize_def trim_space_all_plain hex_encode_plain
    b64_encode_plain nonempty assms
  have "parseKey (hex_encode k) = Inr k" by (simp add: rules)
  moreover have "parseKey (b64_std k) = Inr k"
    using calculation(1) by (elim disjE exE conjE) (simp_all add: rules)
  moreover have "parseKey (b64_raw_std k) = Inr k" using calculation(2,3) by (simp add: rules)
  moreover have "parseKey (trim_space m) = parseKey m" by (simp add: parseKey_def)
  ultimately show ?thesis using parseKey_length by blast
qed

theorem parseKey_roundtrip_witness:
  "parseKey (hex_encode (replicate 32 CHR ''k'')) = Inr (replicate 32 CHR ''k'')"
  using parseKey_roundtrip [of "replicate 32 CHR ''k''" "[]"] by simp

section \<open>Envelopes\<close>

lemma envelope_decodes: "IsEnvelope (prefixV1 @ t) \<and> trim_prefix (prefixV1 @ t) prefixV1 = t"
  by (simp add: IsEnvelope_def)

text \<open>
  C30. Decrypting what was encrypted under the same key gives the text back, also when the text
  itself looks like an envelope; and a value that is not an envelope is returned unchanged by any
  crypter, nil included.
\<close>

theorem decrypt_encrypt:
  assumes "\<And>k n p. unseal k n (seal k n p) = Some p"
    and "Encrypt seal rnd c plaintext = Inr v"
  shows "IsEnvelope v \<and> Decrypt unseal c v = Inr plaintext
    \<and> (\<not> IsEnvelope u \<longrightarrow> Decrypt unseal c' u = Inr u)"
proof -
  from assms(2) obtain key where c: "c = Some key" and k: "length key = keySize"
    and v: "v = prefixV1 @ b64_raw_url (map (rnd_bytes rnd) [0..<nonceSize]
              @ seal key (map (rnd_bytes rnd) [0..<nonceSize]) plaintext)"
    by (auto simp: Encrypt_def Let_def split: option.splits if_splits)
  with assms(1) show ?thesis
    using envelope_decodes by (auto simp: Decrypt_def)
qed

text \<open>A toy cipher for examples: the nonce and the key are appended, and checked.\<close>

definition toy_seal :: "string \<Rightarrow> string \<Rightarrow> string \<Rightarrow> string" where
  "toy_seal k n p = n @ k @ p"

definition toy_open :: "string \<Rightarrow> string \<Rightarrow> string \<Rightarrow> string option" where
  "toy_open k n x = (if has_prefix x (n @ k) then Some (drop (length (n @ k)) x) else None)"

definition toy_random :: random where
  "toy_random = \<lparr>rnd_err = None, rnd_bytes = (\<lambda>i. CHR ''r'')\<rparr>"

lemma toy_open_seal: "toy_open k n (toy_seal k n p) = Some p"
  using has_prefix_append [of "n @ k" p] by (simp add: toy_open_def toy_seal_def)

lemma toy_open_only: "toy_open k n x = Some p \<Longrightarrow> x = toy_seal k n p"
  using has_prefix_take_drop [of x "n @ k"]
  by (auto simp: toy_open_def toy_seal_def split: if_splits)

definition toy_key :: string where
  "toy_key = replicate 32 CHR ''k''"

lemma toy_encrypts: "\<exists>v. Encrypt toy_seal toy_random (Some toy_key) p = Inr v"
  by (simp add: Encrypt_def toy_key_def keySize_def toy_random_def Let_def)

theorem decrypt_encrypt_witness:
  "\<exists>v. Encrypt toy_seal toy_random (Some toy_key) ''enc:v1:x'' = Inr v
     \<and> Decrypt toy_open (Some toy_key) v = Inr ''enc:v1:x''
     \<and> Decrypt toy_open None ''plain'' = Inr ''plain''"
proof -
  obtain v where v: "Encrypt toy_seal toy_random (Some toy_key) ''enc:v1:x'' = Inr v"
    using toy_encrypts by blast
  have "\<not> IsEnvelope ''plain''" by (simp add: IsEnvelope_def prefixV1_def)
  with decrypt_encrypt [OF toy_open_seal v] v show ?thesis by blast
qed

text \<open>
  No forged envelope is accepted: a crypter with a key returns a text for an envelope only if the
  envelope is the encoding of a nonce followed by that very text sealed under its key. (The
  hypothesis is what GCM promises: a text opens only if it was sealed.)
\<close>

theorem decrypt_only_sealed:
  assumes "\<And>k n x p. unseal k n x = Some p \<Longrightarrow> x = seal k n p"
    and "IsEnvelope v" and "Decrypt unseal c v = Inr plaintext"
  shows "\<exists>key nonce. c = Some key \<and> length key = 32 \<and> length nonce = 12
    \<and> b64_decode True False (drop 7 v) = Some (nonce @ seal key nonce plaintext)"
proof -
  from assms(2,3) obtain key raw where c: "c = Some key" "length key = keySize"
    and raw: "b64_decode True False (trim_prefix v prefixV1) = Some raw" "nonceSize \<le> length raw"
    and p: "unseal key (take nonceSize raw) (drop nonceSize raw) = Some plaintext"
    by (auto simp: Decrypt_def split: option.splits if_splits)
  have "raw = take nonceSize raw @ seal key (take nonceSize raw) plaintext"
    using assms(1) [OF p] by (metis append_take_drop_id)
  moreover have "trim_prefix v prefixV1 = drop 7 v"
    using assms(2) by (simp add: IsEnvelope_def trim_prefix_def prefixV1_def eval_nat_numeral)
  moreover have "length (take nonceSize raw) = 12" using raw(2) by (simp add: nonceSize_def)
  ultimately show ?thesis using c raw(1) unfolding keySize_def by metis
qed

theorem decrypt_only_sealed_witness:
  "\<exists>v key nonce. Encrypt toy_seal toy_random (Some toy_key) ''secret'' = Inr v
     \<and> b64_decode True False (drop 7 v) = Some (nonce @ toy_seal key nonce ''secret'')"
proof -
  obtain v where v: "Encrypt toy_seal toy_random (Some toy_key) ''secret'' = Inr v"
    using toy_encrypts by blast
  then obtain t where t: "v = prefixV1 @ t" and k: "length toy_key = keySize"
    by (auto simp: Encrypt_def Let_def split: if_splits option.splits)
  then have "IsEnvelope v" using envelope_decodes by blast
  moreover have "Decrypt toy_open (Some toy_key) v = Inr ''secret''"
    using v toy_open_seal envelope_decodes
    by (auto simp: Encrypt_def Decrypt_def Let_def split: if_splits option.splits)
  ultimately show ?thesis
    using decrypt_only_sealed [of toy_open toy_seal v "Some toy_key", OF toy_open_only] v by blast
qed

lemma hmac_equal_own:
  "HMACSHA256 hmac c msg = Inr d \<Longrightarrow> HMACEqual hmac c msg d = Inr True"
  by (auto simp: HMACEqual_def HMACSHA256_def trim_space_all_plain hex_encode_plain
      split: option.splits if_splits)

lemma hmac_equal_iff:
  "HMACEqual hmac (Some key) msg d = Inr b \<Longrightarrow>
     b \<longleftrightarrow> trim_space d = hex_encode (hmac key msg)"
  by (auto simp: HMACEqual_def HMACSHA256_def split: if_splits)

end
