(* ===== verification/JWKS.thy ===== *)
theory JWKS
  imports Go_Errors Encoding "HOL-Library.AList"
begin

text \<open>
  \<open>security/jwks\<close>: the cache of Ed25519 public keys (\<open>jwks.go\<close>) and the PEM files
  (\<open>keys.go\<close>).

  A map from key identifiers to keys is an association list, a public key its bytes. The world
  \<open>'w\<close> of a refresh holds the clock, in nanoseconds, and whatever the HTTP client touches;
  \<open>fetchedAt\<close> is \<open>None\<close> for the zero time. A cache is never nil here: \<open>Refresh\<close> answers for a nil
  cache as for an empty URL, and \<open>NewVerifier\<close> always sets one. The mutex \<open>mu\<close> makes each access
  of the fields one step; the steps of one call are given in their order.
\<close>

section \<open>Documents\<close>

record jwk =
  jk_Kty :: string
  jk_Crv :: string
  jk_Use :: string
  jk_Alg :: string
  jk_Kid :: string
  jk_X :: string

type_synonym key_map = "(string \<times> string) list"

definition PublicKeySize :: nat where
  "PublicKeySize = 32"

definition b64_error :: goerr where
  "b64_error = EText ''illegal base64 data''"

definition usable_jwk :: "jwk \<Rightarrow> bool" where
  "usable_jwk k \<longleftrightarrow>
     \<not> (\<not> equal_fold (jk_Kty k) ''OKP'' \<or> \<not> equal_fold (jk_Crv k) ''Ed25519'')
     \<and> \<not> (jk_Alg k \<noteq> [] \<and> \<not> equal_fold (jk_Alg k) ''EdDSA'')
     \<and> \<not> (jk_Kid k = [] \<or> jk_X k = [])"

fun parse_keys :: "jwk list \<Rightarrow> key_map \<Rightarrow> goerr + key_map" where
  "parse_keys [] out = Inr out"
| "parse_keys (k # ks) out =
     (if \<not> usable_jwk k then parse_keys ks out
      else case b64_decode True False (jk_X k) of
             None \<Rightarrow> Inl (EWrap (''jwk '' @ jk_Kid k @ '': invalid x: '') b64_error)
           | Some raw \<Rightarrow>
               if length raw \<noteq> PublicKeySize
               then Inl (EText (''jwk '' @ jk_Kid k @ '': invalid public key length''))
               else parse_keys ks (AList.update (jk_Kid k) raw out))"

definition Parse :: "jwk list \<Rightarrow> goerr + key_map" where
  "Parse doc =
     (case parse_keys doc [] of
        Inl e \<Rightarrow> Inl e
      | Inr out \<Rightarrow>
          if out = [] then Inl (EText ''jwks contains no usable Ed25519 keys'') else Inr out)"

definition Ed25519 :: "string \<Rightarrow> string \<Rightarrow> jwk" where
  "Ed25519 kid pub =
     \<lparr>jk_Kty = ''OKP'', jk_Crv = ''Ed25519'', jk_Use = ''sig'', jk_Alg = ''EdDSA'', jk_Kid = kid,
      jk_X = b64_raw_url pub\<rparr>"

section \<open>The cache\<close>

record cache =
  jc_url :: string
  jc_ttl :: int
  jc_keys :: key_map
  jc_fetchedAt :: "int option"
  jc_lastETag :: string

record http_response =
  rs_Status :: int
  rs_ETag :: string
  rs_Body :: string
  rs_ReadErr :: "goerr option"

text \<open>
  What a refresh calls: the clock, \<open>http.NewRequestWithContext\<close>, \<open>client.Do\<close> of a GET of the URL
  with an \<open>If-None-Match\<close> header if one is given, and \<open>json.Unmarshal\<close> into a \<open>Document\<close>.
\<close>

record 'w jwks_env =
  je_Now :: "'w \<Rightarrow> int"
  je_NewRequest :: "string \<Rightarrow> goerr option"
  je_Do :: "string \<Rightarrow> string option \<Rightarrow> 'w \<Rightarrow> (goerr + http_response) \<times> 'w"
  je_Unmarshal :: "string \<Rightarrow> goerr + jwk list"

text \<open>\<open>io.ReadAll(io.LimitReader(resp.Body, n))\<close>: an error past the limit is not seen.\<close>

definition read_limited :: "nat \<Rightarrow> http_response \<Rightarrow> string \<times> goerr option" where
  "read_limited n r = (take n (rs_Body r), if length (rs_Body r) < n then rs_ReadErr r else None)"

definition NewCache :: "string \<Rightarrow> int \<Rightarrow> cache" where
  "NewCache url ttl =
     \<lparr>jc_url = trim_space url, jc_ttl = (if ttl \<le> 0 then 15 * minute else ttl), jc_keys = [],
      jc_fetchedAt = None, jc_lastETag = []\<rparr>"

fun seed_keys :: "(string \<times> string) list \<Rightarrow> key_map \<Rightarrow> key_map" where
  "seed_keys [] m = m"
| "seed_keys ((kid, pk) # es) m =
     seed_keys es (if kid \<noteq> [] \<and> length pk = PublicKeySize then AList.update kid pk m else m)"

definition Seed :: "int \<Rightarrow> (string \<times> string) list \<Rightarrow> cache \<Rightarrow> cache" where
  "Seed now entries c =
     (let c' = c\<lparr>jc_keys := seed_keys entries (jc_keys c)\<rparr>
      in if length (jc_keys c') > 0 then c'\<lparr>jc_fetchedAt := Some now\<rparr> else c')"

definition Len :: "cache \<Rightarrow> nat" where
  "Len c = length (jc_keys c)"

definition Get :: "cache \<Rightarrow> string \<Rightarrow> string option" where
  "Get c kid = map_of (jc_keys c) kid"

definition Refresh :: "'w jwks_env \<Rightarrow> cache \<Rightarrow> 'w \<Rightarrow> goerr option \<times> cache \<times> 'w" where
  "Refresh env c w =
     (if jc_url c = [] then (Some (EText ''jwks url is empty''), c, w)
      else case je_NewRequest env (jc_url c) of
        Some e \<Rightarrow> (Some (EWrap ''jwks request: '' e), c, w)
      | None \<Rightarrow>
          (case je_Do env (jc_url c) (if jc_lastETag c \<noteq> [] then Some (jc_lastETag c) else None) w of
             (Inl e, w) \<Rightarrow> (Some (EWrap ''jwks fetch: '' e), c, w)
           | (Inr resp, w) \<Rightarrow>
               if rs_Status resp = 304
               then (None, c\<lparr>jc_fetchedAt := Some (je_Now env w)\<rparr>, w)
               else if rs_Status resp \<noteq> 200
               then (Some (EText (''jwks fetch: status '' @ itoa (rs_Status resp) @ '': ''
                             @ trim_space (fst (read_limited 2048 resp)))), c, w)
               else case read_limited (2 ^ 20) resp of
                 (raw, Some e) \<Rightarrow> (Some (EWrap ''jwks read: '' e), c, w)
               | (raw, None) \<Rightarrow>
                   (case je_Unmarshal env raw of
                      Inl e \<Rightarrow> (Some (EWrap ''jwks decode: '' e), c, w)
                    | Inr doc \<Rightarrow>
                        (case Parse doc of
                           Inl e \<Rightarrow> (Some e, c, w)
                         | Inr parsed \<Rightarrow>
                             (None,
                              c\<lparr>jc_keys := parsed, jc_fetchedAt := Some (je_Now env w),
                                jc_lastETag := (if rs_ETag resp \<noteq> [] then rs_ETag resp
                                                else jc_lastETag c)\<rparr>, w)))))"

definition stale :: "int \<Rightarrow> cache \<Rightarrow> bool" where
  "stale now c \<longleftrightarrow> (case jc_fetchedAt c of None \<Rightarrow> True | Some t \<Rightarrow> now - t > jc_ttl c)"

definition EnsureFresh :: "'w jwks_env \<Rightarrow> cache \<Rightarrow> 'w \<Rightarrow> goerr option \<times> cache \<times> 'w" where
  "EnsureFresh env c w =
     (let hasKeys = length (jc_keys c) > 0; hasRemote = jc_url c \<noteq> []
      in if hasKeys \<and> (\<not> stale (je_Now env w) c \<or> \<not> hasRemote) then (None, c, w)
         else Refresh env c w)"

definition Lookup :: "'w jwks_env \<Rightarrow> string \<Rightarrow> cache \<Rightarrow> 'w \<Rightarrow> (goerr + string) \<times> cache \<times> 'w" where
  "Lookup env kid c w =
     (if kid = [] then (Inl (EText ''missing kid''), c, w)
      else case Get c kid of
        Some pk \<Rightarrow> (Inr pk, c, w)
      | None \<Rightarrow>
          (case Refresh env c w of
             (Some err, c', w') \<Rightarrow>
               (case Get c' kid of Some pk \<Rightarrow> (Inr pk, c', w') | None \<Rightarrow> (Inl err, c', w'))
           | (None, c', w') \<Rightarrow>
               (case Get c' kid of
                  Some pk \<Rightarrow> (Inr pk, c', w')
                | None \<Rightarrow> (Inl (EText ''unknown kid''), c', w'))))"

section \<open>Invariant\<close>

definition keys_ok :: "key_map \<Rightarrow> bool" where
  "keys_ok m \<longleftrightarrow> distinct (map fst m) \<and> list_all (\<lambda>(kid, pk). kid \<noteq> [] \<and> length pk = 32) m"

lemma keys_ok_Nil [simp]: "keys_ok []"
  by (simp add: keys_ok_def)

lemma list_all_update: "list_all P m \<Longrightarrow> P (k, v) \<Longrightarrow> list_all P (AList.update k v m)"
  by (induction m) auto

lemma keys_ok_update:
  "keys_ok m \<Longrightarrow> kid \<noteq> [] \<Longrightarrow> length pk = 32 \<Longrightarrow> keys_ok (AList.update kid pk m)"
  by (simp add: keys_ok_def distinct_update list_all_update)

lemma parse_keys_ok: "parse_keys ks m = Inr m' \<Longrightarrow> keys_ok m \<Longrightarrow> keys_ok m'"
  by (induction ks arbitrary: m)
    (auto simp: keys_ok_update usable_jwk_def PublicKeySize_def split: if_splits option.splits)

lemma Parse_ok: "Parse doc = Inr m \<Longrightarrow> keys_ok m \<and> m \<noteq> []"
  by (auto simp: Parse_def parse_keys_ok split: sum.splits if_splits)

lemma seed_keys_ok: "keys_ok m \<Longrightarrow> keys_ok (seed_keys es m)"
  by (induction es m rule: seed_keys.induct) (auto simp: keys_ok_update PublicKeySize_def)

lemma seed_keys_grow: "m \<noteq> [] \<Longrightarrow> seed_keys es m \<noteq> []"
  by (induction es m rule: seed_keys.induct) auto

text \<open>What a refresh can do to the cache.\<close>

lemma Refresh_cases:
  assumes "Refresh env c w = (r, c', w')"
  shows "(r \<noteq> None \<and> c' = c)
    \<or> r = None \<and> jc_url c \<noteq> [] \<and> jc_url c' = jc_url c \<and> jc_ttl c' = jc_ttl c
        \<and> jc_fetchedAt c' = Some (je_Now env w')
        \<and> (jc_keys c' = jc_keys c \<or> (\<exists>raw doc. je_Unmarshal env raw = Inr doc
              \<and> Parse doc = Inr (jc_keys c')))"
  using assms
  by (auto simp: Refresh_def split: if_splits option.splits prod.splits sum.splits)

lemma Refresh_ok:
  assumes "Refresh env c w = (r, c', w')" and "keys_ok (jc_keys c)"
  shows "keys_ok (jc_keys c') \<and> (jc_keys c \<noteq> [] \<longrightarrow> jc_keys c' \<noteq> [])
    \<and> jc_url c' = jc_url c \<and> jc_ttl c' = jc_ttl c \<and> (r \<noteq> None \<longrightarrow> c' = c)"
  using Refresh_cases [OF assms(1)] assms(2) Parse_ok by (elim disjE conjE exE) force+

text \<open>One operation of the cache, on any world.\<close>

inductive cache_step :: "'w jwks_env \<Rightarrow> cache \<Rightarrow> cache \<Rightarrow> bool" for env where
  cs_seed: "cache_step env c (Seed now es c)"
| cs_refresh: "Refresh env c w = (r, c', w') \<Longrightarrow> cache_step env c c'"
| cs_fresh: "EnsureFresh env c w = (r, c', w') \<Longrightarrow> cache_step env c c'"
| cs_lookup: "Lookup env kid c w = (r, c', w') \<Longrightarrow> cache_step env c c'"

lemma EnsureFresh_refreshes:
  assumes "EnsureFresh env c w = (r, c', w')"
  shows "(r = None \<and> c' = c \<and> jc_keys c \<noteq> []) \<or> Refresh env c w = (r, c', w')"
  using assms by (auto simp: EnsureFresh_def Let_def split: if_splits)

lemma Lookup_refreshes:
  assumes "Lookup env kid c w = (r, c', w')"
  shows "c' = c \<or> (\<exists>r'. Refresh env c w = (r', c', w'))"
  using assms by (auto simp: Lookup_def split: if_splits option.splits prod.splits)

lemma cache_step_ok:
  "cache_step env c c' \<Longrightarrow> keys_ok (jc_keys c) \<Longrightarrow>
     keys_ok (jc_keys c') \<and> (jc_keys c \<noteq> [] \<longrightarrow> jc_keys c' \<noteq> [])"
proof (induction rule: cache_step.induct)
  case (cs_seed c now es)
  then show ?case
    using seed_keys_grow [of "jc_keys c" es] by (simp add: Seed_def Let_def seed_keys_ok)
next
  case (cs_refresh c w r c' w')
  from Refresh_ok [OF this(1,2)] show ?case by simp
next
  case (cs_fresh c w r c' w')
  from EnsureFresh_refreshes [OF this(1)] Refresh_ok [OF _ this(2)] this(2) show ?case by fastforce
next
  case (cs_lookup kid c w r c' w')
  from Lookup_refreshes [OF this(1)] Refresh_ok [OF _ this(2)] this(2) show ?case by fastforce
qed

definition cache_reaches :: "'w jwks_env \<Rightarrow> cache \<Rightarrow> cache \<Rightarrow> bool" where
  "cache_reaches env = (cache_step env)\<^sup>*\<^sup>*"

lemma cache_reaches_ok:
  assumes "cache_reaches env c c'" and "keys_ok (jc_keys c)"
  shows "keys_ok (jc_keys c') \<and> (jc_keys c \<noteq> [] \<longrightarrow> jc_keys c' \<noteq> [])"
  using assms unfolding cache_reaches_def
proof (induction rule: rtranclp_induct)
  case (step d e)
  then show ?case using cache_step_ok by blast
qed simp

lemma Lookup_Inr:
  assumes "Lookup env kid c w = (Inr pk, c', w')"
  shows "kid \<noteq> [] \<and> Get c' kid = Some pk"
  using assms by (auto simp: Lookup_def split: if_splits option.splits prod.splits)

lemma Get_length: "keys_ok (jc_keys c) \<Longrightarrow> Get c kid = Some pk \<Longrightarrow> length pk = 32 \<and> kid \<noteq> []"
  by (auto simp: Get_def keys_ok_def list_all_iff dest!: map_of_SomeD)

section \<open>Correctness\<close>

text \<open>
  C27. After any sequence of seeding, refreshing and looking up, whatever the server answers, the
  cache holds under each identifier one key of 32 bytes and no empty identifier, and a cache that
  had keys never loses all of them: a failed or malformed refresh cannot empty it.
\<close>

theorem cache_stays_usable:
  assumes "cache_reaches env (NewCache url ttl) c" and "cache_reaches env c c'"
  shows "keys_ok (jc_keys c') \<and> (Len c > 0 \<longrightarrow> Len c' > 0)"
proof -
  have "keys_ok (jc_keys (NewCache url ttl))" by (simp add: NewCache_def)
  from cache_reaches_ok [OF assms(1) this] have "keys_ok (jc_keys c)" ..
  from cache_reaches_ok [OF assms(2) this] show ?thesis by (simp add: Len_def)
qed

text \<open>A server for examples: it has one key for the first request and is broken afterwards.\<close>

definition demo_pub :: string where
  "demo_pub = replicate 32 CHR ''p''"

definition demo_jwks :: "nat jwks_env" where
  "demo_jwks =
     \<lparr>je_Now = (\<lambda>w. int w), je_NewRequest = (\<lambda>u. None),
      je_Do = (\<lambda>u e w. (if w = 0 then Inr \<lparr>rs_Status = 200, rs_ETag = ''e'', rs_Body = [], rs_ReadErr = None\<rparr>
                        else Inl (EText ''down''), Suc w)),
      je_Unmarshal = (\<lambda>raw. Inr [Ed25519 ''k1'' demo_pub])\<rparr>"

definition demo_cache :: cache where
  "demo_cache = (NewCache ''http://a'' 0)\<lparr>jc_keys := [(''k1'', demo_pub)],
     jc_fetchedAt := Some 1, jc_lastETag := ''e''\<rparr>"

lemma equal_fold_lit: "equal_fold ''OKP'' ''OKP'' \<and> equal_fold ''Ed25519'' ''Ed25519'' \<and> equal_fold ''EdDSA'' ''EdDSA''"
  by simp

lemma b64_nonempty: "s \<noteq> [] \<Longrightarrow> b64_encode url pad s \<noteq> []"
  by (induction url pad s rule: b64_encode.induct) (auto simp: Let_def)

lemma parse_one: "kid \<noteq> [] \<Longrightarrow> length pub = 32 \<Longrightarrow> usable_jwk (Ed25519 kid pub)"
  using b64_nonempty [of pub True False] by (cases pub) (auto simp: usable_jwk_def Ed25519_def)

lemma demo_refresh:
  "Refresh demo_jwks (NewCache ''http://a'' 0) 0 = (None, demo_cache, 1)"
  "Refresh demo_jwks demo_cache 1 = (Some (EWrap ''jwks fetch: '' (EText ''down'')), demo_cache, 2)"
proof -
  have u: "usable_jwk (Ed25519 ''k1'' demo_pub)" by (rule parse_one) (simp_all add: demo_pub_def)
  have "trim_space ''http://a'' = ''http://a''" by code_simp
  then show "Refresh demo_jwks (NewCache ''http://a'' 0) 0 = (None, demo_cache, 1)"
    "Refresh demo_jwks demo_cache 1 = (Some (EWrap ''jwks fetch: '' (EText ''down'')), demo_cache, 2)"
    using u by (simp_all add: Refresh_def NewCache_def demo_jwks_def read_limited_def Parse_def
        Ed25519_def demo_cache_def PublicKeySize_def demo_pub_def numeral_2_eq_2)
qed

theorem cache_stays_usable_witness:
  "keys_ok (jc_keys demo_cache) \<and> Len demo_cache > 0"
proof -
  have "cache_reaches demo_jwks (NewCache ''http://a'' 0) demo_cache" "cache_reaches demo_jwks demo_cache demo_cache"
    unfolding cache_reaches_def using demo_refresh by (blast intro: cs_refresh)+
  from cache_stays_usable [OF this] show ?thesis by (simp add: demo_cache_def Len_def)
qed

text \<open>
  A published document is read back: the JSON keys \<open>Ed25519\<close> makes of 32-byte public keys with
  distinct non-empty identifiers parse to exactly these keys.
\<close>

theorem parse_published:
  assumes "ks \<noteq> []" and "distinct (map fst ks)"
    and "\<forall>(kid, pub)\<in>set ks. kid \<noteq> [] \<and> length pub = 32"
  shows "\<exists>m. Parse (map (\<lambda>(kid, pub). Ed25519 kid pub) ks) = Inr m \<and> map_of m = map_of ks"
proof -
  have step: "parse_keys (map (\<lambda>(kid, pub). Ed25519 kid pub) ks) m = Inr (foldl (\<lambda>m (k, v). AList.update k v m) m ks)"
    if "\<forall>(kid, pub)\<in>set ks. kid \<noteq> [] \<and> length pub = 32" for m ks
    using that
  proof (induction ks arbitrary: m)
    case (Cons p ks)
    obtain kid pub where p: "p = (kid, pub)" by (cases p)
    with Cons.prems have "usable_jwk (Ed25519 kid pub)" using parse_one by auto
    with Cons p show ?case by (auto simp: Ed25519_def PublicKeySize_def)
  qed simp
  have "distinct (map fst ks) \<Longrightarrow> map_of (foldl (\<lambda>m (k, v). AList.update k v m) m ks) = map_of m ++ map_of ks"
    for m :: key_map
  proof (induction ks arbitrary: m)
    case (Cons p ks)
    obtain k v where p: "p = (k, v)" by (cases p)
    with Cons.prems have "map_of ks k = None" by (auto simp: map_of_eq_None_iff)
    with Cons p show ?case by (auto simp: update_conv' map_add_def fun_eq_iff split: option.splits)
  qed simp
  with assms(2) have map: "map_of (foldl (\<lambda>m (k, v). AList.update k v m) [] ks) = map_of ks" by simp
  have "foldl (\<lambda>m (k, v). AList.update k v m) [] ks \<noteq> []"
    using map assms(1) by (metis list.exhaust map_of.simps(1) map_of_eq_empty_iff)
  with map step [OF assms(3), of "[]"] show ?thesis by (auto simp: Parse_def)
qed

theorem parse_published_witness:
  "\<exists>m. Parse [Ed25519 ''k1'' demo_pub, Ed25519 ''k2'' demo_pub] = Inr m
     \<and> map_of m = map_of [(''k1'', demo_pub), (''k2'', demo_pub)]"
  using parse_published [of "[(''k1'', demo_pub), (''k2'', demo_pub)]"] by (simp add: demo_pub_def)

section \<open>PEM files\<close>

text \<open>
  The packages \<open>pem\<close> and \<open>x509\<close> and \<open>strconv.Quote\<close> are the record \<open>pem_env\<close>. A key that \<open>x509\<close>
  returns is an Ed25519 key, as its bytes, or one of another kind. A private key is its seed
  followed by the public key, so \<open>Public()\<close> is what follows the first 32 bytes.
\<close>

datatype parsed_key = KeyEd25519 string | KeyOther

record pem_env =
  pe_Decode :: "string \<Rightarrow> (string \<times> string) option"
  pe_Encode :: "string \<Rightarrow> string \<Rightarrow> string"
  pe_ParsePKCS8 :: "string \<Rightarrow> goerr + parsed_key"
  pe_ParsePKIX :: "string \<Rightarrow> goerr + parsed_key"
  pe_MarshalPKCS8 :: "string \<Rightarrow> goerr + string"
  pe_MarshalPKIX :: "string \<Rightarrow> goerr + string"
  pe_FromSeed :: "string \<Rightarrow> string"
  pe_Quote :: "string \<Rightarrow> string"
  pe_ReadFile :: "string \<Rightarrow> goerr + string"

definition PublicOf :: "string \<Rightarrow> string" where
  "PublicOf priv = drop 32 priv"

definition LoadEd25519PrivateKeyPEM :: "pem_env \<Rightarrow> string \<Rightarrow> goerr + (string \<times> string)" where
  "LoadEd25519PrivateKeyPEM env pemBytes =
     (case pe_Decode env pemBytes of
        None \<Rightarrow> Inl (EText ''invalid PEM: no block found'')
      | Some (typ, bytes) \<Rightarrow>
          if typ = ''PRIVATE KEY'' then
            (case pe_ParsePKCS8 env bytes of
               Inl err \<Rightarrow> Inl (EWrap ''parse pkcs8: '' err)
             | Inr (KeyEd25519 priv) \<Rightarrow> Inr (priv, PublicOf priv)
             | Inr KeyOther \<Rightarrow> Inl (EText ''pkcs8 key is not Ed25519''))
          else if typ = ''ED25519 PRIVATE KEY'' then
            (if length bytes = 64 then Inr (bytes, PublicOf bytes)
             else if length bytes = 32
             then (let priv = pe_FromSeed env bytes in Inr (priv, PublicOf priv))
             else Inl (EText ''invalid ED25519 PRIVATE KEY length''))
          else Inl (EText (''unsupported PEM type '' @ pe_Quote env typ)))"

definition LoadEd25519PrivateKeyFile :: "pem_env \<Rightarrow> string \<Rightarrow> goerr + (string \<times> string)" where
  "LoadEd25519PrivateKeyFile env path =
     (case pe_ReadFile env path of
        Inl err \<Rightarrow> Inl err
      | Inr raw \<Rightarrow> LoadEd25519PrivateKeyPEM env raw)"

definition LoadEd25519PublicKeyPEM :: "pem_env \<Rightarrow> string \<Rightarrow> goerr + string" where
  "LoadEd25519PublicKeyPEM env pemBytes =
     (case pe_Decode env pemBytes of
        None \<Rightarrow> Inl (EText ''invalid PEM: no block found'')
      | Some (typ, bytes) \<Rightarrow>
          if typ \<noteq> ''PUBLIC KEY'' then Inl (EText (''unsupported PEM type '' @ pe_Quote env typ))
          else (case pe_ParsePKIX env bytes of
                  Inl err \<Rightarrow> Inl (EWrap ''parse pkix: '' err)
                | Inr (KeyEd25519 pub) \<Rightarrow> Inr pub
                | Inr KeyOther \<Rightarrow> Inl (EText ''pkix key is not Ed25519'')))"

definition MarshalEd25519PrivateKeyPEM :: "pem_env \<Rightarrow> string \<Rightarrow> goerr + string" where
  "MarshalEd25519PrivateKeyPEM env priv =
     (case pe_MarshalPKCS8 env priv of
        Inl err \<Rightarrow> Inl err
      | Inr der \<Rightarrow> Inr (pe_Encode env ''PRIVATE KEY'' der))"

definition MarshalEd25519PublicKeyPEM :: "pem_env \<Rightarrow> string \<Rightarrow> goerr + string" where
  "MarshalEd25519PublicKeyPEM env pub =
     (case pe_MarshalPKIX env pub of
        Inl err \<Rightarrow> Inl err
      | Inr der \<Rightarrow> Inr (pe_Encode env ''PUBLIC KEY'' der))"

text \<open>What \<open>pem\<close> and \<open>x509\<close> promise: decoding inverts encoding.\<close>

definition pem_ok :: "pem_env \<Rightarrow> bool" where
  "pem_ok env \<longleftrightarrow>
     (\<forall>typ der. pe_Decode env (pe_Encode env typ der) = Some (typ, der))
     \<and> (\<forall>priv der. pe_MarshalPKCS8 env priv = Inr der \<longrightarrow> pe_ParsePKCS8 env der = Inr (KeyEd25519 priv))
     \<and> (\<forall>pub der. pe_MarshalPKIX env pub = Inr der \<longrightarrow> pe_ParsePKIX env der = Inr (KeyEd25519 pub))"

lemma pem_private_roundtrip:
  "pem_ok env \<Longrightarrow> MarshalEd25519PrivateKeyPEM env priv = Inr pem \<Longrightarrow>
     LoadEd25519PrivateKeyPEM env pem = Inr (priv, PublicOf priv)"
  by (auto simp: pem_ok_def MarshalEd25519PrivateKeyPEM_def LoadEd25519PrivateKeyPEM_def
      split: sum.splits)

lemma pem_public_roundtrip:
  "pem_ok env \<Longrightarrow> MarshalEd25519PublicKeyPEM env pub = Inr pem \<Longrightarrow>
     LoadEd25519PublicKeyPEM env pem = Inr pub"
  by (auto simp: pem_ok_def MarshalEd25519PublicKeyPEM_def LoadEd25519PublicKeyPEM_def
      split: sum.splits)

text \<open>The two loaders never take each other's files.\<close>

lemma pem_kinds_apart:
  assumes "pem_ok env"
  shows "MarshalEd25519PublicKeyPEM env pub = Inr pem \<Longrightarrow>
      LoadEd25519PrivateKeyPEM env pem = Inl (EText (''unsupported PEM type '' @ pe_Quote env ''PUBLIC KEY''))"
    and "MarshalEd25519PrivateKeyPEM env priv = Inr pem' \<Longrightarrow>
      LoadEd25519PublicKeyPEM env pem' = Inl (EText (''unsupported PEM type '' @ pe_Quote env ''PRIVATE KEY''))"
  using assms
  by (auto simp: pem_ok_def MarshalEd25519PublicKeyPEM_def LoadEd25519PublicKeyPEM_def
      MarshalEd25519PrivateKeyPEM_def LoadEd25519PrivateKeyPEM_def split: sum.splits)

section \<open>Key stores\<close>

text \<open>
  The contract the token verifiers rely on: an invariant that both operations keep, under which a
  key that a lookup returns is one the store holds for the identifier asked for.
\<close>

locale key_store =
  fixes good :: "'c \<Rightarrow> bool"
    and holds :: "'c \<Rightarrow> string \<Rightarrow> string \<Rightarrow> bool"
    and fresh :: "'c \<Rightarrow> 'w \<Rightarrow> goerr option \<times> 'c \<times> 'w"
    and lookup :: "string \<Rightarrow> 'c \<Rightarrow> 'w \<Rightarrow> (goerr + string) \<times> 'c \<times> 'w"
  assumes fresh_good: "good c \<Longrightarrow> fresh c w = (r, c', w') \<Longrightarrow> good c'"
    and lookup_good: "good c \<Longrightarrow> lookup kid c w = (k, c', w') \<Longrightarrow> good c'"
    and lookup_holds: "good c \<Longrightarrow> lookup kid c w = (Inr pk, c', w') \<Longrightarrow> holds c' kid pk"
    and holds_key: "good c \<Longrightarrow> holds c kid pk \<Longrightarrow> kid \<noteq> [] \<and> length pk = 32"

definition cache_good :: "cache \<Rightarrow> bool" where
  "cache_good c \<longleftrightarrow> keys_ok (jc_keys c)"

definition cache_holds :: "cache \<Rightarrow> string \<Rightarrow> string \<Rightarrow> bool" where
  "cache_holds c kid pk \<longleftrightarrow> Get c kid = Some pk"

interpretation jwks: key_store cache_good cache_holds "EnsureFresh env" "Lookup env" for env
proof unfold_locales
  fix c w r c' w' assume "cache_good c" "EnsureFresh env c w = (r, c', w')"
  then show "cache_good c'" unfolding cache_good_def using cache_step_ok cs_fresh by metis
next
  fix c kid w k c' w' assume "cache_good c" "Lookup env kid c w = (k, c', w')"
  then show "cache_good c'" unfolding cache_good_def using cache_step_ok cs_lookup by metis
next
  fix c kid w pk c' w' assume "Lookup env kid c w = (Inr pk, c', w')"
  then show "cache_holds c' kid pk" unfolding cache_holds_def using Lookup_Inr by metis
next
  fix c kid pk assume "cache_good c" "cache_holds c kid pk"
  then show "kid \<noteq> [] \<and> length pk = 32"
    using Get_length [of c kid pk] by (simp add: cache_good_def cache_holds_def)
qed

end
