(* ===== verification/Tokens.thy ===== *)
theory Tokens
  imports JWKS
begin

text \<open>
  What \<open>security/jwt\<close> and \<open>security/s2s\<close> share: bearer tokens, the interface of the library
  \<open>golang-jwt\<close>, and the key function both pass to it.

  The library is the record \<open>jwt_lib\<close>, an argument of every definition that uses it. A call of
  \<open>ParseWithClaims\<close> has two parts, with the call of the key function between them: \<open>jl_Before\<close>
  decodes the token and checks its algorithm against the valid methods, \<open>jl_After\<close> gets the key or
  the error of the key function, checks the signature and validates the claims at the time given.
  \<open>jwt_sound\<close> is what the library documents of a token it accepts.
\<close>

section \<open>Bearer tokens\<close>

definition trimBearer :: "string \<Rightarrow> string" where
  "trimBearer raw =
     (let raw = trim_space raw
      in if length raw \<ge> 7 \<and> equal_fold (take 7 raw) ''Bearer '' then trim_space (drop 7 raw)
         else raw)"

definition AuthorizationHeader :: "string \<Rightarrow> string" where
  "AuthorizationHeader token =
     (let token = trimBearer token in if token = [] then [] else ''Bearer '' @ token)"

lemma trimBearer_trimmed: "trim_space (trimBearer raw) = trimBearer raw"
  by (simp add: trimBearer_def Let_def)

section \<open>The library\<close>

record claims =
  rg_Issuer :: string
  rg_Subject :: string
  rg_Audience :: "string list"
  rg_ExpiresAt :: "int option"
  rg_NotBefore :: "int option"
  rg_IssuedAt :: "int option"

record 'cl token =
  tk_Alg :: string
  tk_Kid :: "string option"       \<comment> \<open>the header \<open>kid\<close> if it is a string\<close>
  tk_Claims :: 'cl
  tk_Valid :: bool

record parser_opts =
  po_Methods :: "string list"
  po_Issuer :: "string option"
  po_Audience :: "string option"
  po_Leeway :: int
  po_ExpirationRequired :: bool

record 'cl jwt_lib =
  jl_ParseUnverified :: "string \<Rightarrow> goerr + 'cl token"
  jl_Before :: "parser_opts \<Rightarrow> string \<Rightarrow> goerr + 'cl token"
  jl_After :: "int \<Rightarrow> parser_opts \<Rightarrow> string \<Rightarrow> goerr + string \<Rightarrow> goerr + 'cl token"

definition ParseWithClaims ::
    "'cl jwt_lib \<Rightarrow> ('w \<Rightarrow> int) \<Rightarrow> parser_opts \<Rightarrow> string
       \<Rightarrow> ('cl token \<Rightarrow> 'c \<Rightarrow> 'w \<Rightarrow> (goerr + string) \<times> 'c \<times> 'w) \<Rightarrow> 'c \<Rightarrow> 'w
       \<Rightarrow> (goerr + 'cl token) \<times> 'c \<times> 'w"
where
  "ParseWithClaims lib now opts raw keyfunc c w =
     (case jl_Before lib opts raw of
        Inl e \<Rightarrow> (Inl e, c, w)
      | Inr t \<Rightarrow>
          (case keyfunc t c w of (k, c', w') \<Rightarrow> (jl_After lib (now w') opts raw k, c', w')))"

text \<open>\<open>verifies alg key raw\<close>: the signature of \<open>raw\<close> verifies under \<open>key\<close>.\<close>

definition meets :: "int \<Rightarrow> parser_opts \<Rightarrow> 'a claims_scheme token \<Rightarrow> bool" where
  "meets now opts t \<longleftrightarrow>
     tk_Alg t \<in> set (po_Methods opts)
     \<and> pred_option (\<lambda>i. rg_Issuer (tk_Claims t) = i) (po_Issuer opts)
     \<and> pred_option (\<lambda>a. a \<in> set (rg_Audience (tk_Claims t))) (po_Audience opts)
     \<and> (po_ExpirationRequired opts \<longrightarrow>
          (\<exists>e. rg_ExpiresAt (tk_Claims t) = Some e \<and> now < e + po_Leeway opts))"

definition jwt_sound ::
    "(string \<Rightarrow> string \<Rightarrow> string \<Rightarrow> bool) \<Rightarrow> 'a claims_scheme jwt_lib \<Rightarrow> bool"
where
  "jwt_sound verifies lib \<longleftrightarrow>
     (\<forall>now opts raw k t. jl_After lib now opts raw k = Inr t \<longrightarrow>
        (\<exists>key. k = Inr key \<and> verifies (tk_Alg t) key raw) \<and> meets now opts t)"

definition jwt_is :: "jwt_sentinel \<Rightarrow> goerr \<Rightarrow> bool" where
  "jwt_is s e = err_is (\<lambda>e. case e of EJwt ss t \<Rightarrow> List.member ss s | _ \<Rightarrow> False) e"

section \<open>The key function\<close>

definition kid_of :: "'cl token \<Rightarrow> string" where
  "kid_of t = (case tk_Kid t of Some kid \<Rightarrow> kid | None \<Rightarrow> [])"

definition cache_keyfunc ::
    "(string \<Rightarrow> 'c \<Rightarrow> 'w \<Rightarrow> (goerr + string) \<times> 'c \<times> 'w)
       \<Rightarrow> 'cl token \<Rightarrow> 'c \<Rightarrow> 'w \<Rightarrow> (goerr + string) \<times> 'c \<times> 'w"
where
  "cache_keyfunc lookup t c w =
     (if kid_of t = [] then (Inl (EText ''missing kid''), c, w) else lookup (kid_of t) c w)"

context key_store
begin

lemma keyfunc_good:
  "good c \<Longrightarrow> cache_keyfunc lookup t c w = (k, c', w') \<Longrightarrow> good c'"
  using lookup_good by (auto simp: cache_keyfunc_def split: if_splits)

lemma keyfunc_holds:
  "good c \<Longrightarrow> cache_keyfunc lookup t c w = (Inr pk, c', w') \<Longrightarrow> holds c' (kid_of t) pk"
  using lookup_holds by (auto simp: cache_keyfunc_def split: if_splits)

lemma parse_good:
  "good c \<Longrightarrow> ParseWithClaims lib now opts raw (cache_keyfunc lookup) c w = (r, c', w') \<Longrightarrow> good c'"
  using keyfunc_good by (auto simp: ParseWithClaims_def split: sum.splits prod.splits)

text \<open>An accepted token is signed with a key the store holds, and meets the options.\<close>

lemma parse_trusted:
  assumes "good c" and "jwt_sound verifies lib"
    and "ParseWithClaims lib now opts raw (cache_keyfunc lookup) c w = (Inr t, c', w')"
  shows "\<exists>kid pk. holds c' kid pk \<and> verifies (tk_Alg t) pk raw \<and> length pk = 32
    \<and> meets (now w') opts t"
proof -
  from assms(3) obtain t0 k where "jl_Before lib opts raw = Inr t0"
    and kf: "cache_keyfunc lookup t0 c w = (k, c', w')"
    and after: "jl_After lib (now w') opts raw k = Inr t"
    by (auto simp: ParseWithClaims_def split: sum.splits prod.splits)
  from assms(2) after obtain pk where k: "k = Inr pk" "verifies (tk_Alg t) pk raw"
    and m: "meets (now w') opts t"
    unfolding jwt_sound_def by blast
  from keyfunc_holds [OF assms(1) kf [unfolded k(1)]] have "holds c' (kid_of t0) pk" .
  moreover from this keyfunc_good [OF assms(1) kf] have "length pk = 32" using holds_key by blast
  ultimately show ?thesis using k(2) m by blast
qed

end

section \<open>A library for examples\<close>

text \<open>It knows one token, whose signature under a key is \<open>t\<close> followed by the key.\<close>

definition toy_verifies :: "string \<Rightarrow> string \<Rightarrow> string \<Rightarrow> bool" where
  "toy_verifies alg key raw \<longleftrightarrow> raw = ''t'' @ key"

definition toy_lib :: "'a claims_scheme token \<Rightarrow> 'a claims_scheme jwt_lib" where
  "toy_lib tok =
     \<lparr>jl_ParseUnverified = (\<lambda>raw. Inr tok), jl_Before = (\<lambda>opts raw. Inr tok),
      jl_After = (\<lambda>now opts raw k. case k of
        Inl e \<Rightarrow> Inl e
      | Inr key \<Rightarrow> if toy_verifies (tk_Alg tok) key raw \<and> meets now opts tok then Inr tok
                   else Inl (EJwt [TokenSignatureInvalid] ''token signature is invalid''))\<rparr>"

lemma toy_lib_sound: "jwt_sound toy_verifies (toy_lib tok)"
  by (auto simp: jwt_sound_def toy_lib_def split: sum.splits if_splits)

definition toy_raw :: string where
  "toy_raw = ''Bearer t'' @ demo_pub"

lemma toy_raw_trim: "trimBearer toy_raw = ''t'' @ demo_pub"
  by code_simp

end
