(* ===== verification/JWT.thy ===== *)
theory JWT
  imports Tokens
begin

text \<open>
  \<open>security/jwt\<close>: the verifier of user tokens (\<open>verifier.go\<close>) and its claims (\<open>claims.go\<close>).

  A method on a nil \<open>*Verifier\<close> gets \<open>None\<close>. The claim \<open>user_id\<close> is any JSON value; a number is
  represented by its rendering with \<open>%.0f\<close>. The HTTP client of the configuration is in the
  environment of the cache.
\<close>

section \<open>Claims and configuration\<close>

definition TokenUseAccess :: string where "TokenUseAccess = ''access''"
definition TokenUseRefresh :: string where "TokenUseRefresh = ''refresh''"

record user_claims = claims +
  uc_UserID :: string
  uc_Roles :: "string list"
  uc_Permissions :: "string list"
  uc_FullAccess :: bool
  uc_TokenUse :: string

datatype json_value = JString string | JNumber string | JOther

record flexible_claims = claims +
  fc_UserID :: json_value
  fc_Roles :: "string list"
  fc_Permissions :: "string list"
  fc_FullAccess :: bool
  fc_TokenUse :: string

record jwt_config =
  jv_Issuer :: string
  jv_Audience :: string
  jv_JWKSURL :: string
  jv_JWKSCacheTTL :: int
  jv_StaticKeys :: "(string \<times> string) list"
  jv_Leeway :: int
  jv_RequiredTokenUse :: string
  jv_AllowLegacyHS256 :: bool
  jv_LegacyHS256Secret :: string

record jwt_verifier =
  jv_cfg :: jwt_config
  jv_cache :: cache

definition jwt_trim :: "jwt_config \<Rightarrow> jwt_config" where
  "jwt_trim cfg = cfg\<lparr>
     jv_Issuer := trim_space (jv_Issuer cfg), jv_Audience := trim_space (jv_Audience cfg),
     jv_JWKSURL := trim_space (jv_JWKSURL cfg),
     jv_LegacyHS256Secret := trim_space (jv_LegacyHS256Secret cfg)\<rparr>"

definition jwt_defaults :: "jwt_config \<Rightarrow> jwt_config" where
  "jwt_defaults cfg = cfg\<lparr>
     jv_LegacyHS256Secret := (if \<not> jv_AllowLegacyHS256 cfg then [] else jv_LegacyHS256Secret cfg),
     jv_Leeway := (if jv_Leeway cfg \<le> 0 then 30 * second else jv_Leeway cfg),
     jv_RequiredTokenUse := (if trim_space (jv_RequiredTokenUse cfg) = [] then TokenUseAccess
                             else jv_RequiredTokenUse cfg)\<rparr>"

definition jwt_NewVerifier :: "int \<Rightarrow> jwt_config \<Rightarrow> goerr + jwt_verifier" where
  "jwt_NewVerifier now cfg0 =
     (let cfg = jwt_trim cfg0
      in if jv_Issuer cfg = [] then Inl (EText ''jwt verifier: issuer is required'')
         else if jv_Audience cfg = [] then Inl (EText ''jwt verifier: audience is required'')
         else if jv_JWKSURL cfg = [] \<and> jv_StaticKeys cfg = []
         then Inl (EText ''jwt verifier: jwks URL or static keys required'')
         else if jv_AllowLegacyHS256 cfg \<and> jv_LegacyHS256Secret cfg = []
         then Inl (EText ''jwt verifier: legacy HS256 enabled but secret empty'')
         else let cfg = jwt_defaults cfg
              in Inr \<lparr>jv_cfg = cfg,
                      jv_cache = Seed now (jv_StaticKeys cfg)
                                   (NewCache (jv_JWKSURL cfg) (jv_JWKSCacheTTL cfg))\<rparr>)"

definition jwt_Ready :: "jwt_verifier option \<Rightarrow> bool" where
  "jwt_Ready v = (case v of None \<Rightarrow> False | Some v \<Rightarrow> Len (jv_cache v) > 0)"

definition jwt_Warm ::
    "'w jwks_env \<Rightarrow> jwt_verifier option \<Rightarrow> 'w \<Rightarrow> goerr option \<times> jwt_verifier option \<times> 'w"
where
  "jwt_Warm env v0 w =
     (case v0 of
        None \<Rightarrow> (Some (EText ''jwt verifier is nil''), None, w)
      | Some v \<Rightarrow>
          if jv_JWKSURL (jv_cfg v) = []
          then (if jwt_Ready v0 then None else Some (EText ''jwt verifier: no keys available''), v0, w)
          else (case Refresh env (jv_cache v) w of
                  (err, c, w') \<Rightarrow>
                    let v' = Some (v\<lparr>jv_cache := c\<rparr>)
                    in (if err \<noteq> None \<and> \<not> jwt_Ready v' then err else None, v', w')))"

section \<open>Verify\<close>

definition jwt_unauthenticated :: "string \<Rightarrow> goerr" where
  "jwt_unauthenticated msg = refusal ''security.jwt.Verify'' KindUnauthenticated msg"

definition mapJWTError :: "goerr \<Rightarrow> goerr" where
  "mapJWTError err =
     (if jwt_is TokenExpired err then jwt_unauthenticated ''token expired''
      else jwt_unauthenticated ''invalid token'')"

definition claimsFromToken :: "flexible_claims token \<Rightarrow> goerr + user_claims" where
  "claimsFromToken token =
     (let fc = tk_Claims token; invalid = Inl (jwt_unauthenticated ''invalid token'')
      in if \<not> tk_Valid token then invalid
         else case (case fc_UserID fc of JString s \<Rightarrow> Some s | JNumber s \<Rightarrow> Some s | JOther \<Rightarrow> None) of
                None \<Rightarrow> invalid
              | Some uid \<Rightarrow>
                  if trim_space uid = [] then invalid
                  else Inr \<lparr>rg_Issuer = rg_Issuer fc, rg_Subject = rg_Subject fc,
                            rg_Audience = rg_Audience fc, rg_ExpiresAt = rg_ExpiresAt fc,
                            rg_NotBefore = rg_NotBefore fc, rg_IssuedAt = rg_IssuedAt fc,
                            uc_UserID = uid, uc_Roles = fc_Roles fc,
                            uc_Permissions = fc_Permissions fc, uc_FullAccess = fc_FullAccess fc,
                            uc_TokenUse = trim_space (fc_TokenUse fc)\<rparr>)"

definition enforceTokenUse :: "jwt_config \<Rightarrow> goerr + user_claims \<Rightarrow> goerr + user_claims" where
  "enforceTokenUse cfg r =
     (case r of
        Inl err \<Rightarrow> Inl err
      | Inr cl \<Rightarrow>
          (let required = (if trim_space (jv_RequiredTokenUse cfg) \<noteq> []
                           then trim_space (jv_RequiredTokenUse cfg) else TokenUseAccess)
           in if uc_TokenUse cl \<noteq> required then Inl (jwt_unauthenticated ''invalid token use'')
              else Inr cl))"

definition jwt_opts :: "jwt_config \<Rightarrow> parser_opts" where
  "jwt_opts cfg =
     \<lparr>po_Methods = [''EdDSA''], po_Issuer = Some (jv_Issuer cfg),
      po_Audience = Some (jv_Audience cfg), po_Leeway = jv_Leeway cfg,
      po_ExpirationRequired = True\<rparr>"

definition verifyEdDSA ::
    "'w jwks_env \<Rightarrow> flexible_claims jwt_lib \<Rightarrow> jwt_config \<Rightarrow> string \<Rightarrow> cache \<Rightarrow> 'w
       \<Rightarrow> (goerr + user_claims) \<times> cache \<times> 'w"
where
  "verifyEdDSA env lib cfg raw c w =
     (case ParseWithClaims lib (je_Now env) (jwt_opts cfg) raw (cache_keyfunc (Lookup env)) c w of
        (Inl err, c', w') \<Rightarrow> (Inl (mapJWTError err), c', w')
      | (Inr t, c', w') \<Rightarrow> (enforceTokenUse cfg (claimsFromToken t), c', w'))"

definition legacy_opts :: "jwt_config \<Rightarrow> parser_opts" where
  "legacy_opts cfg =
     \<lparr>po_Methods = [''HS256''], po_Issuer = None, po_Audience = None, po_Leeway = jv_Leeway cfg,
      po_ExpirationRequired = True\<rparr>"

definition verifyLegacyHS256 ::
    "int \<Rightarrow> flexible_claims jwt_lib \<Rightarrow> jwt_config \<Rightarrow> string \<Rightarrow> goerr + user_claims"
where
  "verifyLegacyHS256 now lib cfg raw =
     (if \<not> jv_AllowLegacyHS256 cfg \<or> jv_LegacyHS256Secret cfg = []
      then Inl (jwt_unauthenticated ''invalid token'')
      else case ParseWithClaims lib (\<lambda>w. now) (legacy_opts cfg) raw
                  (\<lambda>t c w. (Inr (jv_LegacyHS256Secret cfg), c, w)) () () of
             (Inl err, c, w) \<Rightarrow> Inl (mapJWTError err)
           | (Inr t, c, w) \<Rightarrow> enforceTokenUse cfg (claimsFromToken t))"

definition jwt_Verify ::
    "'w jwks_env \<Rightarrow> flexible_claims jwt_lib \<Rightarrow> string \<Rightarrow> jwt_verifier option \<Rightarrow> 'w
       \<Rightarrow> (goerr + user_claims) \<times> jwt_verifier option \<times> 'w"
where
  "jwt_Verify env lib rawToken v0 w =
     (case v0 of
        None \<Rightarrow> (Inl (jwt_unauthenticated ''invalid token''), None, w)
      | Some v \<Rightarrow>
          (let raw = trimBearer rawToken; cfg = jv_cfg v
           in if raw = [] then (Inl (jwt_unauthenticated ''empty token''), v0, w)
              else case EnsureFresh env (jv_cache v) w of
                (_, c, w) \<Rightarrow>
                  (case jl_ParseUnverified lib raw of
                     Inl err \<Rightarrow> (Inl (jwt_unauthenticated ''invalid token''), Some (v\<lparr>jv_cache := c\<rparr>), w)
                   | Inr u \<Rightarrow>
                       if tk_Alg u = ''EdDSA'' then
                         (case verifyEdDSA env lib cfg raw c w of
                            (r, c', w') \<Rightarrow> (r, Some (v\<lparr>jv_cache := c'\<rparr>), w'))
                       else if tk_Alg u = ''HS256'' then
                         (verifyLegacyHS256 (je_Now env w) lib cfg raw, Some (v\<lparr>jv_cache := c\<rparr>), w)
                       else (Inl (jwt_unauthenticated ''invalid token''),
                             Some (v\<lparr>jv_cache := c\<rparr>), w))))"

definition ParseAccessToken :: "int \<Rightarrow> flexible_claims jwt_lib \<Rightarrow> string \<Rightarrow> string \<Rightarrow> goerr + user_claims" where
  "ParseAccessToken now lib rawToken secret =
     verifyLegacyHS256 now lib
       \<lparr>jv_Issuer = [], jv_Audience = [], jv_JWKSURL = [], jv_JWKSCacheTTL = 0, jv_StaticKeys = [],
        jv_Leeway = 30 * second, jv_RequiredTokenUse = [], jv_AllowLegacyHS256 = True,
        jv_LegacyHS256Secret = secret\<rparr>
       (trimBearer rawToken)"

section \<open>Acceptance and refusal\<close>

definition required_use :: "jwt_config \<Rightarrow> string" where
  "required_use cfg = (if trim_space (jv_RequiredTokenUse cfg) \<noteq> []
     then trim_space (jv_RequiredTokenUse cfg) else TokenUseAccess)"

lemma enforce_Inr:
  assumes "enforceTokenUse cfg (claimsFromToken t) = Inr cl"
  shows "trim_space (uc_UserID cl) \<noteq> [] \<and> uc_TokenUse cl = required_use cfg
    \<and> rg_Issuer cl = rg_Issuer (tk_Claims t) \<and> rg_Audience cl = rg_Audience (tk_Claims t)
    \<and> rg_ExpiresAt cl = rg_ExpiresAt (tk_Claims t)"
  using assms
  by (auto simp: enforceTokenUse_def claimsFromToken_def required_use_def Let_def
      split: sum.splits if_splits option.splits)

definition refusal_messages :: "string list" where
  "refusal_messages = [''empty token'', ''invalid token'', ''token expired'', ''invalid token use'']"

definition is_refusal :: "goerr \<Rightarrow> bool" where
  "is_refusal e \<longleftrightarrow> list_ex (\<lambda>m. e = jwt_unauthenticated m) refusal_messages"

lemma refusalI: "m \<in> set refusal_messages \<Longrightarrow> is_refusal (jwt_unauthenticated m)"
  by (auto simp: is_refusal_def list_ex_iff)

lemma refusal_intros [simp]:
  "is_refusal (jwt_unauthenticated ''empty token'')" "is_refusal (jwt_unauthenticated ''invalid token'')"
  "is_refusal (jwt_unauthenticated ''token expired'')"
  "is_refusal (jwt_unauthenticated ''invalid token use'')" "is_refusal (mapJWTError e)"
  by (auto simp: mapJWTError_def intro!: refusalI) (simp_all add: refusal_messages_def)

lemma enforce_Inl: "enforceTokenUse cfg (claimsFromToken t) = Inl e \<Longrightarrow> is_refusal e"
  by (auto simp: enforceTokenUse_def claimsFromToken_def Let_def split: sum.splits if_splits option.splits)

lemma verifyEdDSA_Inr:
  assumes "jwt_sound verifies lib" and "cache_good c"
    and "verifyEdDSA env lib cfg raw c w = (Inr cl, c', w')"
  shows "(\<exists>kid pk. cache_holds c' kid pk \<and> length pk = 32 \<and> verifies ''EdDSA'' pk raw)
    \<and> rg_Issuer cl = jv_Issuer cfg \<and> jv_Audience cfg \<in> set (rg_Audience cl)
    \<and> (\<exists>e. rg_ExpiresAt cl = Some e \<and> je_Now env w' < e + jv_Leeway cfg)
    \<and> trim_space (uc_UserID cl) \<noteq> [] \<and> uc_TokenUse cl = required_use cfg"
proof -
  from assms(3) obtain t where
    p: "ParseWithClaims lib (je_Now env) (jwt_opts cfg) raw (cache_keyfunc (Lookup env)) c w
          = (Inr t, c', w')" and e: "enforceTokenUse cfg (claimsFromToken t) = Inr cl"
    by (auto simp: verifyEdDSA_def split: prod.splits sum.splits)
  from jwks.parse_trusted [OF assms(2,1) p] obtain kid pk where
    k: "cache_holds c' kid pk" "verifies (tk_Alg t) pk raw" "length pk = 32"
    and m: "meets (je_Now env w') (jwt_opts cfg) t" by blast
  from m have "tk_Alg t = ''EdDSA''" by (simp add: meets_def jwt_opts_def)
  with k have "\<exists>kid pk. cache_holds c' kid pk \<and> length pk = 32 \<and> verifies ''EdDSA'' pk raw" by metis
  with m enforce_Inr [OF e] show ?thesis by (simp add: meets_def jwt_opts_def)
qed

lemma verifyEdDSA_good:
  assumes "cache_good c" and "verifyEdDSA env lib cfg raw c w = (r, c', w')"
  shows "cache_good c'"
proof -
  from assms(2) obtain q where
    "ParseWithClaims lib (je_Now env) (jwt_opts cfg) raw (cache_keyfunc (Lookup env)) c w = (q, c', w')"
    by (auto simp: verifyEdDSA_def split: prod.splits sum.splits)
  from jwks.parse_good [OF assms(1) this] show ?thesis .
qed

lemma verifyLegacy_Inr:
  assumes "jwt_sound verifies lib" and "verifyLegacyHS256 now lib cfg raw = Inr cl"
  shows "jv_AllowLegacyHS256 cfg \<and> jv_LegacyHS256Secret cfg \<noteq> []
    \<and> verifies ''HS256'' (jv_LegacyHS256Secret cfg) raw
    \<and> (\<exists>e. rg_ExpiresAt cl = Some e \<and> now < e + jv_Leeway cfg)
    \<and> trim_space (uc_UserID cl) \<noteq> [] \<and> uc_TokenUse cl = required_use cfg"
proof -
  from assms(2) obtain t where a: "jv_AllowLegacyHS256 cfg" "jv_LegacyHS256Secret cfg \<noteq> []"
    and t: "jl_After lib now (legacy_opts cfg) raw (Inr (jv_LegacyHS256Secret cfg)) = Inr t"
    and e: "enforceTokenUse cfg (claimsFromToken t) = Inr cl"
    by (auto simp: verifyLegacyHS256_def ParseWithClaims_def split: if_splits prod.splits sum.splits)
  from assms(1) t have "verifies (tk_Alg t) (jv_LegacyHS256Secret cfg) raw \<and> meets now (legacy_opts cfg) t"
    unfolding jwt_sound_def by blast
  with enforce_Inr [OF e] a show ?thesis by (auto simp: meets_def legacy_opts_def)
qed

lemma Verify_cases:
  assumes "jwt_Verify env lib rawToken (Some v) w = (r, v', w')"
  shows "(\<exists>e. r = Inl e \<and> is_refusal e \<and> (v' = Some v \<or> (\<exists>q c w1. EnsureFresh env (jv_cache v) w = (q, c, w1)
            \<and> v' = Some (v\<lparr>jv_cache := c\<rparr>))))
    \<or> (\<exists>q c w1 c'. EnsureFresh env (jv_cache v) w = (q, c, w1)
        \<and> verifyEdDSA env lib (jv_cfg v) (trimBearer rawToken) c w1 = (r, c', w')
        \<and> v' = Some (v\<lparr>jv_cache := c'\<rparr>))
    \<or> (\<exists>q c. EnsureFresh env (jv_cache v) w = (q, c, w')
        \<and> r = verifyLegacyHS256 (je_Now env w') lib (jv_cfg v) (trimBearer rawToken)
        \<and> v' = Some (v\<lparr>jv_cache := c\<rparr>))"
  using assms by (auto simp: jwt_Verify_def Let_def split: if_splits prod.splits sum.splits)

lemma verify_refuses:
  assumes "jwt_Verify env lib rawToken v w = (Inl e, v', w')"
  shows "is_refusal e"
proof (cases v)
  case None
  with assms show ?thesis by (auto simp: jwt_Verify_def)
next
  case (Some u)
  have "verifyEdDSA env lib cfg raw c w = (Inl e, c', w') \<Longrightarrow> is_refusal e" for cfg raw c w c' w'
    by (auto simp: verifyEdDSA_def enforce_Inl split: prod.splits sum.splits)
  moreover have "verifyLegacyHS256 now lib cfg raw = Inl e \<Longrightarrow> is_refusal e" for now cfg raw
    by (auto simp: verifyLegacyHS256_def enforce_Inl split: if_splits prod.splits sum.splits)
  ultimately show ?thesis using Verify_cases [OF assms [unfolded Some]] by fastforce
qed

lemma verify_accepts:
  assumes "jwt_sound verifies lib" and "cache_good (jv_cache v)"
    and "jwt_Verify env lib rawToken (Some v) w = (Inr cl, v', w')"
  shows "trim_space (uc_UserID cl) \<noteq> [] \<and> uc_TokenUse cl = required_use (jv_cfg v)
    \<and> (\<exists>e. rg_ExpiresAt cl = Some e \<and> je_Now env w' < e + jv_Leeway (jv_cfg v))
    \<and> ((\<exists>v1 kid pk. v' = Some v1 \<and> cache_good (jv_cache v1) \<and> cache_holds (jv_cache v1) kid pk
          \<and> length pk = 32 \<and> verifies ''EdDSA'' pk (trimBearer rawToken)
          \<and> rg_Issuer cl = jv_Issuer (jv_cfg v) \<and> jv_Audience (jv_cfg v) \<in> set (rg_Audience cl))
       \<or> (jv_AllowLegacyHS256 (jv_cfg v) \<and> jv_LegacyHS256Secret (jv_cfg v) \<noteq> []
          \<and> verifies ''HS256'' (jv_LegacyHS256Secret (jv_cfg v)) (trimBearer rawToken)))"
  using Verify_cases [OF assms(3)]
proof (elim disjE exE conjE)
  fix q c w1 c'
  assume fresh: "EnsureFresh env (jv_cache v) w = (q, c, w1)"
    and ver: "verifyEdDSA env lib (jv_cfg v) (trimBearer rawToken) c w1 = (Inr cl, c', w')"
    and v': "v' = Some (v\<lparr>jv_cache := c'\<rparr>)"
  have good: "cache_good c" using jwks.fresh_good [OF assms(2) fresh] .
  from verifyEdDSA_Inr [OF assms(1) good ver] verifyEdDSA_good [OF good ver] v'
  show ?thesis by auto
next
  fix q c
  assume "Inr cl = verifyLegacyHS256 (je_Now env w') lib (jv_cfg v) (trimBearer rawToken)"
  from verifyLegacy_Inr [OF assms(1) this [symmetric]] show ?thesis by blast
qed simp_all

lemma new_verifier_good:
  "jwt_NewVerifier now cfg = Inr v \<Longrightarrow> cache_good (jv_cache v) \<and> 0 < jv_Leeway (jv_cfg v)
     \<and> (jv_LegacyHS256Secret (jv_cfg v) \<noteq> [] \<longleftrightarrow> jv_AllowLegacyHS256 cfg)
     \<and> (jv_AllowLegacyHS256 (jv_cfg v) = jv_AllowLegacyHS256 cfg)"
  by (auto simp: jwt_NewVerifier_def Let_def jwt_defaults_def jwt_trim_def cache_good_def Seed_def
      NewCache_def seed_keys_ok duration_defs split: if_splits)

text \<open>
  C15. A user token is accepted only if it is trustworthy. Given a sound library, \<open>Verify\<close> returns
  claims only for a token that has not expired (beyond the leeway), is meant for the required use
  and names a user; and whose EdDSA signature verifies under a 32-byte key the JWKS cache holds
  for its key identifier, with the configured issuer and audience. Only a verifier created with
  \<open>AllowLegacyHS256\<close> also accepts a token signed with the shared secret.
\<close>

theorem jwt_verify_accepts:
  assumes "jwt_sound verifies lib" and "jwt_NewVerifier now cfg = Inr v0"
    and "jv_cfg v = jv_cfg v0" and "cache_reaches env (jv_cache v0) (jv_cache v)"
    and "jwt_Verify env lib rawToken (Some v) w = (Inr cl, v', w')"
  shows "trim_space (uc_UserID cl) \<noteq> [] \<and> uc_TokenUse cl = required_use (jv_cfg v)
    \<and> (\<exists>e. rg_ExpiresAt cl = Some e \<and> je_Now env w' < e + jv_Leeway (jv_cfg v))
    \<and> ((\<exists>v1 kid pk. v' = Some v1 \<and> cache_holds (jv_cache v1) kid pk
          \<and> length pk = 32 \<and> verifies ''EdDSA'' pk (trimBearer rawToken)
          \<and> rg_Issuer cl = jv_Issuer (jv_cfg v) \<and> jv_Audience (jv_cfg v) \<in> set (rg_Audience cl))
       \<or> (jv_AllowLegacyHS256 cfg
          \<and> verifies ''HS256'' (jv_LegacyHS256Secret (jv_cfg v)) (trimBearer rawToken)))"
proof -
  from new_verifier_good [OF assms(2)] have "cache_good (jv_cache v0)"
    and legacy: "jv_AllowLegacyHS256 (jv_cfg v) \<Longrightarrow> jv_AllowLegacyHS256 cfg"
    using assms(3) by auto
  then have "cache_good (jv_cache v)"
    using cache_reaches_ok [OF assms(4)] by (simp add: cache_good_def)
  from verify_accepts [OF assms(1) this assms(5)] legacy show ?thesis by blast
qed

definition demo_jwt_cfg :: jwt_config where
  "demo_jwt_cfg =
     \<lparr>jv_Issuer = ''iss'', jv_Audience = ''aud'', jv_JWKSURL = [], jv_JWKSCacheTTL = 0,
      jv_StaticKeys = [(''k1'', demo_pub)], jv_Leeway = 30, jv_RequiredTokenUse = ''access'',
      jv_AllowLegacyHS256 = False, jv_LegacyHS256Secret = []\<rparr>"

definition demo_flex :: flexible_claims where
  "demo_flex =
     \<lparr>rg_Issuer = ''iss'', rg_Subject = ''s'', rg_Audience = [''aud''], rg_ExpiresAt = Some 100,
      rg_NotBefore = None, rg_IssuedAt = None, fc_UserID = JNumber ''7'', fc_Roles = [''admin''],
      fc_Permissions = [], fc_FullAccess = False, fc_TokenUse = ''access''\<rparr>"

definition demo_token :: "flexible_claims token" where
  "demo_token = \<lparr>tk_Alg = ''EdDSA'', tk_Kid = Some ''k1'', tk_Claims = demo_flex, tk_Valid = True\<rparr>"

definition demo_jwt_verifier :: jwt_verifier where
  "demo_jwt_verifier =
     \<lparr>jv_cfg = demo_jwt_cfg,
      jv_cache = (NewCache [] 0)\<lparr>jc_keys := [(''k1'', demo_pub)], jc_fetchedAt := Some 5\<rparr>\<rparr>"

lemma demo_trims:
  "trim_space ''iss'' = ''iss''" "trim_space ''aud'' = ''aud''" "trim_space ''access'' = ''access''"
  "trim_space ''7'' = ''7''"
  by code_simp+

lemma demo_new: "jwt_NewVerifier 5 demo_jwt_cfg = Inr demo_jwt_verifier"
  by (simp add: jwt_NewVerifier_def jwt_trim_def jwt_defaults_def demo_jwt_cfg_def demo_trims
      demo_jwt_verifier_def Seed_def NewCache_def PublicKeySize_def demo_pub_def)

lemma demo_verify:
  "\<exists>cl. jwt_Verify demo_jwks (toy_lib demo_token) toy_raw (Some demo_jwt_verifier) 1
     = (Inr cl, Some demo_jwt_verifier, 1) \<and> uc_UserID cl = ''7''"
proof -
  have fresh: "EnsureFresh demo_jwks (jv_cache demo_jwt_verifier) 1 = (None, jv_cache demo_jwt_verifier, 1)"
    by (simp add: EnsureFresh_def demo_jwt_verifier_def NewCache_def)
  have look: "cache_keyfunc (Lookup demo_jwks) demo_token (jv_cache demo_jwt_verifier) 1
      = (Inr demo_pub, jv_cache demo_jwt_verifier, 1)"
    by (simp add: cache_keyfunc_def kid_of_def demo_token_def Lookup_def Get_def demo_jwt_verifier_def)
  have tok: "tk_Alg demo_token = ''EdDSA''" "tk_Claims demo_token = demo_flex" "tk_Valid demo_token"
    by (simp_all add: demo_token_def)
  have "meets 1 (jwt_opts demo_jwt_cfg) demo_token"
    by (simp add: meets_def jwt_opts_def tok demo_flex_def demo_jwt_cfg_def)
  moreover have "je_Now demo_jwks 1 = 1" "jv_cfg demo_jwt_verifier = demo_jwt_cfg"
    by (simp_all add: demo_jwks_def demo_jwt_verifier_def)
  ultimately have parse: "ParseWithClaims (toy_lib demo_token) (je_Now demo_jwks)
      (jwt_opts (jv_cfg demo_jwt_verifier)) (''t'' @ demo_pub) (cache_keyfunc (Lookup demo_jwks))
      (jv_cache demo_jwt_verifier) 1 = (Inr demo_token, jv_cache demo_jwt_verifier, 1)"
    using look by (simp add: ParseWithClaims_def toy_lib_def toy_verifies_def)
  obtain cl where cl: "enforceTokenUse (jv_cfg demo_jwt_verifier) (claimsFromToken demo_token) = Inr cl"
    "uc_UserID cl = ''7''"
    by (simp add: enforceTokenUse_def claimsFromToken_def tok demo_flex_def demo_jwt_verifier_def
        demo_jwt_cfg_def demo_trims Let_def)
  have "jl_ParseUnverified (toy_lib demo_token) (''t'' @ demo_pub) = Inr demo_token"
    by (simp add: toy_lib_def)
  then show ?thesis
    using cl parse tok(1) fresh
    by (simp add: jwt_Verify_def toy_raw_trim verifyEdDSA_def Let_def)
qed

theorem jwt_verify_accepts_witness:
  "\<exists>cl v1 kid pk. jwt_Verify demo_jwks (toy_lib demo_token) toy_raw (Some demo_jwt_verifier) 1
      = (Inr cl, Some v1, 1)
    \<and> uc_UserID cl = ''7'' \<and> uc_TokenUse cl = required_use demo_jwt_cfg
    \<and> cache_holds (jv_cache v1) kid pk \<and> toy_verifies ''EdDSA'' pk (trimBearer toy_raw)"
proof -
  obtain cl where v: "jwt_Verify demo_jwks (toy_lib demo_token) toy_raw (Some demo_jwt_verifier) 1
     = (Inr cl, Some demo_jwt_verifier, 1)" and uid: "uc_UserID cl = ''7''"
    using demo_verify by blast
  have r: "cache_reaches demo_jwks (jv_cache demo_jwt_verifier) (jv_cache demo_jwt_verifier)"
    by (simp add: cache_reaches_def)
  have "jv_cfg demo_jwt_verifier = demo_jwt_cfg" "\<not> jv_AllowLegacyHS256 demo_jwt_cfg"
    by (simp_all add: demo_jwt_verifier_def demo_jwt_cfg_def)
  with jwt_verify_accepts [OF toy_lib_sound demo_new refl r v] v uid show ?thesis by auto
qed

end
