(* ===== verification/Logger.thy ===== *)
theory Logger
  imports HTTP_Errors
begin

text \<open>
  \<open>observability/logger\<close>: the process-wide logger (\<open>logger.go\<close>), what a context adds to an entry
  (\<open>context.go\<close>) and \<open>ErrorWithCode\<close> (\<open>error.go\<close>).

  The global variables are the record \<open>logger_state\<close>, with the entries the JSON handler was given
  at an enabled level; the handler's output format is that of \<open>log/slog\<close>. Attribute lists are flat,
  as in Go: keys and values alternate. A context is the record \<open>obs_ctx\<close> of the values that the
  packages of this repository store under their own keys; \<open>context.WithValue\<close> sets one of them.
  A nil context is \<open>None\<close>. The span context of OpenTelemetry is \<open>Some\<close> when it is valid.
\<close>

section \<open>Contexts\<close>

record identity =
  id_Subject :: string
  id_Audience :: "string list"
  id_Scopes :: "string list"

record obs_ctx =
  cx_request_id :: string
  cx_span :: "(string \<times> string) option"
  cx_extra :: "log_val list"
  cx_operation :: string
  cx_http_operation :: string
  cx_event_type :: string
  cx_identity :: "identity option"

definition background :: obs_ctx where
  "background =
     \<lparr>cx_request_id = [], cx_span = None, cx_extra = [], cx_operation = [], cx_http_operation = [],
      cx_event_type = [], cx_identity = None\<rparr>"

definition or_background :: "obs_ctx option \<Rightarrow> obs_ctx" where
  "or_background ctx = (case ctx of None \<Rightarrow> background | Some c \<Rightarrow> c)"

definition ContextWithRequestID :: "obs_ctx option \<Rightarrow> string \<Rightarrow> obs_ctx" where
  "ContextWithRequestID ctx requestID =
     (let c = or_background ctx
      in if requestID = [] then c else c\<lparr>cx_request_id := requestID\<rparr>)"

definition RequestIDFromContext :: "obs_ctx option \<Rightarrow> string" where
  "RequestIDFromContext ctx = (case ctx of None \<Rightarrow> [] | Some c \<Rightarrow> cx_request_id c)"

definition log_With :: "obs_ctx option \<Rightarrow> log_val list \<Rightarrow> obs_ctx" where
  "log_With ctx args =
     (let c = or_background ctx
      in if args = [] then c else c\<lparr>cx_extra := cx_extra c @ args\<rparr>)"

fun drop_trace_id :: "log_val list \<Rightarrow> log_val list" where
  "drop_trace_id (k # v # rest) =
     (if k = LStr ''trace_id'' then drop_trace_id rest else k # v # drop_trace_id rest)"
| "drop_trace_id _ = []"

definition contextAttrs :: "obs_ctx \<Rightarrow> log_val list" where
  "contextAttrs c =
     (let rid = RequestIDFromContext (Some c)
      in (if rid \<noteq> [] then [LStr ''request_id'', LStr rid] else [])
         @ (case cx_span c of
              Some (t, s) \<Rightarrow>
                [LStr ''trace_id'', LStr t, LStr ''span_id'', LStr s] @ drop_trace_id (cx_extra c)
            | None \<Rightarrow> cx_extra c))"

section \<open>The process logger\<close>

datatype slog_level = Debug | Info | Warn | Error

fun slog_rank :: "slog_level \<Rightarrow> int" where
  "slog_rank Debug = -4"
| "slog_rank Info = 0"
| "slog_rank Warn = 4"
| "slog_rank Error = 8"

record log_config =
  lc_Service :: string
  lc_Environment :: string
  lc_Component :: string
  lc_Level :: string

record logger_state =
  lg_inited :: bool
  lg_cfg :: log_config
  lg_level :: slog_level
  lg_attrs :: "log_val list"
  lg_out :: "(slog_level \<times> string \<times> log_val list) list"

definition parseLevel :: "string \<Rightarrow> slog_level" where
  "parseLevel level =
     (let l = to_lower (trim_space level)
      in if l = ''debug'' then Debug
         else if l = ''warn'' \<or> l = ''warning'' then Warn
         else if l = ''error'' then Error
         else Info)"

definition envOr :: "(string \<Rightarrow> string) \<Rightarrow> string \<Rightarrow> string \<Rightarrow> string" where
  "envOr getenv key fallback =
     (let v = trim_space (getenv key) in if v \<noteq> [] then v else fallback)"

definition init_config :: "(string \<Rightarrow> string) \<Rightarrow> log_config \<Rightarrow> log_config" where
  "init_config getenv c =
     \<lparr>lc_Service = (if lc_Service c = [] then envOr getenv ''SERVICE_NAME'' ''unknown-service''
                    else lc_Service c),
      lc_Environment =
        (if lc_Environment c = []
         then envOr getenv ''ENVIRONMENT'' (envOr getenv ''APP_ENV'' ''development'')
         else lc_Environment c),
      lc_Component = (if lc_Component c = [] then getenv ''COMPONENT'' else lc_Component c),
      lc_Level = (if lc_Level c = [] then ''info'' else lc_Level c)\<rparr>"

definition log_Init :: "(string \<Rightarrow> string) \<Rightarrow> log_config \<Rightarrow> logger_state \<Rightarrow> logger_state" where
  "log_Init getenv c0 s =
     (let c = init_config getenv c0
      in s\<lparr>lg_inited := True, lg_cfg := c, lg_level := parseLevel (lc_Level c),
           lg_attrs := [LStr ''service'', LStr (lc_Service c),
                        LStr ''environment'', LStr (lc_Environment c)]
             @ (if lc_Component c \<noteq> [] then [LStr ''component'', LStr (lc_Component c)] else [])\<rparr>)"

definition empty_log_config :: log_config where
  "empty_log_config = \<lparr>lc_Service = [], lc_Environment = [], lc_Component = [], lc_Level = []\<rparr>"

text \<open>\<open>L()\<close> initialises the logger if nobody did.\<close>

definition log_L :: "(string \<Rightarrow> string) \<Rightarrow> logger_state \<Rightarrow> logger_state" where
  "log_L getenv s = (if lg_inited s then s else log_Init getenv empty_log_config s)"

text \<open>The attributes of the logger \<open>FromContext\<close> returns, after those of the process logger.\<close>

definition FromContext :: "obs_ctx option \<Rightarrow> log_val list" where
  "FromContext ctx = (case ctx of None \<Rightarrow> [] | Some c \<Rightarrow> contextAttrs c)"

definition log_at ::
    "(string \<Rightarrow> string) \<Rightarrow> slog_level \<Rightarrow> obs_ctx option \<Rightarrow> string \<Rightarrow> log_val list
       \<Rightarrow> logger_state \<Rightarrow> logger_state"
where
  "log_at getenv level ctx msg args s0 =
     (let s = log_L getenv s0
      in if slog_rank (lg_level s) \<le> slog_rank level
         then s\<lparr>lg_out := lg_out s @ [(level, msg, lg_attrs s @ FromContext ctx @ args)]\<rparr>
         else s)"

definition log_Debug :: "(string \<Rightarrow> string) \<Rightarrow> obs_ctx option \<Rightarrow> string \<Rightarrow> log_val list \<Rightarrow> logger_state \<Rightarrow> logger_state" where
  "log_Debug getenv = log_at getenv Debug"

definition log_Info :: "(string \<Rightarrow> string) \<Rightarrow> obs_ctx option \<Rightarrow> string \<Rightarrow> log_val list \<Rightarrow> logger_state \<Rightarrow> logger_state" where
  "log_Info getenv = log_at getenv Info"

definition log_Warn :: "(string \<Rightarrow> string) \<Rightarrow> obs_ctx option \<Rightarrow> string \<Rightarrow> log_val list \<Rightarrow> logger_state \<Rightarrow> logger_state" where
  "log_Warn getenv = log_at getenv Warn"

definition log_Error :: "(string \<Rightarrow> string) \<Rightarrow> obs_ctx option \<Rightarrow> string \<Rightarrow> log_val list \<Rightarrow> logger_state \<Rightarrow> logger_state" where
  "log_Error getenv = log_at getenv Error"

definition ErrorWithCode ::
    "(string \<Rightarrow> string) \<Rightarrow> obs_ctx option \<Rightarrow> string \<Rightarrow> goerr option \<Rightarrow> string \<Rightarrow> log_val list
       \<Rightarrow> logger_state \<Rightarrow> logger_state"
where
  "ErrorWithCode getenv ctx msg err code args =
     log_Error getenv ctx msg
       (args @ (if code \<noteq> [] then [LStr ''error_code'', LStr code] else [])
             @ (case err of None \<Rightarrow> [] | Some e \<Rightarrow> [LStr ''error'', LStr (err_text e)]))"

definition log_Service :: "logger_state \<Rightarrow> string" where "log_Service s = lc_Service (lg_cfg s)"
definition log_Environment :: "logger_state \<Rightarrow> string" where "log_Environment s = lc_Environment (lg_cfg s)"
definition log_Component :: "logger_state \<Rightarrow> string" where "log_Component s = lc_Component (lg_cfg s)"
definition IsInitialized :: "logger_state \<Rightarrow> bool" where "IsInitialized s = lg_inited s"

section \<open>Correctness\<close>

text \<open>The values of a key in an attribute list.\<close>

fun attr_values :: "string \<Rightarrow> log_val list \<Rightarrow> log_val list" where
  "attr_values key (k # v # rest) =
     (if k = LStr key then v # attr_values key rest else attr_values key rest)"
| "attr_values key _ = []"

lemma attr_values_append:
  "even (length xs) \<Longrightarrow> attr_values key (xs @ ys) = attr_values key xs @ attr_values key ys"
  by (induction key xs rule: attr_values.induct) auto

lemma attr_values_drop: "attr_values ''trace_id'' (drop_trace_id xs) = []"
  by (induction xs rule: drop_trace_id.induct) auto

lemma attr_values_drop_other:
  "key \<noteq> ''trace_id'' \<Longrightarrow> attr_values key (drop_trace_id xs) = attr_values key xs"
  by (induction xs rule: drop_trace_id.induct) auto

lemma log_L_inited: "lg_inited (log_L getenv s)"
  by (simp add: log_L_def log_Init_def Let_def)

lemma contextAttrs_trace:
  "cx_span c = Some (t, sp) \<Longrightarrow> attr_values ''trace_id'' (contextAttrs c) = [LStr t]"
  by (auto simp: contextAttrs_def Let_def attr_values_drop)

lemma contextAttrs_other:
  assumes "key \<notin> {''trace_id'', ''span_id'', ''request_id''}"
  shows "attr_values key (contextAttrs c) = attr_values key (cx_extra c)"
  using assms by (auto simp: contextAttrs_def Let_def attr_values_drop_other split: option.split)

text \<open>
  An entry logged within a valid span names its trace exactly once, the span's own, whatever
  attributes were attached to the context before; every other attached attribute is kept.
\<close>

theorem trace_id_logged_once:
  assumes "cx_span c = Some (t, sp)"
  shows "attr_values ''trace_id'' (FromContext (Some (log_With (Some c) args))) = [LStr t]
    \<and> (key \<notin> {''trace_id'', ''span_id'', ''request_id''} \<longrightarrow>
         attr_values key (FromContext (Some (log_With (Some c) args)))
           = attr_values key (cx_extra c @ args))"
proof -
  let ?c = "log_With (Some c) args"
  have "cx_span ?c = Some (t, sp)" "cx_extra ?c = cx_extra c @ args"
    using assms by (simp_all add: log_With_def or_background_def Let_def)
  then show ?thesis using contextAttrs_trace contextAttrs_other by (simp add: FromContext_def)
qed

definition demo_ctx :: obs_ctx where
  "demo_ctx = background\<lparr>cx_span := Some (''t1'', ''s1''), cx_extra := [LStr ''trace_id'', LStr ''old'']\<rparr>"

theorem trace_id_logged_once_witness:
  "attr_values ''trace_id'' (FromContext (Some (log_With (Some demo_ctx) [LStr ''k'', LInt 1]))) = [LStr ''t1'']
   \<and> attr_values ''k'' (FromContext (Some (log_With (Some demo_ctx) [LStr ''k'', LInt 1]))) = [LInt 1]"
proof -
  have "cx_span demo_ctx = Some (''t1'', ''s1'')" by (simp add: demo_ctx_def)
  from trace_id_logged_once [OF this, of "[LStr ''k'', LInt 1]" "''k''"]
  show ?thesis by (simp add: demo_ctx_def)
qed

text \<open>An initialised logger always has a service and an environment to report.\<close>

lemma init_config_nonempty:
  "lc_Service (init_config getenv c) \<noteq> [] \<and> lc_Environment (init_config getenv c) \<noteq> []"
  by (auto simp: init_config_def envOr_def Let_def)

end
