(* ===== verification/Metrics.thy ===== *)
theory Metrics
  imports Logger
begin

text \<open>
  \<open>observability/metrics\<close>: the label sanitizers (\<open>normalize.go\<close>), the registered metrics with
  their label names (\<open>registry.go\<close>, \<open>contract.go\<close>) and the functions that record
  (\<open>s2s.go\<close>, \<open>messaging.go\<close>, \<open>outbox.go\<close>, \<open>resilience.go\<close>, \<open>grpc.go\<close>, \<open>http.go\<close>).

  A recording function returns the updates it makes, in order: the name of the metric, the values
  given to \<open>WithLabelValues\<close> and the method called on the result. The regular expressions only
  have ASCII classes, so they are functions on bytes. \<open>unicode.IsLetter\<close> and \<open>unicode.IsDigit\<close> of
  a non-ASCII character (argument \<open>uni\<close>, on its UTF-8 encoding) and \<open>url.Parse\<close> (argument
  \<open>url_path\<close>, the path of the URL) are arguments.
\<close>

section \<open>Regular expressions\<close>

definition is_lower :: "char \<Rightarrow> bool" where
  "is_lower c \<longleftrightarrow> (97 :: nat) \<le> of_char c \<and> of_char c \<le> (122 :: nat)"

definition is_hex_ci :: "char \<Rightarrow> bool" where
  "is_hex_ci c \<longleftrightarrow> is_digit c \<or> List.member ''abcdefABCDEF'' c"

definition serviceRE :: "string \<Rightarrow> bool" where
  "serviceRE s \<longleftrightarrow> s \<noteq> [] \<and> length s \<le> 63 \<and> (is_lower (hd s) \<or> is_digit (hd s))
     \<and> list_all (\<lambda>c. is_lower c \<or> is_digit c \<or> c = CHR ''-'') (tl s)"

definition eventTypeRE :: "string \<Rightarrow> bool" where
  "eventTypeRE s \<longleftrightarrow> s \<noteq> [] \<and> length s \<le> 63 \<and> is_lower (hd s)
     \<and> list_all (\<lambda>c. is_lower c \<or> is_digit c \<or> c = CHR ''.'' \<or> c = CHR ''_'') (tl s)"

definition uuidRE :: "string \<Rightarrow> bool" where
  "uuidRE s \<longleftrightarrow> map length (split_on CHR ''-'' s) = [8, 4, 4, 4, 12]
     \<and> list_all (list_all is_hex_ci) (split_on CHR ''-'' s)"

definition hexIDRE :: "string \<Rightarrow> bool" where
  "hexIDRE s \<longleftrightarrow> 16 \<le> length s \<and> list_all is_hex_ci s"

definition digitsRE :: "string \<Rightarrow> bool" where
  "digitsRE s \<longleftrightarrow> s \<noteq> [] \<and> length s \<le> 20 \<and> list_all is_digit s"

section \<open>Characters of UTF-8\<close>

definition byte_in :: "nat \<Rightarrow> nat \<Rightarrow> char \<Rightarrow> bool" where
  "byte_in lo hi c \<longleftrightarrow> lo \<le> of_char c \<and> of_char c \<le> hi"

text \<open>
  The number of bytes of the first character of a string, 0 if the string does not start with a
  well-formed one. \<open>range\<close> then yields the replacement character, which is no letter.
\<close>

definition rune_len :: "string \<Rightarrow> nat" where
  "rune_len s =
     (case s of
        [] \<Rightarrow> 0
      | a # r1 \<Rightarrow>
          if byte_in 0 0x7F a then 1
          else (case r1 of
             [] \<Rightarrow> 0
           | b # r2 \<Rightarrow>
               if byte_in 0xC2 0xDF a then (if byte_in 0x80 0xBF b then 2 else 0)
               else (case r2 of
                  [] \<Rightarrow> 0
                | c # r3 \<Rightarrow>
                    if byte_in 0xE0 0xEF a then
                      (if byte_in (if byte_in 0xE0 0xE0 a then 0xA0 else 0x80)
                                  (if byte_in 0xED 0xED a then 0x9F else 0xBF) b
                          \<and> byte_in 0x80 0xBF c then 3 else 0)
                    else (case r3 of
                       [] \<Rightarrow> 0
                     | d # r4 \<Rightarrow>
                         if byte_in 0xF0 0xF4 a
                            \<and> byte_in (if byte_in 0xF0 0xF0 a then 0x90 else 0x80)
                                      (if byte_in 0xF4 0xF4 a then 0x8F else 0xBF) b
                            \<and> byte_in 0x80 0xBF c \<and> byte_in 0x80 0xBF d then 4 else 0))))"

text \<open>The characters of \<open>s\<close> that satisfy \<open>p\<close>; a byte that starts none is dropped.\<close>

fun filter_runes_fuel :: "nat \<Rightarrow> (string \<Rightarrow> bool) \<Rightarrow> string \<Rightarrow> string" where
  "filter_runes_fuel 0 p s = []"
| "filter_runes_fuel (Suc n) p [] = []"
| "filter_runes_fuel (Suc n) p (a # s) =
     (let k = rune_len (a # s)
      in if k = 0 then filter_runes_fuel n p s
         else (if p (take k (a # s)) then take k (a # s) else [])
                @ filter_runes_fuel n p (drop k (a # s)))"

definition filter_runes :: "(string \<Rightarrow> bool) \<Rightarrow> string \<Rightarrow> string" where
  "filter_runes p s = filter_runes_fuel (length s) p s"

section \<open>Sanitizers\<close>

definition allowedErrorTypes :: "string list" where
  "allowedErrorTypes =
     [''none'', ''unauthenticated'', ''forbidden'', ''not_found'', ''invalid'', ''conflict'',
      ''rate_limited'', ''timeout'', ''canceled'', ''unavailable'', ''server_error'', ''unknown'']"

definition allowedReasons :: "string list" where
  "allowedReasons =
     [''none'', ''missing_token'', ''expired'', ''invalid_signature'', ''invalid_audience'',
      ''invalid_issuer'', ''missing_scope'', ''unknown_service'', ''token_fetch_failed'']"

definition allowedResults :: "string list" where
  "allowedResults =
     [''success'', ''error'', ''retry'', ''dlq'', ''abandoned'', ''timeout'', ''canceled'',
      ''claimed'', ''dispatched'', ''failed'', ''retried'', ''unroutable'', ''duplicate'',
      ''exhausted'', ''open'', ''half_open'', ''closed'']"

definition allowedBusinessOps :: "string list" where
  "allowedBusinessOps =
     [''wallet_credit'', ''wallet_debit'', ''deposit_complete'', ''withdrawal_complete'',
      ''trade_opened'', ''trade_closed'', ''kyc_approved'', ''kyc_rejected'', ''ticket_created'']"

definition norm :: "string \<Rightarrow> string" where
  "norm v = to_lower (trim_space v)"

definition SanitizeService :: "string \<Rightarrow> string" where
  "SanitizeService name =
     (let n = norm name in if n = [] \<or> \<not> serviceRE n then ''unknown'' else n)"

definition SanitizeErrorType :: "string \<Rightarrow> string" where
  "SanitizeErrorType v =
     (let v = norm v in if List.member allowedErrorTypes v then v else ''unknown'')"

definition SanitizeReason :: "string \<Rightarrow> string" where
  "SanitizeReason v =
     (let v = norm v in if List.member allowedReasons v then v else ''invalid_signature'')"

definition SanitizeResult :: "string \<Rightarrow> string" where
  "SanitizeResult v = (let v = norm v in if List.member allowedResults v then v else ''error'')"

definition SanitizeBusinessOp :: "string \<Rightarrow> string" where
  "SanitizeBusinessOp v = (let v = norm v in if List.member allowedBusinessOps v then v else [])"

definition SanitizeEventType :: "string \<Rightarrow> string" where
  "SanitizeEventType v =
     (let v = norm v in if eventTypeRE v \<and> \<not> contains v ''..'' then v else ''other'')"

definition exchange_rune :: "(string \<Rightarrow> bool) \<Rightarrow> string \<Rightarrow> bool" where
  "exchange_rune uni r =
     (case r of
        [c] \<Rightarrow> is_lower (ascii_lower c) \<or> is_digit c \<or> c = CHR ''.'' \<or> c = CHR ''_'' \<or> c = CHR ''-''
      | _ \<Rightarrow> uni r)"

definition SanitizeExchange :: "(string \<Rightarrow> bool) \<Rightarrow> string \<Rightarrow> string" where
  "SanitizeExchange uni v0 =
     (let v = trim_space v0
      in if v = [] then ''default''
         else let out = filter_runes (exchange_rune uni) v
              in if out = [] \<or> length out > 64 then ''other'' else out)"

definition SanitizeOperation :: "string \<Rightarrow> string" where
  "SanitizeOperation v0 =
     (let v = trim_space v0
      in if v = [] then ''unknown'' else if length v > 128 then take 128 v else v)"

definition is_id_part :: "string \<Rightarrow> bool" where
  "is_id_part p \<longleftrightarrow> p \<noteq> [] \<and> (uuidRE p \<or> hexIDRE p \<or> digitsRE p)"

definition NormalizePath :: "(string \<Rightarrow> string option) \<Rightarrow> string \<Rightarrow> string" where
  "NormalizePath url_path path0 =
     (let path = trim_space path0
      in if path = [] then ''/''
         else let path = (case url_path path of
                            Some p \<Rightarrow> if p \<noteq> [] then p else path
                          | None \<Rightarrow> path);
                  path = (if has_prefix path ''/'' then path else ''/'' @ path);
                  parts = map (\<lambda>p. if is_id_part p then '':id'' else p) (split_on CHR ''/'' path);
                  out = join_with ''/'' parts
              in if out = [] then ''/'' else if length out > 96 then take 96 out else out)"

definition HTTPOperation :: "(string \<Rightarrow> string option) \<Rightarrow> string \<Rightarrow> string \<Rightarrow> string" where
  "HTTPOperation url_path method path =
     (let m = to_upper (trim_space method); m = (if m = [] then ''GET'' else m)
      in m @ '' '' @ NormalizePath url_path path)"

text \<open>What follows the last dot.\<close>

definition after_last :: "char \<Rightarrow> string \<Rightarrow> string" where
  "after_last d s = last (split_on d s)"

definition GRPCOperation :: "string \<Rightarrow> string" where
  "GRPCOperation fullMethod =
     (let m = trim_prefix (trim_space fullMethod) ''/''
      in if m = [] then ''unknown''
         else case cut_at CHR ''/'' m of
                None \<Rightarrow> SanitizeOperation m
              | Some (svc, method) \<Rightarrow> SanitizeOperation (after_last CHR ''.'' svc @ ''.'' @ method))"

definition HTTPStatusClass :: "int \<Rightarrow> string \<times> string" where
  "HTTPStatusClass code =
     (if code \<ge> 200 \<and> code < 400 then (''success'', ''none'')
      else if code = 401 then (''error'', ''unauthenticated'')
      else if code = 403 then (''error'', ''forbidden'')
      else if code = 404 then (''error'', ''not_found'')
      else if code = 409 then (''error'', ''conflict'')
      else if code = 429 then (''error'', ''rate_limited'')
      else if code \<ge> 400 \<and> code < 500 then (''error'', ''invalid'')
      else if code \<ge> 500 then (''error'', ''server_error'')
      else (''error'', ''unknown''))"

definition IsInfraHTTPPath :: "(string \<Rightarrow> string option) \<Rightarrow> string \<Rightarrow> bool" where
  "IsInfraHTTPPath url_path path =
     List.member [''/metrics'', ''/health'', ''/health-check'', ''/ready'', ''/ping'', ''/live'',
        ''/liveness'', ''/startup''] (to_lower (NormalizePath url_path path))"

definition sanitizeOutboxDest :: "(string \<Rightarrow> bool) \<Rightarrow> string \<Rightarrow> string" where
  "sanitizeOutboxDest uni v =
     (let s = SanitizeService v in if s \<noteq> ''unknown'' then s else SanitizeExchange uni v)"

definition sanitizeProtocol :: "string \<Rightarrow> string" where
  "sanitizeProtocol p = (if p = ''http'' \<or> p = ''grpc'' then p else ''http'')"

definition sanitizeErrorType :: "string \<Rightarrow> string" where
  "sanitizeErrorType e =
     (if List.member [''none'', ''unauthenticated'', ''forbidden'', ''not_found'', ''invalid'',
           ''conflict'', ''rate_limited'', ''timeout'', ''canceled'', ''unavailable'',
           ''server_error''] e
      then e else ''unknown'')"

definition sanitizeBreakerState :: "string \<Rightarrow> string" where
  "sanitizeBreakerState s =
     (if List.member [''open'', ''half_open'', ''closed''] s then s else ''closed'')"

definition stringsToBusinessResult :: "string \<Rightarrow> string" where
  "stringsToBusinessResult result =
     (let r = norm result
      in if r = ''success'' \<or> r = ''ok'' then ''success''
         else if r = ''business_rejected'' \<or> r = ''invalid'' \<or> r = ''rejected'' then ''business_rejected''
         else ''system_failure'')"

section \<open>Metrics\<close>

datatype metric_kind = Counter | Histogram | Gauge

text \<open>\<open>ensure\<close>: the metrics registered, with the names of their labels.\<close>

definition registry_core :: "(string \<times> metric_kind \<times> string list) list" where
  "registry_core =
     [(''service_client_requests_total'', Counter, [''source'', ''destination'', ''protocol'', ''operation'', ''status'', ''error_type'']),
      (''service_client_request_duration_seconds'', Histogram, [''source'', ''destination'', ''protocol'', ''operation'']),
      (''s2s_auth_requests_total'', Counter, [''source'', ''destination'']),
      (''s2s_auth_failures_total'', Counter, [''source'', ''destination'', ''reason'']),
      (''s2s_token_requests_total'', Counter, [''source'', ''destination'']),
      (''s2s_token_request_failures_total'', Counter, [''source'', ''destination'', ''reason'']),
      (''s2s_token_cache_hits_total'', Counter, [''source'', ''destination'']),
      (''messaging_publish_total'', Counter, [''service'', ''event_type'', ''exchange'', ''result'']),
      (''messaging_publish_failures_total'', Counter, [''service'', ''event_type'', ''exchange'']),
      (''messaging_publish_duration_seconds'', Histogram, [''service'', ''event_type'', ''exchange'']),
      (''messaging_consume_total'', Counter, [''service'', ''event_type'', ''result'']),
      (''messaging_consume_failures_total'', Counter, [''service'', ''event_type'', ''result'']),
      (''messaging_processing_duration_seconds'', Histogram, [''service'', ''event_type'']),
      (''messaging_retry_total'', Counter, [''service'', ''event_type'']),
      (''messaging_dlq_total'', Counter, [''service'', ''event_type'']),
      (''messaging_oldest_message_age_seconds'', Gauge, [''service'', ''event_type'']),
      (''messaging_unroutable_total'', Counter, [''service'', ''event_type'', ''exchange'']),
      (''messaging_confirm_timeout_total'', Counter, [''service'', ''event_type'', ''exchange''])]"

definition registry_delivery :: "(string \<times> metric_kind \<times> string list) list" where
  "registry_delivery =
     [(''outbox_pending_total'', Gauge, [''service'', ''destination'', ''event_type'']),
      (''outbox_failed_total'', Gauge, [''service'', ''destination'', ''event_type'']),
      (''outbox_exhausted_total'', Gauge, [''service'', ''destination'', ''event_type'']),
      (''outbox_oldest_pending_seconds'', Gauge, [''service'', ''destination'', ''event_type'']),
      (''outbox_dispatch_total'', Counter, [''service'', ''destination'', ''event_type'', ''result'']),
      (''outbox_dispatch_failures_total'', Counter, [''service'', ''destination'', ''event_type'']),
      (''outbox_dispatch_duration_seconds'', Histogram, [''service'', ''destination'', ''event_type'']),
      (''consumer_duplicate_total'', Counter, [''service'', ''event_type'']),
      (''reconciliation_mismatch_total'', Counter, [''service'', ''operation'']),
      (''reconciliation_repaired_total'', Counter, [''service'', ''operation'']),
      (''reconciliation_scanned_total'', Counter, [''service'', ''operation'']),
      (''reconciliation_failed_total'', Counter, [''service'', ''operation'']),
      (''ambiguous_operations_total'', Counter, [''service'', ''operation'']),
      (''circuit_breaker_state'', Gauge, [''service'', ''destination'']),
      (''circuit_breaker_transitions_total'', Counter, [''service'', ''destination'', ''result'']),
      (''service_client_failures_total'', Counter, [''source'', ''destination'', ''protocol'', ''error_type'']),
      (''service_client_retries_total'', Counter, [''source'', ''destination'', ''protocol'']),
      (''service_client_timeouts_total'', Counter, [''source'', ''destination'', ''protocol'']),
      (''service_client_give_up_total'', Counter, [''source'', ''destination'', ''protocol'', ''error_type'']),
      (''business_operation_total'', Counter, [''service'', ''operation'', ''result'']),
      (''business_operation_failures_total'', Counter, [''service'', ''operation''])]"

definition registry :: "(string \<times> metric_kind \<times> string list) list" where
  "registry = registry_core @ registry_delivery"

text \<open>
  A value that a gauge is set to or a histogram observes: a number given by the caller, a constant,
  or a duration (in nanoseconds) as seconds.
\<close>

datatype 'f metric_value = Given 'f | Number int | Seconds int

datatype 'f metric_op = Inc | SetTo "'f metric_value" | Observe "'f metric_value"

type_synonym 'f update = "string \<times> string list \<times> 'f metric_op"

fun op_fits :: "metric_kind \<Rightarrow> 'f metric_op \<Rightarrow> bool" where
  "op_fits Counter Inc = True"
| "op_fits Gauge (SetTo v) = True"
| "op_fits Histogram (Observe v) = True"
| "op_fits _ _ = False"

text \<open>\<open>started\<close> is \<open>None\<close> for the zero time; \<open>time.Since\<close> takes the time \<open>now\<close>.\<close>

definition since :: "int \<Rightarrow> int \<Rightarrow> 'f metric_value" where
  "since now t = Seconds (now - t)"

section \<open>Service-to-service authentication\<close>

definition RecordS2SAuth :: "string \<Rightarrow> string \<Rightarrow> 'f update list" where
  "RecordS2SAuth source destination =
     [(''s2s_auth_requests_total'', [SanitizeService source, SanitizeService destination], Inc)]"

definition RecordS2SAuthFailure :: "string \<Rightarrow> string \<Rightarrow> string \<Rightarrow> 'f update list" where
  "RecordS2SAuthFailure source destination reason =
     (let src = SanitizeService source; dst = SanitizeService destination; r = SanitizeReason reason
      in [(''s2s_auth_requests_total'', [src, dst], Inc),
          (''s2s_auth_failures_total'', [src, dst, r], Inc)])"

definition RecordTokenRequest :: "string \<Rightarrow> string \<Rightarrow> 'f update list" where
  "RecordTokenRequest source destination =
     [(''s2s_token_requests_total'', [SanitizeService source, SanitizeService destination], Inc)]"

definition RecordTokenRequestFailure :: "string \<Rightarrow> string \<Rightarrow> string \<Rightarrow> 'f update list" where
  "RecordTokenRequestFailure source destination reason =
     (let src = SanitizeService source; dst = SanitizeService destination
      in [(''s2s_token_requests_total'', [src, dst], Inc),
          (''s2s_token_request_failures_total'', [src, dst, SanitizeReason reason], Inc)])"

definition RecordTokenCacheHit :: "string \<Rightarrow> string \<Rightarrow> 'f update list" where
  "RecordTokenCacheHit source destination =
     [(''s2s_token_cache_hits_total'', [SanitizeService source, SanitizeService destination], Inc)]"

section \<open>Messaging\<close>

definition RecordPublish ::
    "(string \<Rightarrow> bool) \<Rightarrow> int \<Rightarrow> string \<Rightarrow> string \<Rightarrow> string \<Rightarrow> string \<Rightarrow> int option \<Rightarrow> 'f update list"
where
  "RecordPublish uni now service eventType exchange result started =
     (let svc = SanitizeService service; ev = SanitizeEventType eventType;
          ex = SanitizeExchange uni exchange; res = SanitizeResult result
      in [(''messaging_publish_total'', [svc, ev, ex, res], Inc)]
         @ (if res \<noteq> ''success'' then [(''messaging_publish_failures_total'', [svc, ev, ex], Inc)]
            else [])
         @ (case started of
              Some t \<Rightarrow> [(''messaging_publish_duration_seconds'', [svc, ev, ex], Observe (since now t))]
            | None \<Rightarrow> []))"

definition RecordConsume ::
    "int \<Rightarrow> string \<Rightarrow> string \<Rightarrow> string \<Rightarrow> int option \<Rightarrow> 'f update list"
where
  "RecordConsume now service eventType result started =
     (let svc = SanitizeService service; ev = SanitizeEventType eventType; res = SanitizeResult result
      in [(''messaging_consume_total'', [svc, ev, res], Inc)]
         @ (if res \<noteq> ''success'' then [(''messaging_consume_failures_total'', [svc, ev, res], Inc)]
            else [])
         @ (case started of
              Some t \<Rightarrow> [(''messaging_processing_duration_seconds'', [svc, ev], Observe (since now t))]
            | None \<Rightarrow> []))"

definition RecordRetry :: "string \<Rightarrow> string \<Rightarrow> 'f update list" where
  "RecordRetry service eventType =
     [(''messaging_retry_total'', [SanitizeService service, SanitizeEventType eventType], Inc)]"

definition RecordDLQ :: "string \<Rightarrow> string \<Rightarrow> 'f update list" where
  "RecordDLQ service eventType =
     [(''messaging_dlq_total'', [SanitizeService service, SanitizeEventType eventType], Inc)]"

definition RecordUnroutable :: "(string \<Rightarrow> bool) \<Rightarrow> string \<Rightarrow> string \<Rightarrow> string \<Rightarrow> 'f update list" where
  "RecordUnroutable uni service eventType exchange =
     [(''messaging_unroutable_total'',
       [SanitizeService service, SanitizeEventType eventType, SanitizeExchange uni exchange], Inc)]"

definition RecordConfirmTimeout :: "(string \<Rightarrow> bool) \<Rightarrow> string \<Rightarrow> string \<Rightarrow> string \<Rightarrow> 'f update list" where
  "RecordConfirmTimeout uni service eventType exchange =
     [(''messaging_confirm_timeout_total'',
       [SanitizeService service, SanitizeEventType eventType, SanitizeExchange uni exchange], Inc)]"

definition RecordDuplicate :: "string \<Rightarrow> string \<Rightarrow> 'f update list" where
  "RecordDuplicate service eventType =
     [(''consumer_duplicate_total'', [SanitizeService service, SanitizeEventType eventType], Inc)]"

definition SetOldestMessageAge :: "string \<Rightarrow> string \<Rightarrow> int \<Rightarrow> 'f update list" where
  "SetOldestMessageAge service eventType age =
     [(''messaging_oldest_message_age_seconds'',
       [SanitizeService service, SanitizeEventType eventType],
       SetTo (Seconds (if age < 0 then 0 else age)))]"

definition ObserveMessageTimestamp :: "int \<Rightarrow> string \<Rightarrow> string \<Rightarrow> int option \<Rightarrow> 'f update list" where
  "ObserveMessageTimestamp now service eventType ts =
     (case ts of None \<Rightarrow> [] | Some t \<Rightarrow> SetOldestMessageAge service eventType (now - t))"

section \<open>Outbox, reconciliation and business\<close>

definition outbox_labels :: "(string \<Rightarrow> bool) \<Rightarrow> string \<Rightarrow> string \<Rightarrow> string \<Rightarrow> string list" where
  "outbox_labels uni service destination eventType =
     [SanitizeService service, sanitizeOutboxDest uni destination, SanitizeEventType eventType]"

definition SetOutboxPending :: "(string \<Rightarrow> bool) \<Rightarrow> string \<Rightarrow> string \<Rightarrow> string \<Rightarrow> 'f \<Rightarrow> 'f update list" where
  "SetOutboxPending uni service destination eventType n =
     [(''outbox_pending_total'', outbox_labels uni service destination eventType, SetTo (Given n))]"

definition SetOutboxFailed :: "(string \<Rightarrow> bool) \<Rightarrow> string \<Rightarrow> string \<Rightarrow> string \<Rightarrow> 'f \<Rightarrow> 'f update list" where
  "SetOutboxFailed uni service destination eventType n =
     [(''outbox_failed_total'', outbox_labels uni service destination eventType, SetTo (Given n))]"

definition SetOutboxExhausted :: "(string \<Rightarrow> bool) \<Rightarrow> string \<Rightarrow> string \<Rightarrow> string \<Rightarrow> 'f \<Rightarrow> 'f update list" where
  "SetOutboxExhausted uni service destination eventType n =
     [(''outbox_exhausted_total'', outbox_labels uni service destination eventType, SetTo (Given n))]"

definition SetOutboxOldestPending :: "(string \<Rightarrow> bool) \<Rightarrow> string \<Rightarrow> string \<Rightarrow> string \<Rightarrow> int \<Rightarrow> 'f update list" where
  "SetOutboxOldestPending uni service destination eventType age =
     [(''outbox_oldest_pending_seconds'', outbox_labels uni service destination eventType,
       SetTo (Seconds (if age < 0 then 0 else age)))]"

definition operation_count :: "string \<Rightarrow> string \<Rightarrow> string \<Rightarrow> 'f update list" where
  "operation_count metric service operation =
     [(metric, [SanitizeService service, SanitizeOperation operation], Inc)]"

definition RecordReconciliationMismatch :: "string \<Rightarrow> string \<Rightarrow> 'f update list" where
  "RecordReconciliationMismatch = operation_count ''reconciliation_mismatch_total''"

definition RecordReconciliationRepaired :: "string \<Rightarrow> string \<Rightarrow> 'f update list" where
  "RecordReconciliationRepaired = operation_count ''reconciliation_repaired_total''"

definition RecordReconciliationScanned :: "string \<Rightarrow> string \<Rightarrow> 'f update list" where
  "RecordReconciliationScanned = operation_count ''reconciliation_scanned_total''"

definition RecordReconciliationFailed :: "string \<Rightarrow> string \<Rightarrow> 'f update list" where
  "RecordReconciliationFailed = operation_count ''reconciliation_failed_total''"

definition RecordAmbiguousOperation :: "string \<Rightarrow> string \<Rightarrow> 'f update list" where
  "RecordAmbiguousOperation = operation_count ''ambiguous_operations_total''"

definition SetCircuitBreakerState :: "string \<Rightarrow> string \<Rightarrow> string \<Rightarrow> 'f update list" where
  "SetCircuitBreakerState service destination state =
     (let r = SanitizeResult state;
          v = (if r = ''half_open'' then 1 else if r = ''open'' then 2 else 0)
      in [(''circuit_breaker_state'', [SanitizeService service, SanitizeService destination],
           SetTo (Number v))])"

definition RecordClientFailure :: "string \<Rightarrow> string \<Rightarrow> string \<Rightarrow> string \<Rightarrow> 'f update list" where
  "RecordClientFailure source destination protocol errorType =
     [(''service_client_failures_total'',
       [SanitizeService source, SanitizeService destination, protocol, SanitizeErrorType errorType],
       Inc)]"

definition RecordOutboxDispatch ::
    "(string \<Rightarrow> bool) \<Rightarrow> int \<Rightarrow> string \<Rightarrow> string \<Rightarrow> string \<Rightarrow> string \<Rightarrow> int option \<Rightarrow> 'f update list"
where
  "RecordOutboxDispatch uni now service destination eventType result started =
     (let ls = outbox_labels uni service destination eventType; res = SanitizeResult result
      in [(''outbox_dispatch_total'', ls @ [res], Inc)]
         @ (if res = ''failed'' \<or> res = ''error''
            then [(''outbox_dispatch_failures_total'', ls, Inc)] else [])
         @ (case started of
              Some t \<Rightarrow>
                if List.member [''dispatched'', ''success'', ''failed'', ''error''] res
                then [(''outbox_dispatch_duration_seconds'', ls, Observe (since now t))] else []
            | None \<Rightarrow> []))"

definition RecordBusiness :: "string \<Rightarrow> string \<Rightarrow> string \<Rightarrow> 'f update list" where
  "RecordBusiness service operation result =
     (let oper = SanitizeBusinessOp operation
      in if oper = [] then []
         else let svc = SanitizeService service; res = stringsToBusinessResult result
              in [(''business_operation_total'', [svc, oper, res], Inc)]
                 @ (if res = ''system_failure''
                    then [(''business_operation_failures_total'', [svc, oper], Inc)] else []))"

section \<open>Dependencies\<close>

definition RecordClientRetry :: "string \<Rightarrow> string \<Rightarrow> string \<Rightarrow> 'f update list" where
  "RecordClientRetry source destination protocol =
     [(''service_client_retries_total'',
       [SanitizeService source, SanitizeService destination, sanitizeProtocol protocol], Inc)]"

definition RecordClientTimeout :: "string \<Rightarrow> string \<Rightarrow> string \<Rightarrow> 'f update list" where
  "RecordClientTimeout source destination protocol =
     [(''service_client_timeouts_total'',
       [SanitizeService source, SanitizeService destination, sanitizeProtocol protocol], Inc)]"

definition RecordClientGiveUp :: "string \<Rightarrow> string \<Rightarrow> string \<Rightarrow> string \<Rightarrow> 'f update list" where
  "RecordClientGiveUp source destination protocol errorType =
     [(''service_client_give_up_total'',
       [SanitizeService source, SanitizeService destination, sanitizeProtocol protocol,
        sanitizeErrorType errorType], Inc)]"

definition RecordCircuitBreakerTransition :: "string \<Rightarrow> string \<Rightarrow> string \<Rightarrow> 'f update list" where
  "RecordCircuitBreakerTransition service destination state =
     [(''circuit_breaker_transitions_total'',
       [SanitizeService service, SanitizeService destination, sanitizeBreakerState state], Inc)]"

section \<open>Outbound calls\<close>

definition WithOperation :: "obs_ctx option \<Rightarrow> string \<Rightarrow> obs_ctx" where
  "WithOperation ctx operation =
     (let oper = SanitizeOperation operation
      in log_With (Some ((or_background ctx)\<lparr>cx_operation := oper\<rparr>))
           [LStr ''operation'', LStr oper])"

definition OperationFromContext :: "obs_ctx option \<Rightarrow> string" where
  "OperationFromContext ctx = (case ctx of None \<Rightarrow> [] | Some c \<Rightarrow> cx_operation c)"

definition WithHTTPOperation :: "obs_ctx option \<Rightarrow> string \<Rightarrow> obs_ctx" where
  "WithHTTPOperation ctx operation =
     (or_background ctx)\<lparr>cx_http_operation := SanitizeOperation operation\<rparr>"

definition WithEventType :: "obs_ctx option \<Rightarrow> string \<Rightarrow> obs_ctx" where
  "WithEventType ctx eventType = (or_background ctx)\<lparr>cx_event_type := SanitizeEventType eventType\<rparr>"

definition EventTypeFromContext :: "obs_ctx option \<Rightarrow> string \<Rightarrow> string" where
  "EventTypeFromContext ctx fallback =
     (case ctx of
        Some c \<Rightarrow> if cx_event_type c \<noteq> [] then cx_event_type c else SanitizeEventType fallback
      | None \<Rightarrow> SanitizeEventType fallback)"

definition errorTypeFromErr :: "goerr option \<Rightarrow> string" where
  "errorTypeFromErr err =
     (case err of
        None \<Rightarrow> ''none''
      | Some e \<Rightarrow>
          if err_is (\<lambda>e. e = ECanceled) e then ''canceled''
          else if err_is (\<lambda>e. e = EDeadline) e then ''timeout''
          else let msg = to_lower (err_text e)
               in if contains msg ''timeout'' \<or> contains msg ''deadline'' then ''timeout''
                  else if contains msg ''canceled'' \<or> contains msg ''cancelled'' then ''canceled''
                  else ''unavailable'')"

definition classifyHTTP :: "int option \<Rightarrow> goerr option \<Rightarrow> string \<times> string" where
  "classifyHTTP resp err =
     (if err \<noteq> None then (''error'', errorTypeFromErr err)
      else case resp of None \<Rightarrow> (''error'', ''unknown'') | Some code \<Rightarrow> HTTPStatusClass code)"

text \<open>
  \<open>status.FromError\<close> finds a gRPC status anywhere in the chain; \<open>grpc_status\<close> is that status.
\<close>

definition grpc_status :: "goerr \<Rightarrow> grpc_code option" where
  "grpc_status = find_err (\<lambda>e. case e of EStatus c t \<Rightarrow> Some c | _ \<Rightarrow> None)"

definition grpc_class :: "grpc_code \<Rightarrow> string \<times> string" where
  "grpc_class c =
     (case c of
        OK \<Rightarrow> (''success'', ''none'')
      | Unauthenticated \<Rightarrow> (''error'', ''unauthenticated'')
      | PermissionDenied \<Rightarrow> (''error'', ''forbidden'')
      | NotFound \<Rightarrow> (''error'', ''not_found'')
      | InvalidArgument \<Rightarrow> (''error'', ''invalid'')
      | FailedPrecondition \<Rightarrow> (''error'', ''invalid'')
      | OutOfRange \<Rightarrow> (''error'', ''invalid'')
      | AlreadyExists \<Rightarrow> (''error'', ''conflict'')
      | Aborted \<Rightarrow> (''error'', ''conflict'')
      | ResourceExhausted \<Rightarrow> (''error'', ''rate_limited'')
      | DeadlineExceeded \<Rightarrow> (''error'', ''timeout'')
      | Canceled \<Rightarrow> (''error'', ''canceled'')
      | Unavailable \<Rightarrow> (''error'', ''unavailable'')
      | _ \<Rightarrow> (''error'', ''server_error''))"

definition classifyGRPC :: "goerr option \<Rightarrow> string \<times> string" where
  "classifyGRPC err =
     (case err of
        None \<Rightarrow> (''success'', ''none'')
      | Some e \<Rightarrow>
          (case grpc_status e of
             None \<Rightarrow> (''error'', errorTypeFromErr err)
           | Some c \<Rightarrow> grpc_class c))"

text \<open>
  A request is its context, method, the path of its URL and the text of the URL; \<open>None\<close> for the
  URL is a nil \<open>*url.URL\<close>, which \<open>httpOpFromRequest\<close> dereferences (\<open>None\<close>: the panic).
\<close>

record http_request =
  hr_Ctx :: obs_ctx
  hr_Method :: string
  hr_URL :: "(string \<times> string) option"
  hr_Header :: "(string \<times> string) list"

definition httpOpFromRequest :: "(string \<Rightarrow> string option) \<Rightarrow> http_request option \<Rightarrow> string option" where
  "httpOpFromRequest url_path req =
     (case req of
        None \<Rightarrow> Some ''unknown''
      | Some r \<Rightarrow>
          if cx_http_operation (hr_Ctx r) \<noteq> [] then Some (cx_http_operation (hr_Ctx r))
          else map_option
                 (\<lambda>(path, text). HTTPOperation url_path (hr_Method r) (if path = [] then text else path))
                 (hr_URL r))"

text \<open>
  \<open>Transport.RoundTrip\<close>: the base transport gets the request with the operation in its context
  and returns a status and an error. The result has the updates made.
\<close>

definition metrics_RoundTrip ::
    "(string \<Rightarrow> string option) \<Rightarrow> ('w \<Rightarrow> int) \<Rightarrow> string \<Rightarrow> string
       \<Rightarrow> (http_request \<Rightarrow> 'w \<Rightarrow> int option \<times> goerr option \<times> 'w)
       \<Rightarrow> http_request option \<Rightarrow> 'w
       \<Rightarrow> (int option \<times> goerr option \<times> 'f update list \<times> 'w) option"
where
  "metrics_RoundTrip url_path clock Source Destination base req w =
     (case req of
        None \<Rightarrow> Some (None, Some (EText ''metrics transport: request is nil''), [], w)
      | Some r \<Rightarrow>
          (case httpOpFromRequest url_path req of
             None \<Rightarrow> None
           | Some oper \<Rightarrow>
               (let source = SanitizeService Source; dest = SanitizeService Destination;
                    r' = r\<lparr>hr_Ctx := WithOperation (Some (hr_Ctx r)) oper\<rparr>
                in case base r' w of
                     (resp, err, w') \<Rightarrow>
                       (case classifyHTTP resp err of
                          (status, errType) \<Rightarrow>
                            Some (resp, err,
                              [(''service_client_requests_total'',
                                [source, dest, ''http'', oper, status, errType], Inc),
                               (''service_client_request_duration_seconds'',
                                [source, dest, ''http'', oper], Observe (since (clock w') (clock w)))]
                              @ (if status \<noteq> ''success''
                                 then [(''service_client_failures_total'',
                                        [source, dest, ''http'', errType], Inc)]
                                 else []), w')))))"

definition metrics_UnaryClientInterceptor ::
    "('w \<Rightarrow> int) \<Rightarrow> string \<Rightarrow> string \<Rightarrow> (obs_ctx \<Rightarrow> 'w \<Rightarrow> goerr option \<times> 'w)
       \<Rightarrow> obs_ctx option \<Rightarrow> string \<Rightarrow> 'w \<Rightarrow> goerr option \<times> 'f update list \<times> 'w"
where
  "metrics_UnaryClientInterceptor clock source destination invoker ctx method w =
     (let src = SanitizeService source; dst = SanitizeService destination;
          oper = GRPCOperation method
      in case invoker (WithOperation ctx oper) w of
           (err, w') \<Rightarrow>
             (case classifyGRPC err of
                (st, errType) \<Rightarrow>
                  (err,
                   [(''service_client_requests_total'', [src, dst, ''grpc'', oper, st, errType], Inc),
                    (''service_client_request_duration_seconds'', [src, dst, ''grpc'', oper],
                     Observe (since (clock w') (clock w)))], w')))"

end
