(* ===== verification/Metrics_Labels.thy ===== *)
theory Metrics_Labels
  imports Metrics
begin

text \<open>
  What the sanitizers of \<open>observability/metrics/normalize.go\<close> guarantee of the labels the recording
  functions pass to the Prometheus client: which values a label may take, and which of them are valid
  UTF-8, as \<open>WithLabelValues\<close> demands.
\<close>

section \<open>Valid UTF-8\<close>

text \<open>\<open>utf8.ValidString\<close>: the string is a sequence of well-formed characters.\<close>

function utf8_valid :: "string \<Rightarrow> bool" where
  "utf8_valid s =
     (if s = [] then True else if rune_len s = 0 then False else utf8_valid (drop (rune_len s) s))"
  by auto
termination by (relation "measure length") auto

declare utf8_valid.simps [simp del]

lemma utf8_Nil [simp]: "utf8_valid []"
  by (simp add: utf8_valid.simps)

lemma rune_len_bound: "rune_len s \<le> length s"
  by (auto simp: rune_len_def split: list.split)

text \<open>The length of a character only depends on its own bytes.\<close>

lemma rune_len_take_append:
  assumes "rune_len s \<noteq> 0"
  shows "rune_len (take (rune_len s) s @ t) = rune_len s"
proof (cases s)
  case Nil
  with assms show ?thesis by (simp add: rune_len_def)
next
  case a: (Cons a r1)
  show ?thesis
  proof (cases "byte_in 0 0x7F a")
    case True
    with a show ?thesis by (simp add: rune_len_def)
  next
    case no1: False
    with a assms obtain b r2 where b: "r1 = b # r2" by (cases r1) (simp_all add: rune_len_def)
    show ?thesis
    proof (cases "byte_in 0xC2 0xDF a")
      case True
      with a b no1 assms show ?thesis by (cases "byte_in 0x80 0xBF b") (simp_all add: rune_len_def)
    next
      case no2: False
      with a b no1 assms obtain c r3 where c: "r2 = c # r3" by (cases r2) (simp_all add: rune_len_def)
      show ?thesis
      proof (cases "byte_in 0xE0 0xEF a")
        case True
        have "rune_len s = 3" using True a b c no1 no2 assms by (simp add: rune_len_def split: if_split_asm)
        moreover have "rune_len ([a, b, c] @ t) = rune_len s" using True a b c no1 no2 by (simp add: rune_len_def)
        ultimately show ?thesis using a b c by simp
      next
        case no3: False
        with a b c no1 no2 assms obtain d r4 where d: "r3 = d # r4" by (cases r3) (simp_all add: rune_len_def)
        have "rune_len s = 4" using a b c d no1 no2 no3 assms by (simp add: rune_len_def split: if_split_asm)
        moreover have "rune_len ([a, b, c, d] @ t) = rune_len s"
          using a b c d no1 no2 no3 by (simp add: rune_len_def)
        ultimately show ?thesis using a b c d by simp
      qed
    qed
  qed
qed

lemma rune_len_append: "rune_len s \<noteq> 0 \<Longrightarrow> rune_len (s @ t) = rune_len s"
  using rune_len_take_append [of s "drop (rune_len s) s @ t"] by (simp flip: append_assoc)

lemma rune_len_take: "rune_len s \<noteq> 0 \<Longrightarrow> rune_len (take (rune_len s) s) = rune_len s"
  using rune_len_take_append [of s "[]"] by simp

lemma utf8_append: "utf8_valid s \<Longrightarrow> utf8_valid t \<Longrightarrow> utf8_valid (s @ t)"
proof (induction s rule: utf8_valid.induct)
  case (1 s)
  show ?case
  proof (cases "s = []")
    case False
    with "1.prems" have k: "rune_len s \<noteq> 0" and tl: "utf8_valid (drop (rune_len s) s)"
      by (simp_all add: utf8_valid.simps [of s] split: if_splits)
    have "utf8_valid (drop (rune_len s) s @ t)" using "1.IH" [OF False k tl "1.prems"(2)] .
    then show ?thesis
      using False k rune_len_append [OF k, of t] rune_len_bound [of s]
      by (simp add: utf8_valid.simps [of "s @ t"])
  qed (use "1.prems" in simp)
qed

lemma utf8_rune: "rune_len s \<noteq> 0 \<Longrightarrow> utf8_valid (take (rune_len s) s)"
proof -
  assume k: "rune_len s \<noteq> 0"
  then have "s \<noteq> []" by (auto simp: rune_len_def)
  with k rune_len_take [OF k] show ?thesis
    by (subst utf8_valid.simps) simp
qed

lemma utf8_ascii: "list_all is_ascii s \<Longrightarrow> utf8_valid s"
proof (induction s)
  case (Cons c s)
  then have "rune_len (c # s) = 1"
    by (simp add: rune_len_def byte_in_def is_ascii_def)
  with Cons show ?case by (simp add: utf8_valid.simps [of "c # s"])
qed simp

lemma utf8_filter_fuel: "utf8_valid (filter_runes_fuel n p s)"
proof (induction n p s rule: filter_runes_fuel.induct)
  case (3 n p a s)
  then show ?case
    using utf8_rune [of "a # s"] by (auto simp: Let_def intro!: utf8_append)
qed simp_all

section \<open>Bounded labels\<close>

definition label_char :: "char \<Rightarrow> bool" where
  "label_char c \<longleftrightarrow> is_lower c \<or> is_digit c \<or> c = CHR ''-'' \<or> c = CHR ''.'' \<or> c = CHR ''_''"

lemma label_char_facts:
  "label_char c \<Longrightarrow> plain_char c \<and> is_ascii c \<and> ascii_lower c = c"
proof -
  assume c: "label_char c"
  have "is_lower c \<Longrightarrow> plain_char c \<and> is_ascii c \<and> ascii_lower c = c"
    by (auto simp: is_lower_def is_ascii_def ascii_lower_def Let_def plain_char_def space_runes_def)
  moreover have "is_digit c \<Longrightarrow> plain_char c \<and> is_ascii c \<and> ascii_lower c = c"
    by (auto simp: is_digit_def is_ascii_def ascii_lower_def Let_def plain_char_def space_runes_def)
  moreover have "plain_char d \<and> is_ascii d \<and> ascii_lower d = d" if "d \<in> {CHR ''-'', CHR ''.'', CHR ''_''}" for d
    using that by (auto simp: is_ascii_def ascii_lower_def Let_def plain_char_def space_runes_def)
  ultimately show ?thesis using c unfolding label_char_def by blast
qed

lemma norm_id: "list_all label_char v \<Longrightarrow> norm v = v"
proof -
  assume v: "list_all label_char v"
  then have "list_all plain_char v" "list_all is_ascii v" "map ascii_lower v = v"
    using label_char_facts by (auto simp: list_all_iff intro: map_idI)
  then show ?thesis by (simp add: norm_def trim_space_all_plain to_lower_ascii)
qed

lemma serviceRE_chars: "serviceRE v \<Longrightarrow> list_all label_char v"
  by (cases v) (auto simp: serviceRE_def label_char_def list_all_iff)

lemma eventTypeRE_chars: "eventTypeRE v \<Longrightarrow> list_all label_char v"
  by (cases v) (auto simp: eventTypeRE_def label_char_def list_all_iff)

lemma allowed_chars:
  "list_all (list_all label_char) allowedErrorTypes" "list_all (list_all label_char) allowedReasons"
  "list_all (list_all label_char) allowedResults" "list_all (list_all label_char) allowedBusinessOps"
  by code_simp+

lemma literal_labels:
  "serviceRE ''unknown''" "eventTypeRE ''other''" "\<not> contains ''other'' ''..''"
  by code_simp+

text \<open>
  The contract of a sanitizer of label values: the result is always a good value, and a good value
  is left alone.
\<close>

locale bounded_label =
  fixes sanitize :: "string \<Rightarrow> string" and good :: "string \<Rightarrow> bool"
  assumes sanitize_good: "good (sanitize v)"
    and good_fixed: "good v \<Longrightarrow> sanitize v = v"
begin

lemma sanitize_idem: "sanitize (sanitize v) = sanitize v"
  by (rule good_fixed) (rule sanitize_good)

lemma sanitize_range: "range sanitize = Collect good"
  using sanitize_good good_fixed by (auto simp: image_iff) metis

end

definition event_type_good :: "string \<Rightarrow> bool" where
  "event_type_good v \<longleftrightarrow> eventTypeRE v \<and> \<not> contains v ''..''"

definition allowed :: "string list \<Rightarrow> string \<Rightarrow> bool" where
  "allowed vs v \<longleftrightarrow> v \<in> set vs"

lemma allowed_norm: "list_all (list_all label_char) vs \<Longrightarrow> allowed vs v \<Longrightarrow> norm v = v"
  by (rule norm_id) (auto simp: allowed_def list_all_iff)

interpretation service: bounded_label SanitizeService serviceRE
proof unfold_locales
  show "serviceRE (SanitizeService v)" for v
    using literal_labels by (auto simp: SanitizeService_def Let_def)
  show "serviceRE v \<Longrightarrow> SanitizeService v = v" for v
    by (auto simp: SanitizeService_def Let_def norm_id [OF serviceRE_chars] serviceRE_def)
qed

interpretation event_type: bounded_label SanitizeEventType event_type_good
proof unfold_locales
  show "event_type_good (SanitizeEventType v)" for v
    using literal_labels by (auto simp: SanitizeEventType_def event_type_good_def Let_def)
  show "event_type_good v \<Longrightarrow> SanitizeEventType v = v" for v
    by (simp add: SanitizeEventType_def event_type_good_def Let_def norm_id [OF eventTypeRE_chars])
qed

interpretation reason: bounded_label SanitizeReason "allowed allowedReasons"
proof unfold_locales
  show "allowed allowedReasons (SanitizeReason v)" for v
    by (auto simp: SanitizeReason_def allowed_def Let_def) (simp_all add: allowedReasons_def)
  show "allowed allowedReasons v \<Longrightarrow> SanitizeReason v = v" for v
    using allowed_norm [OF allowed_chars(2)] by (simp add: SanitizeReason_def Let_def allowed_def)
qed

interpretation result: bounded_label SanitizeResult "allowed allowedResults"
proof unfold_locales
  show "allowed allowedResults (SanitizeResult v)" for v
    by (auto simp: SanitizeResult_def allowed_def Let_def) (simp_all add: allowedResults_def)
  show "allowed allowedResults v \<Longrightarrow> SanitizeResult v = v" for v
    using allowed_norm [OF allowed_chars(3)] by (simp add: SanitizeResult_def Let_def allowed_def)
qed

interpretation error_type: bounded_label SanitizeErrorType "allowed allowedErrorTypes"
proof unfold_locales
  show "allowed allowedErrorTypes (SanitizeErrorType v)" for v
    by (auto simp: SanitizeErrorType_def allowed_def Let_def) (simp_all add: allowedErrorTypes_def)
  show "allowed allowedErrorTypes v \<Longrightarrow> SanitizeErrorType v = v" for v
    using allowed_norm [OF allowed_chars(1)] by (simp add: SanitizeErrorType_def Let_def allowed_def)
qed

interpretation protocol: bounded_label sanitizeProtocol "allowed [''http'', ''grpc'']"
  by unfold_locales (auto simp: sanitizeProtocol_def allowed_def)

interpretation strict_error_type: bounded_label sanitizeErrorType "allowed allowedErrorTypes"
  by unfold_locales (auto simp: sanitizeErrorType_def allowed_def allowedErrorTypes_def)

interpretation breaker: bounded_label sanitizeBreakerState "allowed [''open'', ''half_open'', ''closed'']"
  by unfold_locales (auto simp: sanitizeBreakerState_def allowed_def)

text \<open>The values a label may have.\<close>

definition label_good :: "string \<Rightarrow> string \<Rightarrow> bool" where
  "label_good label v =
     (if label = ''source'' \<or> label = ''service'' then serviceRE v
      else if label = ''destination'' then serviceRE v \<or> v \<noteq> [] \<and> length v \<le> 64
      else if label = ''event_type'' then event_type_good v
      else if label = ''exchange'' then v \<noteq> [] \<and> length v \<le> 64
      else if label = ''operation'' then v \<noteq> [] \<and> length v \<le> 128
      else if label = ''protocol'' then allowed [''http'', ''grpc''] v
      else if label = ''status'' then allowed [''success'', ''error''] v
      else if label = ''error_type'' then allowed allowedErrorTypes v
      else if label = ''reason'' then allowed allowedReasons v
      else if label = ''result''
      then allowed allowedResults v \<or> allowed [''success'', ''business_rejected'', ''system_failure''] v
      else False)"

text \<open>
  An update of a registered metric of the right kind, with as many values as the metric has labels, all
  of them good.
\<close>

definition update_good :: "'f update \<Rightarrow> bool" where
  "update_good u =
     (case u of (name, vals, ope) \<Rightarrow>
        (case find (\<lambda>(n, k, ls). n = name) registry of
           None \<Rightarrow> False
         | Some (n, k, ls) \<Rightarrow> op_fits k ope \<and> list_all2 label_good ls vals))"

text \<open>
  What holds of every update: as above, but for the protocol of \<open>RecordClientFailure\<close>, which is passed on
  as it is; and every value but that one and an operation is valid UTF-8.
\<close>

definition raw_protocol :: "string \<Rightarrow> string \<Rightarrow> bool" where
  "raw_protocol metric label \<longleftrightarrow> metric = ''service_client_failures_total'' \<and> label = ''protocol''"

definition label_fits :: "string \<Rightarrow> string \<Rightarrow> string \<Rightarrow> bool" where
  "label_fits metric label v \<longleftrightarrow>
     raw_protocol metric label \<or> label_good label v \<and> (label = ''operation'' \<or> utf8_valid v)"

definition update_fits :: "'f update \<Rightarrow> bool" where
  "update_fits u =
     (case u of (name, vals, ope) \<Rightarrow>
        (case find (\<lambda>(n, k, ls). n = name) registry of
           None \<Rightarrow> False
         | Some (n, k, ls) \<Rightarrow> op_fits k ope \<and> list_all2 (label_fits name) ls vals))"

text \<open>
  \<open>WithLabelValues\<close> of the client library panics on a number of values that is not the number of
  labels, and on a value that is not valid UTF-8.
\<close>

definition update_accepted :: "'f update \<Rightarrow> bool" where
  "update_accepted u =
     (case u of (name, vals, ope) \<Rightarrow>
        (case find (\<lambda>(n, k, ls). n = name) registry of
           None \<Rightarrow> False
         | Some (n, k, ls) \<Rightarrow> length vals = length ls \<and> list_all utf8_valid vals))"

text \<open>The values of an update that are passed on without a check of their characters.\<close>

definition raw_values :: "'f update \<Rightarrow> string list" where
  "raw_values u =
     (case u of (name, vals, ope) \<Rightarrow>
        (case find (\<lambda>(n, k, ls). n = name) registry of
           None \<Rightarrow> []
         | Some (n, k, ls) \<Rightarrow>
             map snd (filter (\<lambda>(l, v). raw_protocol name l \<or> l = ''operation'') (zip ls vals))))"

text \<open>The registry, looked up.\<close>

lemma registry_lookup_1:
  "find (\<lambda>(n, k, ls). n = ''service_client_requests_total'') registry
     = Some (''service_client_requests_total'', Counter, [''source'', ''destination'', ''protocol'', ''operation'', ''status'', ''error_type''])"
  "find (\<lambda>(n, k, ls). n = ''service_client_request_duration_seconds'') registry
     = Some (''service_client_request_duration_seconds'', Histogram, [''source'', ''destination'', ''protocol'', ''operation''])"
  "find (\<lambda>(n, k, ls). n = ''s2s_auth_requests_total'') registry
     = Some (''s2s_auth_requests_total'', Counter, [''source'', ''destination''])"
  "find (\<lambda>(n, k, ls). n = ''s2s_auth_failures_total'') registry
     = Some (''s2s_auth_failures_total'', Counter, [''source'', ''destination'', ''reason''])"
  "find (\<lambda>(n, k, ls). n = ''s2s_token_requests_total'') registry
     = Some (''s2s_token_requests_total'', Counter, [''source'', ''destination''])"
  "find (\<lambda>(n, k, ls). n = ''s2s_token_request_failures_total'') registry
     = Some (''s2s_token_request_failures_total'', Counter, [''source'', ''destination'', ''reason''])"
  "find (\<lambda>(n, k, ls). n = ''s2s_token_cache_hits_total'') registry
     = Some (''s2s_token_cache_hits_total'', Counter, [''source'', ''destination''])"
  "find (\<lambda>(n, k, ls). n = ''messaging_publish_total'') registry
     = Some (''messaging_publish_total'', Counter, [''service'', ''event_type'', ''exchange'', ''result''])"
  by (simp_all add: registry_def registry_core_def registry_delivery_def)

lemma registry_lookup_2:
  "find (\<lambda>(n, k, ls). n = ''messaging_publish_failures_total'') registry
     = Some (''messaging_publish_failures_total'', Counter, [''service'', ''event_type'', ''exchange''])"
  "find (\<lambda>(n, k, ls). n = ''messaging_publish_duration_seconds'') registry
     = Some (''messaging_publish_duration_seconds'', Histogram, [''service'', ''event_type'', ''exchange''])"
  "find (\<lambda>(n, k, ls). n = ''messaging_consume_total'') registry
     = Some (''messaging_consume_total'', Counter, [''service'', ''event_type'', ''result''])"
  "find (\<lambda>(n, k, ls). n = ''messaging_consume_failures_total'') registry
     = Some (''messaging_consume_failures_total'', Counter, [''service'', ''event_type'', ''result''])"
  "find (\<lambda>(n, k, ls). n = ''messaging_processing_duration_seconds'') registry
     = Some (''messaging_processing_duration_seconds'', Histogram, [''service'', ''event_type''])"
  "find (\<lambda>(n, k, ls). n = ''messaging_retry_total'') registry
     = Some (''messaging_retry_total'', Counter, [''service'', ''event_type''])"
  "find (\<lambda>(n, k, ls). n = ''messaging_dlq_total'') registry
     = Some (''messaging_dlq_total'', Counter, [''service'', ''event_type''])"
  "find (\<lambda>(n, k, ls). n = ''messaging_oldest_message_age_seconds'') registry
     = Some (''messaging_oldest_message_age_seconds'', Gauge, [''service'', ''event_type''])"
  by (simp_all add: registry_def registry_core_def registry_delivery_def)

lemma registry_lookup_3:
  "find (\<lambda>(n, k, ls). n = ''messaging_unroutable_total'') registry
     = Some (''messaging_unroutable_total'', Counter, [''service'', ''event_type'', ''exchange''])"
  "find (\<lambda>(n, k, ls). n = ''messaging_confirm_timeout_total'') registry
     = Some (''messaging_confirm_timeout_total'', Counter, [''service'', ''event_type'', ''exchange''])"
  "find (\<lambda>(n, k, ls). n = ''outbox_pending_total'') registry
     = Some (''outbox_pending_total'', Gauge, [''service'', ''destination'', ''event_type''])"
  "find (\<lambda>(n, k, ls). n = ''outbox_failed_total'') registry
     = Some (''outbox_failed_total'', Gauge, [''service'', ''destination'', ''event_type''])"
  "find (\<lambda>(n, k, ls). n = ''outbox_exhausted_total'') registry
     = Some (''outbox_exhausted_total'', Gauge, [''service'', ''destination'', ''event_type''])"
  "find (\<lambda>(n, k, ls). n = ''outbox_oldest_pending_seconds'') registry
     = Some (''outbox_oldest_pending_seconds'', Gauge, [''service'', ''destination'', ''event_type''])"
  "find (\<lambda>(n, k, ls). n = ''outbox_dispatch_total'') registry
     = Some (''outbox_dispatch_total'', Counter, [''service'', ''destination'', ''event_type'', ''result''])"
  "find (\<lambda>(n, k, ls). n = ''outbox_dispatch_failures_total'') registry
     = Some (''outbox_dispatch_failures_total'', Counter, [''service'', ''destination'', ''event_type''])"
  by (simp_all add: registry_def registry_core_def registry_delivery_def)

lemma registry_lookup_4:
  "find (\<lambda>(n, k, ls). n = ''outbox_dispatch_duration_seconds'') registry
     = Some (''outbox_dispatch_duration_seconds'', Histogram, [''service'', ''destination'', ''event_type''])"
  "find (\<lambda>(n, k, ls). n = ''consumer_duplicate_total'') registry
     = Some (''consumer_duplicate_total'', Counter, [''service'', ''event_type''])"
  "find (\<lambda>(n, k, ls). n = ''reconciliation_mismatch_total'') registry
     = Some (''reconciliation_mismatch_total'', Counter, [''service'', ''operation''])"
  "find (\<lambda>(n, k, ls). n = ''reconciliation_repaired_total'') registry
     = Some (''reconciliation_repaired_total'', Counter, [''service'', ''operation''])"
  "find (\<lambda>(n, k, ls). n = ''reconciliation_scanned_total'') registry
     = Some (''reconciliation_scanned_total'', Counter, [''service'', ''operation''])"
  "find (\<lambda>(n, k, ls). n = ''reconciliation_failed_total'') registry
     = Some (''reconciliation_failed_total'', Counter, [''service'', ''operation''])"
  "find (\<lambda>(n, k, ls). n = ''ambiguous_operations_total'') registry
     = Some (''ambiguous_operations_total'', Counter, [''service'', ''operation''])"
  "find (\<lambda>(n, k, ls). n = ''circuit_breaker_state'') registry
     = Some (''circuit_breaker_state'', Gauge, [''service'', ''destination''])"
  by (simp_all add: registry_def registry_core_def registry_delivery_def)

lemma registry_lookup_5:
  "find (\<lambda>(n, k, ls). n = ''circuit_breaker_transitions_total'') registry
     = Some (''circuit_breaker_transitions_total'', Counter, [''service'', ''destination'', ''result''])"
  "find (\<lambda>(n, k, ls). n = ''service_client_failures_total'') registry
     = Some (''service_client_failures_total'', Counter, [''source'', ''destination'', ''protocol'', ''error_type''])"
  "find (\<lambda>(n, k, ls). n = ''service_client_retries_total'') registry
     = Some (''service_client_retries_total'', Counter, [''source'', ''destination'', ''protocol''])"
  "find (\<lambda>(n, k, ls). n = ''service_client_timeouts_total'') registry
     = Some (''service_client_timeouts_total'', Counter, [''source'', ''destination'', ''protocol''])"
  "find (\<lambda>(n, k, ls). n = ''service_client_give_up_total'') registry
     = Some (''service_client_give_up_total'', Counter, [''source'', ''destination'', ''protocol'', ''error_type''])"
  "find (\<lambda>(n, k, ls). n = ''business_operation_total'') registry
     = Some (''business_operation_total'', Counter, [''service'', ''operation'', ''result''])"
  "find (\<lambda>(n, k, ls). n = ''business_operation_failures_total'') registry
     = Some (''business_operation_failures_total'', Counter, [''service'', ''operation''])"
  by (simp_all add: registry_def registry_core_def registry_delivery_def)

lemmas registry_lookup =
  registry_lookup_1 registry_lookup_2 registry_lookup_3 registry_lookup_4 registry_lookup_5

lemma label_good_simps:
  "label_good ''source'' v = serviceRE v" "label_good ''service'' v = serviceRE v"
  "label_good ''destination'' v = (serviceRE v \<or> v \<noteq> [] \<and> length v \<le> 64)"
  "label_good ''event_type'' v = event_type_good v"
  "label_good ''exchange'' v = (v \<noteq> [] \<and> length v \<le> 64)"
  "label_good ''operation'' v = (v \<noteq> [] \<and> length v \<le> 128)"
  "label_good ''protocol'' v = allowed [''http'', ''grpc''] v"
  "label_good ''status'' v = allowed [''success'', ''error''] v"
  "label_good ''error_type'' v = allowed allowedErrorTypes v"
  "label_good ''reason'' v = allowed allowedReasons v"
  "label_good ''result'' v = (allowed allowedResults v
     \<or> allowed [''success'', ''business_rejected'', ''system_failure''] v)"
  by (simp_all add: label_good_def)

lemma exchange_bounds: "SanitizeExchange uni v \<noteq> [] \<and> length (SanitizeExchange uni v) \<le> 64"
  by (auto simp: SanitizeExchange_def Let_def)

lemma operation_bounds: "SanitizeOperation v \<noteq> [] \<and> length (SanitizeOperation v) \<le> 128"
  by (auto simp: SanitizeOperation_def Let_def)

lemma outbox_dest_good:
  "serviceRE (sanitizeOutboxDest uni v) \<or> sanitizeOutboxDest uni v \<noteq> [] \<and> length (sanitizeOutboxDest uni v) \<le> 64"
  using exchange_bounds [of uni v] service.sanitize_good [of v]
  by (simp add: sanitizeOutboxDest_def Let_def)

lemma business_op_bounds:
  "SanitizeBusinessOp v \<noteq> [] \<Longrightarrow> SanitizeBusinessOp v \<noteq> [] \<and> length (SanitizeBusinessOp v) \<le> 128"
proof -
  have "list_all (\<lambda>v. length v \<le> 128) allowedBusinessOps" by code_simp
  then show "SanitizeBusinessOp v \<noteq> [] \<Longrightarrow> ?thesis"
    by (auto simp: SanitizeBusinessOp_def Let_def list_all_iff Suc_le_eq)
qed

lemma business_result_good:
  "allowed [''success'', ''business_rejected'', ''system_failure''] (stringsToBusinessResult r)"
  by (auto simp: stringsToBusinessResult_def allowed_def Let_def)

lemma breaker_result: "allowed allowedResults (sanitizeBreakerState s)"
  using breaker.sanitize_good [of s] by (auto simp: allowed_def allowedResults_def)

lemma status_class_good:
  "allowed [''success'', ''error''] (fst (HTTPStatusClass c)) \<and> allowed allowedErrorTypes (snd (HTTPStatusClass c))"
  by (simp add: HTTPStatusClass_def allowed_def allowedErrorTypes_def)

lemma error_type_from_err_good: "allowed allowedErrorTypes (errorTypeFromErr e)"
  by (auto simp: errorTypeFromErr_def allowed_def allowedErrorTypes_def Let_def split: option.split)

lemma classify_http_good:
  "allowed [''success'', ''error''] (fst (classifyHTTP r e)) \<and> allowed allowedErrorTypes (snd (classifyHTTP r e))"
  using status_class_good error_type_from_err_good
  by (auto simp: classifyHTTP_def split: option.split) (simp_all add: allowed_def allowedErrorTypes_def)

lemma classify_grpc_good:
  "allowed [''success'', ''error''] (fst (classifyGRPC e)) \<and> allowed allowedErrorTypes (snd (classifyGRPC e))"
proof -
  have "allowed [''success'', ''error''] (fst (grpc_class c)) \<and> allowed allowedErrorTypes (snd (grpc_class c))" for c
    by (cases c) (simp_all add: grpc_class_def allowed_def allowedErrorTypes_def)
  moreover have "allowed [''success'', ''error''] ''success'' \<and> allowed [''success'', ''error''] ''error''
      \<and> allowed allowedErrorTypes ''none''"
    by (simp add: allowed_def allowedErrorTypes_def)
  ultimately show ?thesis
    using error_type_from_err_good [of e] by (auto simp: classifyGRPC_def split: option.split)
qed

lemmas label_rules =
  update_good_def registry_lookup label_good_simps service.sanitize_good event_type.sanitize_good
  reason.sanitize_good result.sanitize_good error_type.sanitize_good protocol.sanitize_good
  strict_error_type.sanitize_good exchange_bounds operation_bounds outbox_dest_good
  business_op_bounds business_result_good breaker_result Let_def outbox_labels_def
  operation_count_def

lemma label_chars_utf8: "list_all label_char v \<Longrightarrow> utf8_valid v"
  by (rule utf8_ascii) (auto simp: list_all_iff label_char_facts)

lemma listed_utf8: "list_all (list_all label_char) vs \<Longrightarrow> allowed vs v \<Longrightarrow> utf8_valid v"
  using label_chars_utf8 by (auto simp: allowed_def list_all_iff)

lemma literal_lists:
  "list_all (list_all label_char) [''http'', ''grpc'']" "list_all (list_all label_char) [''success'', ''error'']"
  "list_all (list_all label_char) [''success'', ''business_rejected'', ''system_failure'']"
  "list_all label_char ''default''" "list_all label_char ''other''" "list_all label_char ''unknown''"
  by code_simp+

lemma exchange_utf8: "utf8_valid (SanitizeExchange uni v)"
  using literal_lists(4,5) [THEN label_chars_utf8] utf8_filter_fuel
  by (auto simp: SanitizeExchange_def filter_runes_def Let_def)

lemma service_utf8: "utf8_valid (SanitizeService v)"
  by (rule label_chars_utf8 [OF serviceRE_chars]) (rule service.sanitize_good)

lemma outbox_dest_utf8: "utf8_valid (sanitizeOutboxDest uni v)"
  using exchange_utf8 service_utf8 by (simp add: sanitizeOutboxDest_def Let_def)

lemma sanitized_utf8:
  "utf8_valid (SanitizeEventType v)" "utf8_valid (SanitizeReason v)" "utf8_valid (SanitizeResult v)"
  "utf8_valid (SanitizeErrorType v)" "utf8_valid (sanitizeProtocol v)" "utf8_valid (sanitizeErrorType v)"
  "utf8_valid (sanitizeBreakerState v)" "utf8_valid (stringsToBusinessResult v)"
proof -
  show "utf8_valid (SanitizeEventType v)"
    using event_type.sanitize_good [of v] eventTypeRE_chars label_chars_utf8 by (simp add: event_type_good_def)
  show "utf8_valid (SanitizeReason v)" "utf8_valid (SanitizeResult v)" "utf8_valid (SanitizeErrorType v)"
    "utf8_valid (sanitizeErrorType v)" "utf8_valid (sanitizeBreakerState v)"
    using listed_utf8 allowed_chars reason.sanitize_good result.sanitize_good error_type.sanitize_good
      strict_error_type.sanitize_good breaker_result by blast+
  show "utf8_valid (sanitizeProtocol v)" "utf8_valid (stringsToBusinessResult v)"
    using listed_utf8 literal_lists protocol.sanitize_good business_result_good by blast+
qed

lemma label_fits_simps:
  "m \<noteq> ''service_client_failures_total'' \<or> l \<noteq> ''protocol'' \<Longrightarrow>
     label_fits m l v \<longleftrightarrow> label_good l v \<and> (l = ''operation'' \<or> utf8_valid v)"
  "label_fits ''service_client_failures_total'' ''protocol'' v"
  by (auto simp: label_fits_def raw_protocol_def)

lemmas fit_rules = label_rules update_fits_def label_fits_simps sanitized_utf8 exchange_utf8 service_utf8
  outbox_dest_utf8

text \<open>The calls of the recording functions that services make.\<close>

inductive recorder :: "(string \<Rightarrow> bool) \<Rightarrow> int \<Rightarrow> 'f update list \<Rightarrow> bool" for uni now where
  "recorder uni now (RecordS2SAuth s d)"
| "recorder uni now (RecordS2SAuthFailure s d r)"
| "recorder uni now (RecordTokenRequest s d)"
| "recorder uni now (RecordTokenRequestFailure s d r)"
| "recorder uni now (RecordTokenCacheHit s d)"
| "recorder uni now (RecordPublish uni now s e x r t)"
| "recorder uni now (RecordConsume now s e r t)"
| "recorder uni now (RecordRetry s e)"
| "recorder uni now (RecordDLQ s e)"
| "recorder uni now (RecordUnroutable uni s e x)"
| "recorder uni now (RecordConfirmTimeout uni s e x)"
| "recorder uni now (RecordDuplicate s e)"
| "recorder uni now (SetOldestMessageAge s e a)"
| "recorder uni now (ObserveMessageTimestamp now s e t)"
| "recorder uni now (SetOutboxPending uni s d e n)"
| "recorder uni now (SetOutboxFailed uni s d e n)"
| "recorder uni now (SetOutboxExhausted uni s d e n)"
| "recorder uni now (SetOutboxOldestPending uni s d e a)"
| "recorder uni now (RecordReconciliationMismatch s p)"
| "recorder uni now (RecordReconciliationRepaired s p)"
| "recorder uni now (RecordReconciliationScanned s p)"
| "recorder uni now (RecordReconciliationFailed s p)"
| "recorder uni now (RecordAmbiguousOperation s p)"
| "recorder uni now (SetCircuitBreakerState s d st)"
| "recorder uni now (RecordClientFailure s d pr r)"
| "recorder uni now (RecordOutboxDispatch uni now s d e r t)"
| "recorder uni now (RecordBusiness s p r)"
| "recorder uni now (RecordClientRetry s d pr)"
| "recorder uni now (RecordClientTimeout s d pr)"
| "recorder uni now (RecordClientGiveUp s d pr r)"
| "recorder uni now (RecordCircuitBreakerTransition s d st)"

lemma recorder_fits: "recorder uni now us \<Longrightarrow> list_all update_fits us"
proof (induction rule: recorder.induct)
  case (6 s e x r t)
  then show ?case by (cases t) (simp_all add: RecordPublish_def since_def fit_rules)
next
  case (7 s e r t)
  then show ?case by (cases t) (simp_all add: RecordConsume_def since_def fit_rules)
next
  case (14 s e t)
  then show ?case
    by (cases t) (simp_all add: ObserveMessageTimestamp_def SetOldestMessageAge_def fit_rules)
next
  case (26 s d e r t)
  then show ?case by (cases t) (simp_all add: RecordOutboxDispatch_def since_def fit_rules)
qed (simp_all add: RecordS2SAuth_def RecordS2SAuthFailure_def RecordTokenRequest_def
    RecordTokenRequestFailure_def RecordTokenCacheHit_def RecordRetry_def RecordDLQ_def
    RecordUnroutable_def RecordConfirmTimeout_def RecordDuplicate_def SetOldestMessageAge_def
    SetOutboxPending_def SetOutboxFailed_def SetOutboxExhausted_def SetOutboxOldestPending_def
    RecordReconciliationMismatch_def RecordReconciliationRepaired_def
    RecordReconciliationScanned_def RecordReconciliationFailed_def RecordAmbiguousOperation_def
    SetCircuitBreakerState_def RecordClientFailure_def RecordBusiness_def RecordClientRetry_def
    RecordClientTimeout_def RecordClientGiveUp_def RecordCircuitBreakerTransition_def fit_rules)

section \<open>Correctness\<close>

lemma NormalizePath_bounds: "NormalizePath url_path p \<noteq> [] \<and> length (NormalizePath url_path p) \<le> 96"
  by (auto simp: NormalizePath_def Let_def)

lemma HTTPOperation_bounds:
  "length (to_upper (trim_space m)) \<le> 31 \<Longrightarrow>
     HTTPOperation url_path m p \<noteq> [] \<and> length (HTTPOperation url_path m p) \<le> 128"
  using NormalizePath_bounds [of url_path p] by (auto simp: HTTPOperation_def Let_def)

lemma GRPCOperation_bounds: "GRPCOperation m \<noteq> [] \<and> length (GRPCOperation m) \<le> 128"
  using operation_bounds by (auto simp: GRPCOperation_def Let_def split: option.split)

lemma fits_accepted: "update_fits u \<Longrightarrow> update_accepted u \<longleftrightarrow> list_all utf8_valid (raw_values u)"
proof -
  assume f: "update_fits u"
  obtain name vals ope where u: "u = (name, vals, ope)" by (cases u rule: prod.exhaust) auto
  with f obtain n k ls where find: "find (\<lambda>(n, k, ls). n = name) registry = Some (n, k, ls)"
    and fits: "list_all2 (label_fits name) ls vals"
    by (auto simp: update_fits_def split: option.splits)
  have "list_all utf8_valid vals \<longleftrightarrow>
      list_all utf8_valid (map snd (filter (\<lambda>(l, v). raw_protocol name l \<or> l = ''operation'') (zip ls vals)))"
    using fits by (induction rule: list_all2_induct) (auto simp: label_fits_def)
  with u find list_all2_lengthD [OF fits] show ?thesis
    by (simp add: update_accepted_def raw_values_def)
qed

text \<open>
  C32. No recording function blows up the cardinality of a metric, whatever strings the caller passes: each
  update names a registered metric of the right kind with as many values as it has labels, and each value is
  from the small set of its label (a service name, an event type, one of the listed reasons,
  results and error types, an exchange of at most 64 bytes, an operation of at most 128), except the
  protocol of \<open>RecordClientFailure\<close>, which is passed on unchecked. And an update is accepted by
  \<open>WithLabelValues\<close> exactly if the values whose characters are not checked, operations and that protocol,
  are valid UTF-8; otherwise it panics.
\<close>

theorem recorded_labels_bounded:
  assumes "recorder uni now us"
  shows "list_all update_fits us
    \<and> (list_all update_accepted us \<longleftrightarrow> list_all (\<lambda>u. list_all utf8_valid (raw_values u)) us)"
proof -
  have fits: "list_all update_fits us" by (rule recorder_fits [OF assms])
  have "update_accepted u \<longleftrightarrow> list_all utf8_valid (raw_values u)" if "u \<in> set us" for u
    by (rule fits_accepted) (use fits that in \<open>simp add: list_all_iff\<close>)
  then have "list_all update_accepted us \<longleftrightarrow> list_all (\<lambda>u. list_all utf8_valid (raw_values u)) us"
    by (rule list.pred_cong [OF refl])
  with fits show ?thesis ..
qed

theorem recorded_labels_bounded_witness:
  "list_all update_fits (RecordTokenRequestFailure ''evil\<newline>name'' [] ''raw error text'' :: int update list)
   \<and> list_all update_accepted (RecordTokenRequestFailure ''evil\<newline>name'' [] ''raw error text'' :: int update list)"
proof -
  have r: "recorder (\<lambda>r. False) 0 (RecordTokenRequestFailure ''evil\<newline>name'' [] ''raw error text'' :: int update list)"
    by (rule recorder.intros)
  have "list_all (\<lambda>u. list_all utf8_valid (raw_values u))
      (RecordTokenRequestFailure ''evil\<newline>name'' [] ''raw error text'' :: int update list)"
    by (simp add: RecordTokenRequestFailure_def raw_values_def raw_protocol_def registry_lookup Let_def)
  with recorded_labels_bounded [OF r] show ?thesis by blast
qed

text \<open>
  The two exceptions are real: \<open>RecordClientFailure\<close> keeps its label bounded only if the caller's protocol
  is, and an operation of valid UTF-8 that is cut at byte 128 may end within a character, so that recording
  it panics.
\<close>

theorem client_failure_protocol_raw:
  "list_all update_good (RecordClientFailure source destination protocol errorType :: 'f update list)
     \<longleftrightarrow> allowed [''http'', ''grpc''] protocol"
  by (simp add: RecordClientFailure_def label_rules)

definition long_operation :: string where
  "long_operation = replicate 127 CHR ''a'' @ [CHR 0xC3, CHR 0xA9]"

theorem cut_operation_panics:
  "utf8_valid long_operation
   \<and> \<not> list_all update_accepted (RecordAmbiguousOperation ''svc'' long_operation :: 'f update list)"
proof -
  have cut: "SanitizeOperation long_operation = replicate 127 CHR ''a'' @ [CHR 0xC3]" by code_simp
  have ascii: "utf8_valid (replicate 127 CHR ''a'')"
    by (rule utf8_ascii) (simp add: list_all_iff is_ascii_def)
  moreover have "utf8_valid [CHR 0xC3, CHR 0xA9]" "\<not> utf8_valid (SanitizeOperation long_operation)"
    unfolding cut by code_simp+
  ultimately show ?thesis
    unfolding long_operation_def [symmetric]
    by (auto simp: RecordAmbiguousOperation_def operation_count_def update_accepted_def registry_lookup
        long_operation_def intro!: utf8_append)
qed

text \<open>
  The instrumented HTTP client returns what the base transport returned and records one request
  and one duration, and one failure exactly when the status label is not success, all under bounded
  labels (for methods of at most 31 bytes).
\<close>

lemma roundtrip_updates:
  assumes "metrics_RoundTrip url_path clock src dst base (Some r) w = Some (resp, err, us, w')"
    and "length (to_upper (trim_space (hr_Method r))) \<le> 31"
    and "length (cx_http_operation (hr_Ctx r)) \<le> 128"
  shows "list_all update_good us \<and> length us = (if fst (classifyHTTP resp err) = ''success'' then 2 else 3)
    \<and> (\<exists>oper. base (r\<lparr>hr_Ctx := WithOperation (Some (hr_Ctx r)) oper\<rparr>) w = (resp, err, w'))"
proof -
  from assms(1) obtain oper where op: "httpOpFromRequest url_path (Some r) = Some oper"
    and b: "base (r\<lparr>hr_Ctx := WithOperation (Some (hr_Ctx r)) oper\<rparr>) w = (resp, err, w')"
    by (auto simp: metrics_RoundTrip_def Let_def split: option.splits prod.splits)
  have oper: "oper \<noteq> [] \<and> length oper \<le> 128"
    using op assms(2,3) HTTPOperation_bounds
    by (auto simp: httpOpFromRequest_def split: if_splits option.splits prod.splits)
  obtain st et where c: "classifyHTTP resp err = (st, et)" by (cases "classifyHTTP resp err")
  have good: "allowed [''success'', ''error''] st" "allowed allowedErrorTypes et"
    using classify_http_good [of resp err] c by simp_all
  have h: "allowed [''http'', ''grpc''] ''http''" by (simp add: allowed_def)
  show ?thesis
    using assms(1) op b c oper good h
    by (auto simp: metrics_RoundTrip_def since_def label_rules)
qed

theorem roundtrip_records:
  assumes "metrics_RoundTrip url_path clock src dst base (Some r) w = Some (resp, err, us, w')"
    and "length (to_upper (trim_space (hr_Method r))) \<le> 31"
    and "length (cx_http_operation (hr_Ctx r)) \<le> 128"
  shows "list_all update_good us \<and> length us = (if fst (classifyHTTP resp err) = ''success'' then 2 else 3)
    \<and> (\<exists>oper. base (r\<lparr>hr_Ctx := WithOperation (Some (hr_Ctx r)) oper\<rparr>) w = (resp, err, w'))"
  using assms by (rule roundtrip_updates)

definition demo_request :: http_request where
  "demo_request = \<lparr>hr_Ctx = background, hr_Method = ''get'', hr_URL = Some (''/users/42'', []), hr_Header = []\<rparr>"

theorem roundtrip_records_witness:
  "\<exists>us. metrics_RoundTrip Some int ''api'' ''users'' (\<lambda>r w. (Some 404, None, Suc w)) (Some demo_request) 1
      = Some (Some 404, None, us :: int update list, 2)
    \<and> list_all update_good us \<and> length us = 3"
proof -
  obtain us where us: "metrics_RoundTrip Some int ''api'' ''users'' (\<lambda>r w. (Some 404, None, Suc w))
      (Some demo_request) 1 = Some (Some 404, None, us :: int update list, 2)"
    by (simp add: metrics_RoundTrip_def httpOpFromRequest_def demo_request_def background_def
        classifyHTTP_def HTTPStatusClass_def Let_def)
  have m: "length (to_upper (trim_space (hr_Method demo_request))) \<le> 31"
    "length (cx_http_operation (hr_Ctx demo_request)) \<le> 128"
    by (simp_all add: demo_request_def background_def trim_space_all_plain plain_char_code)
      (code_simp)?
  from roundtrip_records [OF us m] us show ?thesis
    by (simp add: classifyHTTP_def HTTPStatusClass_def)
qed

text \<open>
  The sanitizers are projections: sanitizing twice is sanitizing once, so a value that has passed
  one layer keeps its series in the next.
\<close>

theorem sanitizers_idempotent:
  "SanitizeService (SanitizeService v) = SanitizeService v
   \<and> SanitizeEventType (SanitizeEventType v) = SanitizeEventType v
   \<and> SanitizeReason (SanitizeReason v) = SanitizeReason v
   \<and> SanitizeResult (SanitizeResult v) = SanitizeResult v
   \<and> SanitizeErrorType (SanitizeErrorType v) = SanitizeErrorType v"
  using service.sanitize_idem event_type.sanitize_idem reason.sanitize_idem result.sanitize_idem
    error_type.sanitize_idem by blast

end
