(* ===== verification/S2S.thy ===== *)
theory S2S
  imports Tokens Metrics_Labels
begin

text \<open>
  \<open>security/s2s\<close>: service identities, the verifier and the signer of service tokens (\<open>s2s.go\<close>), the
  registry of service credentials (\<open>registry.go\<close>), the caching token client (\<open>client.go\<close>) and the
  transport that puts a token on outbound requests (\<open>http.go\<close>).

  Times are in nanoseconds since the epoch. Signing is the argument \<open>sign\<close> (private key, claims and
  header \<open>kid\<close>). \<open>None\<close> is the nil receiver.
\<close>

section \<open>Identities\<close>

definition HasScope :: "identity \<Rightarrow> string \<Rightarrow> bool" where
  "HasScope i scope \<longleftrightarrow> List.member (id_Scopes i) scope"

fun HasAnyScope :: "identity \<Rightarrow> string list \<Rightarrow> bool" where
  "HasAnyScope i [] = False"
| "HasAnyScope i (s # ss) = (if HasScope i s then True else HasAnyScope i ss)"

lemma HasAnyScope_iff: "HasAnyScope i ss \<longleftrightarrow> (\<exists>s\<in>set ss. s \<in> set (id_Scopes i))"
  by (induction ss) (auto simp: HasScope_def)

definition ContextWithIdentity :: "obs_ctx \<Rightarrow> identity \<Rightarrow> obs_ctx" where
  "ContextWithIdentity ctx i = ctx\<lparr>cx_identity := Some i\<rparr>"

definition IdentityFromContext :: "obs_ctx option \<Rightarrow> identity option" where
  "IdentityFromContext ctx = (case ctx of None \<Rightarrow> None | Some c \<Rightarrow> cx_identity c)"

section \<open>Failures\<close>

definition s2s_reasons :: "string list" where
  "s2s_reasons =
     [''missing_token'', ''expired'', ''invalid_signature'', ''invalid_audience'', ''invalid_issuer'',
      ''missing_scope'', ''unknown_service'', ''token_fetch_failed'']"

definition classifyJWTError :: "goerr option \<Rightarrow> string" where
  "classifyJWTError err =
     (case err of
        None \<Rightarrow> ''invalid_signature''
      | Some e \<Rightarrow>
          if jwt_is TokenExpired e then ''expired''
          else if jwt_is TokenInvalidAudience e then ''invalid_audience''
          else if jwt_is TokenInvalidIssuer e then ''invalid_issuer''
          else if jwt_is TokenSignatureInvalid e then ''invalid_signature''
          else let msg = to_lower (err_text e)
               in if contains msg ''audience'' then ''invalid_audience''
                  else if contains msg ''issuer'' then ''invalid_issuer''
                  else if contains msg ''expired'' then ''expired''
                  else ''invalid_signature'')"

definition unauthenticatedWith :: "string \<Rightarrow> goerr option \<Rightarrow> goerr" where
  "unauthenticatedWith reason cause =
     (let re = WithMessage ''unauthenticated service''
                 (WithKind KindUnauthenticated (RichError_New ''security.s2s.Verify''));
          re = (case cause of None \<Rightarrow> re | Some c \<Rightarrow> WithErr (Some c) re)
      in EAuthFailure (Some (AuthFailure reason (Some (ERich (Some re))))))"

definition s2s_unauthenticated :: goerr where
  "s2s_unauthenticated = unauthenticatedWith ''invalid_signature'' None"

definition forbiddenUnknownService :: goerr where
  "forbiddenUnknownService =
     EAuthFailure (Some (AuthFailure ''unknown_service''
       (Some (refusal ''security.s2s.Verify'' KindForbidden ''service not allowed''))))"

text \<open>\<open>None\<close> is the panic on a nil \<open>*AuthFailure\<close> in the chain.\<close>

definition ReasonOf :: "goerr option \<Rightarrow> string option" where
  "ReasonOf err =
     (let by_kind = (case err of
            None \<Rightarrow> ''invalid_signature''
          | Some e \<Rightarrow>
              (case as_rich e of
                 None \<Rightarrow> ''invalid_signature''
               | Some re \<Rightarrow>
                   if RichError_Kind re = KindForbidden then ''missing_scope''
                   else ''invalid_signature''))
      in case err of
           None \<Rightarrow> Some by_kind
         | Some e \<Rightarrow>
             (case as_auth_failure e of
                None \<Rightarrow> Some by_kind
              | Some None \<Rightarrow> None
              | Some (Some af) \<Rightarrow> Some (if af_Reason af \<noteq> [] then af_Reason af else by_kind)))"

section \<open>Verifier\<close>

record s2s_claims = claims +
  sc_Scopes :: "string list"

record s2s_config =
  sv_Issuer :: string
  sv_Audience :: string
  sv_JWKSURL :: string
  sv_JWKSCacheTTL :: int
  sv_StaticKeys :: "(string \<times> string) list"
  sv_Leeway :: int
  sv_AllowedSubjects :: "string list"

record s2s_verifier =
  sv_cfg :: s2s_config
  sv_cache :: cache
  sv_allowed :: "string list"

definition s2s_NewVerifier :: "int \<Rightarrow> s2s_config \<Rightarrow> goerr + s2s_verifier" where
  "s2s_NewVerifier now cfg0 =
     (let cfg = cfg0\<lparr>sv_Issuer := trim_space (sv_Issuer cfg0),
                     sv_Audience := trim_space (sv_Audience cfg0),
                     sv_JWKSURL := trim_space (sv_JWKSURL cfg0)\<rparr>
      in if sv_Issuer cfg = [] then Inl (EText ''s2s verifier: issuer is required'')
         else if sv_Audience cfg = [] then Inl (EText ''s2s verifier: audience is required'')
         else if sv_JWKSURL cfg = [] \<and> sv_StaticKeys cfg = []
         then Inl (EText ''s2s verifier: jwks URL or static keys required'')
         else let cfg = cfg\<lparr>sv_Leeway := (if sv_Leeway cfg \<le> 0 then 30 * second else sv_Leeway cfg)\<rparr>
              in Inr \<lparr>sv_cfg = cfg,
                      sv_cache = Seed now (sv_StaticKeys cfg)
                                   (NewCache (sv_JWKSURL cfg) (sv_JWKSCacheTTL cfg)),
                      sv_allowed = filter (\<lambda>s. s \<noteq> []) (map trim_space (sv_AllowedSubjects cfg))\<rparr>)"

definition s2s_Ready :: "s2s_verifier option \<Rightarrow> bool" where
  "s2s_Ready v = (case v of None \<Rightarrow> False | Some v \<Rightarrow> Len (sv_cache v) > 0)"

definition s2s_Warm ::
    "'w jwks_env \<Rightarrow> s2s_verifier option \<Rightarrow> 'w \<Rightarrow> goerr option \<times> s2s_verifier option \<times> 'w"
where
  "s2s_Warm env v0 w =
     (case v0 of
        None \<Rightarrow> (Some (EText ''s2s verifier is nil''), None, w)
      | Some v \<Rightarrow>
          if sv_JWKSURL (sv_cfg v) = []
          then (if s2s_Ready v0 then None else Some (EText ''s2s verifier: no keys available''), v0, w)
          else (case Refresh env (sv_cache v) w of
                  (err, c, w') \<Rightarrow>
                    let v' = Some (v\<lparr>sv_cache := c\<rparr>)
                    in (if err \<noteq> None \<and> \<not> s2s_Ready v' then err else None, v', w')))"

definition s2s_Audience :: "s2s_verifier option \<Rightarrow> string" where
  "s2s_Audience v = (case v of None \<Rightarrow> [] | Some v \<Rightarrow> sv_Audience (sv_cfg v))"

definition s2s_opts :: "s2s_config \<Rightarrow> parser_opts" where
  "s2s_opts cfg =
     \<lparr>po_Methods = [''EdDSA''], po_Issuer = Some (sv_Issuer cfg),
      po_Audience = Some (sv_Audience cfg), po_Leeway = sv_Leeway cfg,
      po_ExpirationRequired = True\<rparr>"

definition s2s_accept :: "s2s_verifier \<Rightarrow> s2s_claims token \<Rightarrow> goerr + identity" where
  "s2s_accept v t =
     (let cl = tk_Claims t
      in if \<not> tk_Valid t \<or> trim_space (rg_Subject cl) = []
         then Inl (unauthenticatedWith ''invalid_signature'' None)
         else if sv_allowed v \<noteq> [] \<and> \<not> List.member (sv_allowed v) (rg_Subject cl)
         then Inl forbiddenUnknownService
         else Inr \<lparr>id_Subject = rg_Subject cl, id_Audience = rg_Audience cl, id_Scopes = sc_Scopes cl\<rparr>)"

definition s2s_Verify ::
    "'w jwks_env \<Rightarrow> s2s_claims jwt_lib \<Rightarrow> string \<Rightarrow> s2s_verifier option \<Rightarrow> 'w
       \<Rightarrow> (goerr + identity) \<times> s2s_verifier option \<times> 'w"
where
  "s2s_Verify env lib rawToken v0 w =
     (case v0 of
        None \<Rightarrow> (Inl (unauthenticatedWith ''missing_token'' None), None, w)
      | Some v \<Rightarrow>
          (let raw = trimBearer rawToken
           in if raw = [] then (Inl (unauthenticatedWith ''missing_token'' None), v0, w)
              else case EnsureFresh env (sv_cache v) w of
                (_, c, w) \<Rightarrow>
                  (case ParseWithClaims lib (je_Now env) (s2s_opts (sv_cfg v)) raw
                          (cache_keyfunc (Lookup env)) c w of
                     (Inl err, c', w') \<Rightarrow>
                       (Inl (unauthenticatedWith (classifyJWTError (Some err)) (Some err)),
                        Some (v\<lparr>sv_cache := c'\<rparr>), w')
                   | (Inr t, c', w') \<Rightarrow> (s2s_accept v t, Some (v\<lparr>sv_cache := c'\<rparr>), w'))))"

section \<open>Signer\<close>

record signer_config =
  sg_Issuer :: string
  sg_KeyID :: string
  sg_PrivateKey :: string
  sg_TTL :: int

definition NewSigner :: "signer_config \<Rightarrow> goerr + signer_config" where
  "NewSigner cfg0 =
     (let cfg = cfg0\<lparr>sg_Issuer := trim_space (sg_Issuer cfg0), sg_KeyID := trim_space (sg_KeyID cfg0)\<rparr>
      in if sg_Issuer cfg = [] \<or> sg_KeyID cfg = []
         then Inl (EText ''s2s signer: issuer and key ID are required'')
         else if length (sg_PrivateKey cfg) \<noteq> 64
         then Inl (EText ''s2s signer: valid Ed25519 private key required'')
         else Inr (cfg\<lparr>sg_TTL := (if sg_TTL cfg \<le> 0 then 2 * minute else sg_TTL cfg)\<rparr>))"

text \<open>\<open>jwtlib.NewNumericDate\<close> truncates to seconds.\<close>

definition numeric_date :: "int \<Rightarrow> int" where
  "numeric_date t = t div second * second"

definition issue_claims :: "signer_config \<Rightarrow> string \<Rightarrow> string \<Rightarrow> string list \<Rightarrow> int \<Rightarrow> s2s_claims" where
  "issue_claims s subject audience scopes now =
     \<lparr>rg_Issuer = sg_Issuer s, rg_Subject = subject, rg_Audience = [audience],
      rg_ExpiresAt = Some (numeric_date (now + sg_TTL s)),
      rg_NotBefore = Some (numeric_date (now - 5 * second)),
      rg_IssuedAt = Some (numeric_date now), sc_Scopes = scopes\<rparr>"

definition Issue ::
    "(string \<Rightarrow> s2s_claims token \<Rightarrow> goerr + string) \<Rightarrow> signer_config option
       \<Rightarrow> string \<Rightarrow> string \<Rightarrow> string list \<Rightarrow> int \<Rightarrow> goerr + (string \<times> int)"
where
  "Issue sign s0 subject0 audience0 scopes now =
     (case s0 of
        None \<Rightarrow> Inl (EText ''s2s signer: not configured'')
      | Some s \<Rightarrow>
          (let subject = trim_space subject0; audience = trim_space audience0
           in if subject = [] \<or> audience = []
              then Inl (EText ''s2s signer: subject and audience are required'')
              else case sign (sg_PrivateKey s)
                          \<lparr>tk_Alg = ''EdDSA'', tk_Kid = Some (sg_KeyID s),
                           tk_Claims = issue_claims s subject audience scopes now, tk_Valid = False\<rparr> of
                     Inl err \<Rightarrow> Inl err
                   | Inr tok \<Rightarrow> Inr (tok, now + sg_TTL s)))"

definition Mint ::
    "(string \<Rightarrow> s2s_claims token \<Rightarrow> goerr + string) \<Rightarrow> signer_config option
       \<Rightarrow> string \<Rightarrow> string \<Rightarrow> string list \<Rightarrow> int \<Rightarrow> goerr + string"
where
  "Mint sign s subject audience scopes now = map_sum id fst (Issue sign s subject audience scopes now)"

section \<open>Service registry\<close>

record credential =
  cr_Name :: string
  cr_Secret :: string
  cr_Audiences :: "string list"
  cr_Scopes :: "string list"

type_synonym service_registry = "(string \<times> credential) list"

fun register_all :: "credential list \<Rightarrow> service_registry \<Rightarrow> service_registry" where
  "register_all [] m = m"
| "register_all (c # cs) m =
     (let name = trim_space (cr_Name c); secret = trim_space (cr_Secret c)
      in if name = [] \<or> secret = [] then register_all cs m
         else register_all cs (AList.update name (c\<lparr>cr_Name := name, cr_Secret := secret\<rparr>) m))"

definition NewServiceRegistry :: "credential list \<Rightarrow> service_registry" where
  "NewServiceRegistry creds = register_all creds []"

definition registry_Len :: "service_registry option \<Rightarrow> nat" where
  "registry_Len r = (case r of None \<Rightarrow> 0 | Some m \<Rightarrow> length m)"

text \<open>\<open>subtle.ConstantTimeCompare\<close> is 1 exactly when the texts are equal.\<close>

definition Authenticate :: "service_registry option \<Rightarrow> string \<Rightarrow> string \<Rightarrow> credential option" where
  "Authenticate r name0 secret0 =
     (case r of
        None \<Rightarrow> None
      | Some m \<Rightarrow>
          (let name = trim_space name0; secret = trim_space secret0
           in if name = [] \<or> secret = [] then None
              else case map_of m name of
                     None \<Rightarrow> None
                   | Some cred \<Rightarrow> if secret \<noteq> cr_Secret cred then None else Some cred))"

definition registry_Lookup :: "service_registry option \<Rightarrow> string \<Rightarrow> credential option" where
  "registry_Lookup r name = (case r of None \<Rightarrow> None | Some m \<Rightarrow> map_of m (trim_space name))"

definition MayRequestAudience :: "credential \<Rightarrow> string \<Rightarrow> bool" where
  "MayRequestAudience c aud0 =
     (let aud = trim_space aud0
      in if aud = [] then False
         else if cr_Audiences c = [] then False
         else list_ex (\<lambda>a. trim_space a = ''*'' \<or> trim_space a = aud) (cr_Audiences c))"

section \<open>Token client\<close>

text \<open>
  The state of \<open>ServiceTokenClient\<close> with its cache; \<open>expiresAt\<close> starts as the zero time, which is
  long past. The world has a clock; \<open>tc_Post\<close> is the POST to the token endpoint with the three
  headers (URL, service, secret, audience) and its response, \<open>tc_Marshal\<close> and \<open>tc_Decode\<close> the JSON
  of request and response (token and \<open>expires_in\<close>).
\<close>

record token_client =
  tc_baseURL :: string
  tc_service :: string
  tc_secret :: string
  tc_audience :: string
  tc_token :: string
  tc_tokenAudience :: string
  tc_expiresAt :: int

record 'w token_env =
  te_Now :: "'w \<Rightarrow> int"
  te_Marshal :: "string \<Rightarrow> goerr + string"
  te_NewRequest :: "string \<Rightarrow> goerr option"
  te_Post :: "string \<Rightarrow> string \<Rightarrow> string \<Rightarrow> string \<Rightarrow> 'w \<Rightarrow> (goerr + (int \<times> string)) \<times> 'w"
  te_Decode :: "string \<Rightarrow> goerr + (string \<times> int)"

definition zero_time :: int where
  "zero_time = - (62135596800 * second)"

definition trim_slashes :: "string \<Rightarrow> string" where
  "trim_slashes s = rev (dropWhile (\<lambda>c. c = CHR ''/'') (rev s))"

text \<open>The timeout of the HTTP client that is made when none is given.\<close>

definition token_timeout :: "int \<Rightarrow> int" where
  "token_timeout t = (if t \<le> 0 then 10 * second else t)"

definition NewServiceTokenClient :: "string \<Rightarrow> string \<Rightarrow> string \<Rightarrow> string \<Rightarrow> goerr + token_client" where
  "NewServiceTokenClient baseURL serviceName serviceSecret audience =
     (let base = trim_slashes (trim_space baseURL); name = trim_space serviceName;
          secret = trim_space serviceSecret; aud = trim_space audience
      in if base = [] \<or> name = [] \<or> secret = [] \<or> aud = []
         then Inl (EText ''service token client: base_url, service_name, service_secret and audience are required'')
         else Inr \<lparr>tc_baseURL = base, tc_service = name, tc_secret = secret, tc_audience = aud,
                   tc_token = [], tc_tokenAudience = [], tc_expiresAt = zero_time\<rparr>)"

text \<open>\<open>time.Duration(out.ExpiresIn) * time.Second\<close> is a product of \<open>int64\<close>.\<close>

definition expiry :: "int \<Rightarrow> int \<Rightarrow> int" where
  "expiry now expiresIn =
     (if expiresIn \<le> 0 then now + 4 * minute else now + wrap64 (expiresIn * second))"

definition token_fetch ::
    "'w token_env \<Rightarrow> token_client \<Rightarrow> string \<Rightarrow> 'w \<Rightarrow> (goerr + (string \<times> int)) \<times> 'w"
where
  "token_fetch env c audience w =
     (case te_Marshal env audience of
        Inl err \<Rightarrow> (Inl err, w)
      | Inr body \<Rightarrow>
          (case te_NewRequest env (tc_baseURL c @ ''/auth/service-tokens'') of
             Some err \<Rightarrow> (Inl err, w)
           | None \<Rightarrow>
               (case te_Post env (tc_baseURL c @ ''/auth/service-tokens'') (tc_service c) (tc_secret c) body w of
                  (Inl err, w') \<Rightarrow> (Inl (EWrap ''service token: '' err), w')
                | (Inr (status, raw), w') \<Rightarrow>
                    if status < 200 \<or> status \<ge> 300
                    then (Inl (EText (''service token: auth-service returned '' @ itoa status @ '': ''
                                      @ take 8192 raw)), w')
                    else (case te_Decode env (take 8192 raw) of
                            Inl err \<Rightarrow> (Inl (EWrap ''service token: decode: '' err), w')
                          | Inr (tok, expiresIn) \<Rightarrow>
                              if tok = [] then (Inl (EText ''service token: empty access_token''), w')
                              else (Inr (tok, expiry (te_Now env w') expiresIn), w')))))"

definition cache_hit :: "token_client \<Rightarrow> string \<Rightarrow> int \<Rightarrow> bool" where
  "cache_hit c aud now \<longleftrightarrow> tc_token c \<noteq> [] \<and> tc_tokenAudience c = aud
     \<and> now < tc_expiresAt c - 30 * second"

definition Token ::
    "'w token_env \<Rightarrow> string \<Rightarrow> token_client \<Rightarrow> 'w
       \<Rightarrow> (goerr + string) \<times> int update list \<times> token_client \<times> 'w"
where
  "Token env audience c w =
     (let aud = (if trim_space audience = [] then tc_audience c else trim_space audience)
      in if cache_hit c aud (te_Now env w)
         then (Inr (tc_token c), RecordTokenCacheHit (tc_service c) aud, c, w)
         else case token_fetch env c aud w of
                (Inl err, w') \<Rightarrow>
                  (Inl err,
                   RecordTokenRequest (tc_service c) aud
                     @ RecordTokenRequestFailure (tc_service c) aud ''token_fetch_failed'', c, w')
              | (Inr (tok, exp), w') \<Rightarrow>
                  (Inr tok, RecordTokenRequest (tc_service c) aud,
                   c\<lparr>tc_token := tok, tc_tokenAudience := aud, tc_expiresAt := exp\<rparr>, w'))"

section \<open>Transport\<close>

text \<open>\<open>Header.Set\<close> and the lookup of a header; keys are given in their canonical form.\<close>

definition header_set :: "string \<Rightarrow> string \<Rightarrow> (string \<times> string) list \<Rightarrow> (string \<times> string) list" where
  "header_set k v h = AList.update k v h"

definition SetBearer :: "http_request option \<Rightarrow> string \<Rightarrow> http_request option" where
  "SetBearer req token =
     (case req of
        None \<Rightarrow> None
      | Some r \<Rightarrow>
          if token = [] then Some r
          else Some (r\<lparr>hr_Header := header_set ''Authorization'' (AuthorizationHeader token) (hr_Header r)\<rparr>))"

text \<open>
  \<open>RoundTrip\<close>: the source is a function of the audience on a state, \<open>None\<close> for nil; the base
  transport gets the copy of the request and the state.
\<close>

definition s2s_RoundTrip ::
    "(string \<Rightarrow> 's \<Rightarrow> (goerr + string) \<times> 's) option \<Rightarrow> string
       \<Rightarrow> (http_request \<Rightarrow> 's \<Rightarrow> (goerr + int) \<times> 's) \<Rightarrow> http_request option \<Rightarrow> 's
       \<Rightarrow> (goerr + int) \<times> 's"
where
  "s2s_RoundTrip source audience base req s =
     (case req of
        None \<Rightarrow> (Inl (EText ''s2s transport: request is nil''), s)
      | Some r \<Rightarrow>
          (case source of
             None \<Rightarrow> (Inl (EText ''s2s transport: token source is required''), s)
           | Some src \<Rightarrow>
               if audience = [] then (Inl (EText ''s2s transport: audience is required''), s)
               else case src audience s of
                      (Inl err, s') \<Rightarrow> (Inl err, s')
                    | (Inr token, s') \<Rightarrow>
                        base (r\<lparr>hr_Header := header_set ''Authorization'' (AuthorizationHeader token)
                                               (hr_Header r)\<rparr>) s'))"

section \<open>Verification\<close>

text \<open>The library accepts a token only with the claims the text of the token has.\<close>

definition jwt_reads :: "'cl jwt_lib \<Rightarrow> bool" where
  "jwt_reads lib \<longleftrightarrow>
     (\<forall>now opts raw k t. jl_After lib now opts raw k = Inr t \<longrightarrow>
        (\<exists>u. jl_ParseUnverified lib raw = Inr u \<and> tk_Claims u = tk_Claims t))"

lemma parse_reads:
  "jwt_reads lib \<Longrightarrow> ParseWithClaims lib now opts raw keyfunc c w = (Inr t, c', w')
     \<Longrightarrow> \<exists>u. jl_ParseUnverified lib raw = Inr u \<and> tk_Claims u = tk_Claims t"
  by (auto simp: ParseWithClaims_def jwt_reads_def split: sum.splits prod.splits)

lemma s2s_verify_checks:
  assumes "jwt_sound verifies lib" and "cache_good (sv_cache v)"
    and "s2s_Verify env lib rawToken (Some v) w = (Inr i, v', w')"
  shows "\<exists>v1 kid pk (cl :: s2s_claims). v' = Some v1 \<and> cache_holds (sv_cache v1) kid pk \<and> length pk = 32
    \<and> (jwt_reads lib \<longrightarrow> (\<exists>u. jl_ParseUnverified lib (trimBearer rawToken) = Inr u \<and> tk_Claims u = cl))
    \<and> verifies ''EdDSA'' pk (trimBearer rawToken)
    \<and> rg_Issuer cl = sv_Issuer (sv_cfg v) \<and> sv_Audience (sv_cfg v) \<in> set (rg_Audience cl)
    \<and> (\<exists>e. rg_ExpiresAt cl = Some e \<and> je_Now env w' < e + sv_Leeway (sv_cfg v))
    \<and> i = \<lparr>id_Subject = rg_Subject cl, id_Audience = rg_Audience cl, id_Scopes = sc_Scopes cl\<rparr>
    \<and> trim_space (id_Subject i) \<noteq> [] \<and> (sv_allowed v = [] \<or> id_Subject i \<in> set (sv_allowed v))"
proof -
  from assms(3) obtain q c w1 t c' where
    fresh: "EnsureFresh env (sv_cache v) w = (q, c, w1)"
    and p: "ParseWithClaims lib (je_Now env) (s2s_opts (sv_cfg v)) (trimBearer rawToken)
        (cache_keyfunc (Lookup env)) c w1 = (Inr t, c', w')"
    and a: "s2s_accept v t = Inr i" and v': "v' = Some (v\<lparr>sv_cache := c'\<rparr>)"
    by (auto simp: s2s_Verify_def Let_def split: if_splits prod.splits sum.splits)
  have good: "cache_good c" using jwks.fresh_good [OF assms(2) fresh] .
  from jwks.parse_trusted [OF good assms(1) p] obtain kid pk where
    k: "cache_holds c' kid pk" "verifies (tk_Alg t) pk (trimBearer rawToken)" "length pk = 32"
    and m: "meets (je_Now env w') (s2s_opts (sv_cfg v)) t" by blast
  have "tk_Alg t = ''EdDSA''" using m by (simp add: meets_def s2s_opts_def)
  with k v' have key: "v' = Some (v\<lparr>sv_cache := c'\<rparr>) \<and> cache_holds (sv_cache (v\<lparr>sv_cache := c'\<rparr>)) kid pk
      \<and> length pk = 32 \<and> verifies ''EdDSA'' pk (trimBearer rawToken)" by simp
  have id: "i = \<lparr>id_Subject = rg_Subject (tk_Claims t), id_Audience = rg_Audience (tk_Claims t),
      id_Scopes = sc_Scopes (tk_Claims t)\<rparr>"
    and sub: "trim_space (id_Subject i) \<noteq> []" "sv_allowed v = [] \<or> id_Subject i \<in> set (sv_allowed v)"
    using a by (auto simp: s2s_accept_def Let_def split: if_splits)
  have "rg_Issuer (tk_Claims t) = sv_Issuer (sv_cfg v)"
    "sv_Audience (sv_cfg v) \<in> set (rg_Audience (tk_Claims t))"
    "\<exists>e. rg_ExpiresAt (tk_Claims t) = Some e \<and> je_Now env w' < e + sv_Leeway (sv_cfg v)"
    using m by (simp_all add: meets_def s2s_opts_def)
  moreover have "jwt_reads lib \<Longrightarrow>
      \<exists>u. jl_ParseUnverified lib (trimBearer rawToken) = Inr u \<and> tk_Claims u = tk_Claims t"
    using parse_reads [OF _ p] .
  ultimately show ?thesis using key id sub by blast
qed

lemma s2s_verify_trusted:
  assumes "jwt_sound verifies lib" and "cache_good (sv_cache v)"
    and "s2s_Verify env lib rawToken (Some v) w = (Inr i, v', w')"
  shows "\<exists>v1 kid pk (cl :: s2s_claims). v' = Some v1 \<and> cache_holds (sv_cache v1) kid pk \<and> length pk = 32
    \<and> verifies ''EdDSA'' pk (trimBearer rawToken)
    \<and> rg_Issuer cl = sv_Issuer (sv_cfg v) \<and> sv_Audience (sv_cfg v) \<in> set (rg_Audience cl)
    \<and> (\<exists>e. rg_ExpiresAt cl = Some e \<and> je_Now env w' < e + sv_Leeway (sv_cfg v))
    \<and> i = \<lparr>id_Subject = rg_Subject cl, id_Audience = rg_Audience cl, id_Scopes = sc_Scopes cl\<rparr>
    \<and> trim_space (id_Subject i) \<noteq> [] \<and> (sv_allowed v = [] \<or> id_Subject i \<in> set (sv_allowed v))"
  using s2s_verify_checks [OF assms] by (elim exE conjE) blast

lemma s2s_new_good:
  "s2s_NewVerifier now cfg = Inr v \<Longrightarrow> cache_good (sv_cache v)
     \<and> sv_allowed v = filter (\<lambda>s. s \<noteq> []) (map trim_space (sv_AllowedSubjects cfg))"
  by (auto simp: s2s_NewVerifier_def Let_def cache_good_def Seed_def NewCache_def seed_keys_ok
      split: if_splits)

text \<open>
  C16. A service token is accepted only if it is trustworthy. Given a library that accepts a token only
  with the claims its text has, \<open>Verify\<close> returns an identity only for a token whose EdDSA signature verifies
  under a 32-byte key the JWKS cache holds, and whose own claims, those its text decodes to, have the
  configured issuer and audience, are not expired beyond the leeway, and name a subject that is not
  blank and, if subjects are restricted, one of the allowed; and the identity is the
  subject, the audience and the scopes of these claims.
\<close>

theorem s2s_verify_accepts:
  assumes "jwt_sound verifies lib" and "jwt_reads lib" and "s2s_NewVerifier now cfg = Inr v0"
    and "sv_cfg v = sv_cfg v0" and "sv_allowed v = sv_allowed v0"
    and "cache_reaches env (sv_cache v0) (sv_cache v)"
    and "s2s_Verify env lib rawToken (Some v) w = (Inr i, v', w')"
  shows "\<exists>v1 kid pk u cl. v' = Some v1 \<and> cache_holds (sv_cache v1) kid pk \<and> length pk = 32
    \<and> verifies ''EdDSA'' pk (trimBearer rawToken)
    \<and> jl_ParseUnverified lib (trimBearer rawToken) = Inr u \<and> cl = tk_Claims u
    \<and> rg_Issuer cl = sv_Issuer (sv_cfg v) \<and> sv_Audience (sv_cfg v) \<in> set (rg_Audience cl)
    \<and> (\<exists>e. rg_ExpiresAt cl = Some e \<and> je_Now env w' < e + sv_Leeway (sv_cfg v))
    \<and> i = \<lparr>id_Subject = rg_Subject cl, id_Audience = rg_Audience cl, id_Scopes = sc_Scopes cl\<rparr>
    \<and> trim_space (rg_Subject cl) \<noteq> [] \<and> (sv_allowed v = [] \<or> rg_Subject cl \<in> set (sv_allowed v))"
proof -
  have "cache_good (sv_cache v0)" using s2s_new_good [OF assms(3)] ..
  then have "cache_good (sv_cache v)"
    using cache_reaches_ok [OF assms(6)] by (simp add: cache_good_def)
  from s2s_verify_checks [OF assms(1) this assms(7)] assms(2) show ?thesis
    by (elim exE conjE) (auto 4 4)
qed

text \<open>Refusals.\<close>

lemma unauthenticatedWith_facts:
  "ReasonOf (Some (unauthenticatedWith r cause)) = Some (if r = [] then ''invalid_signature'' else r)"
  "\<exists>re. as_rich (unauthenticatedWith r cause) = Some re \<and> RichError_Kind re = KindUnauthenticated
     \<and> RichError_Message re = ''unauthenticated service''"
  by (cases cause; auto simp: ReasonOf_def unauthenticatedWith_def as_auth_failure_def as_rich_def
      find_err.simps AuthFailure_Unwrap_def WithMessage_def WithKind_def RichError_New_def
      WithErr_def RichError_Kind.simps RichError_Message.simps Let_def)+

lemma forbidden_facts:
  "ReasonOf (Some forbiddenUnknownService) = Some ''unknown_service''"
  "\<exists>re. as_rich forbiddenUnknownService = Some re \<and> RichError_Kind re = KindForbidden
     \<and> RichError_Message re = ''service not allowed''"
  by (auto simp: ReasonOf_def forbiddenUnknownService_def as_auth_failure_def as_rich_def refusal_def
      find_err.simps AuthFailure_Unwrap_def WithMessage_def WithKind_def RichError_New_def
      RichError_Kind.simps RichError_Message.simps Let_def)

lemma status_kinds: "statusFromKind KindForbidden = 403" "statusFromKind KindUnauthenticated = 401"
  by (simp_all add: statusFromKind_def)

definition verify_reasons :: "string list" where
  "verify_reasons =
     [''missing_token'', ''expired'', ''invalid_signature'', ''invalid_audience'', ''invalid_issuer'']"

lemma classify_in: "classifyJWTError e \<in> set verify_reasons"
  by (auto simp: classifyJWTError_def verify_reasons_def Let_def split: option.split)

lemma s2s_refusal_kinds:
  assumes "s2s_Verify env lib rawToken v w = (Inl e, v', w')"
  shows "e = forbiddenUnknownService \<or> (\<exists>r c. r \<in> set verify_reasons \<and> e = unauthenticatedWith r c)"
proof -
  have r: "''missing_token'' \<in> set verify_reasons" "''invalid_signature'' \<in> set verify_reasons"
    by (simp_all add: verify_reasons_def)
  have acc: "s2s_accept u t = Inl e \<Longrightarrow>
      e = forbiddenUnknownService \<or> e = unauthenticatedWith ''invalid_signature'' None" for u t
    by (auto simp: s2s_accept_def Let_def split: if_splits)
  have "e = unauthenticatedWith ''missing_token'' None
      \<or> (\<exists>err. e = unauthenticatedWith (classifyJWTError (Some err)) (Some err))
      \<or> (\<exists>u t. s2s_accept u t = Inl e)"
    using assms
    by (auto simp: s2s_Verify_def Let_def split: option.splits if_splits prod.splits sum.splits)
  then show ?thesis using r classify_in acc by metis
qed

text \<open>
  Whatever is wrong with a service token, the caller gets one of two answers: 401
  \<open>unauthenticated service\<close>, with one of the bounded reasons for the metrics, or 403
  \<open>service not allowed\<close> for a subject outside the allowed ones; the cause is kept for the log and
  never becomes the message.
\<close>

theorem s2s_refusals_bounded:
  assumes "s2s_Verify env lib rawToken v w = (Inl e, v', w')"
  shows "\<exists>reason re. ReasonOf (Some e) = Some reason \<and> as_rich e = Some re
    \<and> (reason = ''unknown_service'' \<and> RichError_Message re = ''service not allowed''
         \<and> statusFromKind (RichError_Kind re) = 403
       \<or> reason \<in> set verify_reasons \<and> RichError_Message re = ''unauthenticated service''
         \<and> statusFromKind (RichError_Kind re) = 401)"
  using s2s_refusal_kinds [OF assms]
proof (elim disjE exE conjE)
  assume "e = forbiddenUnknownService"
  with forbidden_facts status_kinds show ?thesis by metis
next
  fix r c assume r: "r \<in> set verify_reasons" and e: "e = unauthenticatedWith r c"
  have "r \<noteq> []" using r by (auto simp: verify_reasons_def)
  with unauthenticatedWith_facts [of r c] r e status_kinds show ?thesis by metis
qed

definition demo_s2s_cfg :: s2s_config where
  "demo_s2s_cfg =
     \<lparr>sv_Issuer = ''iss'', sv_Audience = ''aud'', sv_JWKSURL = [], sv_JWKSCacheTTL = 0,
      sv_StaticKeys = [(''k1'', demo_pub)], sv_Leeway = 30, sv_AllowedSubjects = [''svc'']\<rparr>"

definition demo_s2s_verifier :: s2s_verifier where
  "demo_s2s_verifier =
     \<lparr>sv_cfg = demo_s2s_cfg,
      sv_cache = (NewCache [] 0)\<lparr>jc_keys := [(''k1'', demo_pub)], jc_fetchedAt := Some 5\<rparr>,
      sv_allowed = [''svc'']\<rparr>"

lemma demo_s2s_trims: "trim_space ''iss'' = ''iss''" "trim_space ''aud'' = ''aud''" "trim_space ''svc'' = ''svc''"
  by code_simp+

lemma demo_s2s_new: "s2s_NewVerifier 5 demo_s2s_cfg = Inr demo_s2s_verifier"
  by (simp add: s2s_NewVerifier_def demo_s2s_cfg_def demo_s2s_trims demo_s2s_verifier_def Seed_def
      NewCache_def PublicKeySize_def demo_pub_def)

definition demo_s2s_token :: "s2s_claims token" where
  "demo_s2s_token =
     \<lparr>tk_Alg = ''EdDSA'', tk_Kid = Some ''k1'',
      tk_Claims = \<lparr>rg_Issuer = ''iss'', rg_Subject = ''svc'', rg_Audience = [''aud''],
                   rg_ExpiresAt = Some 100, rg_NotBefore = None, rg_IssuedAt = None,
                   sc_Scopes = [''read'']\<rparr>,
      tk_Valid = True\<rparr>"

definition demo_identity :: identity where
  "demo_identity = \<lparr>id_Subject = ''svc'', id_Audience = [''aud''], id_Scopes = [''read'']\<rparr>"

lemma demo_s2s_verify:
  "s2s_Verify demo_jwks (toy_lib demo_s2s_token) toy_raw (Some demo_s2s_verifier) 1
     = (Inr demo_identity, Some demo_s2s_verifier, 1)"
proof -
  have fresh: "EnsureFresh demo_jwks (sv_cache demo_s2s_verifier) 1 = (None, sv_cache demo_s2s_verifier, 1)"
    by (simp add: EnsureFresh_def demo_s2s_verifier_def NewCache_def)
  have look: "cache_keyfunc (Lookup demo_jwks) demo_s2s_token (sv_cache demo_s2s_verifier) 1
      = (Inr demo_pub, sv_cache demo_s2s_verifier, 1)"
    by (simp add: cache_keyfunc_def kid_of_def demo_s2s_token_def Lookup_def Get_def demo_s2s_verifier_def)
  have "meets 1 (s2s_opts demo_s2s_cfg) demo_s2s_token"
    by (simp add: meets_def s2s_opts_def demo_s2s_token_def demo_s2s_cfg_def)
  moreover have "je_Now demo_jwks 1 = 1" "sv_cfg demo_s2s_verifier = demo_s2s_cfg"
    by (simp_all add: demo_jwks_def demo_s2s_verifier_def)
  ultimately have parse: "ParseWithClaims (toy_lib demo_s2s_token) (je_Now demo_jwks)
      (s2s_opts (sv_cfg demo_s2s_verifier)) (''t'' @ demo_pub) (cache_keyfunc (Lookup demo_jwks))
      (sv_cache demo_s2s_verifier) 1 = (Inr demo_s2s_token, sv_cache demo_s2s_verifier, 1)"
    using look by (simp add: ParseWithClaims_def toy_lib_def toy_verifies_def)
  have "s2s_accept demo_s2s_verifier demo_s2s_token = Inr demo_identity"
    by (simp add: s2s_accept_def demo_s2s_token_def demo_s2s_verifier_def demo_identity_def demo_s2s_trims)
  then show ?thesis using parse fresh by (simp add: s2s_Verify_def toy_raw_trim Let_def)
qed

lemma toy_lib_reads: "jwt_reads (toy_lib tok)"
  by (auto simp: jwt_reads_def toy_lib_def split: sum.splits if_splits)

theorem s2s_verify_accepts_witness:
  "\<exists>v1 kid pk. cache_holds (sv_cache v1) kid pk \<and> toy_verifies ''EdDSA'' pk (trimBearer toy_raw)
     \<and> rg_Issuer (tk_Claims demo_s2s_token) = sv_Issuer demo_s2s_cfg
     \<and> id_Subject demo_identity \<in> set (sv_allowed demo_s2s_verifier)
     \<and> s2s_Verify demo_jwks (toy_lib demo_s2s_token) toy_raw (Some demo_s2s_verifier) 1
         = (Inr demo_identity, Some v1, 1)"
proof -
  have r: "cache_reaches demo_jwks (sv_cache demo_s2s_verifier) (sv_cache demo_s2s_verifier)"
    by (simp add: cache_reaches_def)
  have p: "jl_ParseUnverified (toy_lib demo_s2s_token) raw = Inr demo_s2s_token" for raw
    by (simp add: toy_lib_def)
  have "sv_allowed demo_s2s_verifier \<noteq> []" "sv_cfg demo_s2s_verifier = demo_s2s_cfg"
    by (simp_all add: demo_s2s_verifier_def)
  moreover have sub: "id_Subject demo_identity = rg_Subject (tk_Claims demo_s2s_token)"
    by (simp add: demo_identity_def demo_s2s_token_def)
  ultimately show ?thesis
    using s2s_verify_accepts [OF toy_lib_sound toy_lib_reads demo_s2s_new refl refl r demo_s2s_verify]
      demo_s2s_verify
    unfolding p sub by auto
qed

theorem s2s_refusals_bounded_witness:
  "\<exists>e reason re. s2s_Verify demo_jwks (toy_lib demo_s2s_token) [] (Some demo_s2s_verifier) 1
       = (Inl e, Some demo_s2s_verifier, 1)
     \<and> ReasonOf (Some e) = Some reason \<and> reason \<in> set verify_reasons
     \<and> as_rich e = Some re \<and> RichError_Message re = ''unauthenticated service''"
proof -
  let ?e = "unauthenticatedWith ''missing_token'' None"
  have v: "s2s_Verify demo_jwks (toy_lib demo_s2s_token) [] (Some demo_s2s_verifier) 1
      = (Inl ?e, Some demo_s2s_verifier, 1)"
    by (simp add: s2s_Verify_def trimBearer_def)
  have r: "ReasonOf (Some ?e) = Some ''missing_token''" by (simp add: unauthenticatedWith_facts)
  from s2s_refusals_bounded [OF v] r v show ?thesis by fastforce
qed

section \<open>Minting and verifying\<close>

text \<open>
  What the library and Ed25519 promise for a token signed with a private key: it is a compact text
  (no white space around it, no scheme), it decodes to what was signed, and it is accepted with the
  public key at any time the claims are valid.
\<close>

definition jwt_complete ::
    "(string \<Rightarrow> 'a claims_scheme token \<Rightarrow> goerr + string) \<Rightarrow> 'a claims_scheme jwt_lib \<Rightarrow> bool"
where
  "jwt_complete sign lib \<longleftrightarrow>
     (\<forall>priv t raw. sign priv t = Inr raw \<longrightarrow>
        trimBearer raw = raw \<and> raw \<noteq> []
        \<and> (\<forall>opts. tk_Alg t \<in> set (po_Methods opts) \<longrightarrow> jl_Before lib opts raw = Inr t)
        \<and> (\<forall>now opts. meets now opts t
             \<and> (\<forall>nb. rg_NotBefore (tk_Claims t) = Some nb \<longrightarrow> nb \<le> now + po_Leeway opts)
             \<longrightarrow> jl_After lib now opts raw (Inr (PublicOf priv)) = Inr (t\<lparr>tk_Valid := True\<rparr>)))"

lemma numeric_date_le: "numeric_date t \<le> t"
  unfolding numeric_date_def second_def
  by (metis add.commute div_mult_mod_eq le_add_same_cancel2 pos_mod_sign zero_less_numeral)

lemma issued_token_accepted:
  assumes "jwt_complete sign lib"
    and "Issue sign (Some s) subject audience scopes now = Inr (raw, exp)"
    and "cache_holds (sv_cache v) (sg_KeyID s) (PublicOf (sg_PrivateKey s))" and "sg_KeyID s \<noteq> []"
    and "\<not> stale (je_Now env w) (sv_cache v) \<or> jc_url (sv_cache v) = []"
    and "sg_Issuer s = sv_Issuer (sv_cfg v)" and "trim_space audience = sv_Audience (sv_cfg v)"
    and "sv_allowed v = [] \<or> trim_space subject \<in> set (sv_allowed v)"
    and "0 \<le> sv_Leeway (sv_cfg v)" and "now \<le> je_Now env w"
    and "je_Now env w < numeric_date exp + sv_Leeway (sv_cfg v)"
  shows "s2s_Verify env lib raw (Some v) w
    = (Inr \<lparr>id_Subject = trim_space subject, id_Audience = [trim_space audience], id_Scopes = scopes\<rparr>,
       Some v, w)"
proof -
  let ?cl = "issue_claims s (trim_space subject) (trim_space audience) scopes now"
  let ?t = "\<lparr>tk_Alg = ''EdDSA'', tk_Kid = Some (sg_KeyID s), tk_Claims = ?cl, tk_Valid = False\<rparr>"
  from assms(2) have sub: "trim_space subject \<noteq> []"
    and sign: "sign (sg_PrivateKey s) ?t = Inr raw" and exp: "exp = now + sg_TTL s"
    by (auto simp: Issue_def Let_def split: if_splits sum.splits)
  let ?opts = "s2s_opts (sv_cfg v)"
  have raw: "trimBearer raw = raw" "raw \<noteq> []"
    and before: "tk_Alg ?t \<in> set (po_Methods ?opts) \<Longrightarrow> jl_Before lib ?opts raw = Inr ?t"
    and after: "meets (je_Now env w) ?opts ?t
       \<and> (\<forall>nb. rg_NotBefore (tk_Claims ?t) = Some nb \<longrightarrow> nb \<le> je_Now env w + po_Leeway ?opts)
       \<Longrightarrow> jl_After lib (je_Now env w) ?opts raw (Inr (PublicOf (sg_PrivateKey s)))
         = Inr (?t\<lparr>tk_Valid := True\<rparr>)"
    using assms(1) sign unfolding jwt_complete_def by blast+
  have "meets (je_Now env w) ?opts ?t"
    using assms(6,7,11) exp by (simp add: meets_def s2s_opts_def issue_claims_def)
  moreover have "numeric_date (now - 5 * second) \<le> je_Now env w + sv_Leeway (sv_cfg v)"
    using numeric_date_le [of "now - 5 * second"] assms(9,10) by (simp add: second_def)
  ultimately have after': "jl_After lib (je_Now env w) ?opts raw (Inr (PublicOf (sg_PrivateKey s)))
      = Inr (?t\<lparr>tk_Valid := True\<rparr>)"
    using after by (simp add: issue_claims_def s2s_opts_def)
  have get: "Get (sv_cache v) (sg_KeyID s) = Some (PublicOf (sg_PrivateKey s))"
    using assms(3) by (simp add: cache_holds_def)
  then have "jc_keys (sv_cache v) \<noteq> []" by (auto simp: Get_def)
  then have fresh: "EnsureFresh env (sv_cache v) w = (None, sv_cache v, w)"
    using assms(5) by (auto simp: EnsureFresh_def Let_def)
  have "cache_keyfunc (Lookup env) ?t (sv_cache v) w = (Inr (PublicOf (sg_PrivateKey s)), sv_cache v, w)"
    using get assms(4) by (simp add: cache_keyfunc_def kid_of_def Lookup_def)
  then have "ParseWithClaims lib (je_Now env) ?opts raw (cache_keyfunc (Lookup env)) (sv_cache v) w
      = (Inr (?t\<lparr>tk_Valid := True\<rparr>), sv_cache v, w)"
    using before after' by (simp add: ParseWithClaims_def s2s_opts_def)
  then show ?thesis
    using raw fresh sub assms(8)
    by (auto simp: s2s_Verify_def Let_def s2s_accept_def issue_claims_def)
qed

text \<open>
  What the signer issues, the verifier accepts: a token \<open>Issue\<close> returns for a subject and an
  audience is accepted by a verifier that has the same issuer, that audience and the signer's public
  key under its key identifier, and that allows the subject, from the time of issue until the expiry
  (in whole seconds, plus the leeway); the identity has the subject, the audience and the scopes
  that were asked for.
\<close>

theorem issued_tokens_verify:
  assumes "jwt_complete sign lib"
    and "Issue sign (Some s) subject audience scopes now = Inr (raw, exp)"
    and "cache_holds (sv_cache v) (sg_KeyID s) (PublicOf (sg_PrivateKey s))" and "sg_KeyID s \<noteq> []"
    and "\<not> stale (je_Now env w) (sv_cache v) \<or> jc_url (sv_cache v) = []"
    and "sg_Issuer s = sv_Issuer (sv_cfg v)" and "trim_space audience = sv_Audience (sv_cfg v)"
    and "sv_allowed v = [] \<or> trim_space subject \<in> set (sv_allowed v)"
    and "0 \<le> sv_Leeway (sv_cfg v)" and "now \<le> je_Now env w"
    and "je_Now env w < numeric_date exp + sv_Leeway (sv_cfg v)"
  shows "s2s_Verify env lib raw (Some v) w
    = (Inr \<lparr>id_Subject = trim_space subject, id_Audience = [trim_space audience], id_Scopes = scopes\<rparr>,
       Some v, w)"
  by (rule issued_token_accepted [OF assms])

definition toy_sign :: "'a claims_scheme token \<Rightarrow> string \<Rightarrow> 'a claims_scheme token \<Rightarrow> goerr + string" where
  "toy_sign tok priv t =
     (if t = tok \<and> trimBearer (''t'' @ PublicOf priv) = ''t'' @ PublicOf priv
      then Inr (''t'' @ PublicOf priv) else Inl (EText ''cannot sign''))"

definition toy_issuer_lib :: "'a claims_scheme token \<Rightarrow> 'a claims_scheme jwt_lib" where
  "toy_issuer_lib tok = (toy_lib tok)
     \<lparr>jl_After := (\<lambda>now opts raw k. case k of
        Inl e \<Rightarrow> Inl e
      | Inr key \<Rightarrow> if toy_verifies (tk_Alg tok) key raw \<and> meets now opts tok
                   then Inr (tok\<lparr>tk_Valid := True\<rparr>) else Inl (EJwt [] ''invalid''))\<rparr>"

lemma toy_complete: "jwt_complete (toy_sign tok) (toy_issuer_lib tok)"
  by (auto simp: jwt_complete_def toy_sign_def toy_issuer_lib_def toy_lib_def toy_verifies_def
      split: if_splits)

definition demo_signer :: signer_config where
  "demo_signer =
     \<lparr>sg_Issuer = ''iss'', sg_KeyID = ''k1'', sg_PrivateKey = replicate 32 CHR ''q'' @ demo_pub,
      sg_TTL = 2 * minute\<rparr>"

definition demo_unsigned :: "s2s_claims token" where
  "demo_unsigned =
     \<lparr>tk_Alg = ''EdDSA'', tk_Kid = Some ''k1'',
      tk_Claims = issue_claims demo_signer ''svc'' ''aud'' [''read''] 0, tk_Valid = False\<rparr>"

theorem issued_tokens_verify_witness:
  "Issue (toy_sign demo_unsigned) (Some demo_signer) ''svc'' ''aud'' [''read''] 0
      = Inr (''t'' @ demo_pub, 2 * minute)
   \<and> s2s_Verify demo_jwks (toy_issuer_lib demo_unsigned) (''t'' @ demo_pub) (Some demo_s2s_verifier) 1
      = (Inr \<lparr>id_Subject = trim_space ''svc'', id_Audience = [trim_space ''aud''], id_Scopes = [''read'']\<rparr>,
         Some demo_s2s_verifier, 1)"
proof -
  have pub: "PublicOf (sg_PrivateKey demo_signer) = demo_pub"
    by (simp add: PublicOf_def demo_signer_def)
  have raw: "trimBearer (''t'' @ demo_pub) = ''t'' @ demo_pub" by code_simp
  have i: "Issue (toy_sign demo_unsigned) (Some demo_signer) ''svc'' ''aud'' [''read''] 0
      = Inr (''t'' @ demo_pub, 2 * minute)"
    using pub raw by (simp add: Issue_def demo_s2s_trims toy_sign_def demo_unsigned_def)
      (simp add: demo_signer_def)
  have "s2s_Verify demo_jwks (toy_issuer_lib demo_unsigned) (''t'' @ demo_pub) (Some demo_s2s_verifier) 1
      = (Inr \<lparr>id_Subject = trim_space ''svc'', id_Audience = [trim_space ''aud''], id_Scopes = [''read'']\<rparr>,
         Some demo_s2s_verifier, 1)"
  proof (rule issued_tokens_verify [OF toy_complete i])
    show "cache_holds (sv_cache demo_s2s_verifier) (sg_KeyID demo_signer) (PublicOf (sg_PrivateKey demo_signer))"
      unfolding pub by (simp add: cache_holds_def Get_def demo_s2s_verifier_def demo_signer_def)
  qed (simp_all add: demo_signer_def demo_s2s_verifier_def demo_s2s_cfg_def demo_s2s_trims stale_def
      NewCache_def demo_jwks_def numeric_date_def duration_defs)
  with i show ?thesis by blast
qed

section \<open>The registry\<close>

definition usable_credential :: "credential \<Rightarrow> bool" where
  "usable_credential c \<longleftrightarrow> trim_space (cr_Name c) \<noteq> [] \<and> trim_space (cr_Secret c) \<noteq> []"

definition trim_credential :: "credential \<Rightarrow> credential" where
  "trim_credential c = c\<lparr>cr_Name := trim_space (cr_Name c), cr_Secret := trim_space (cr_Secret c)\<rparr>"

lemma register_all_map:
  "map_of (register_all cs m) name =
     (case find (\<lambda>c. usable_credential c \<and> trim_space (cr_Name c) = name) (rev cs) of
        Some c \<Rightarrow> Some (trim_credential c)
      | None \<Rightarrow> map_of m name)"
proof (induction cs arbitrary: m)
  case (Cons c cs)
  have find_snoc: "find P (xs @ [x]) = (case find P xs of Some y \<Rightarrow> Some y | None \<Rightarrow> if P x then Some x else None)"
    for P and xs :: "credential list" and x
    by (induction xs) auto
  show ?case
    using Cons.IH
    by (auto simp: Let_def usable_credential_def trim_credential_def find_snoc update_conv'
        split: option.split)
qed simp

text \<open>
  Client credentials: a service authenticates exactly with the secret of its last usable entry
  in the list the registry was built from (names and secrets compared without surrounding white
  space); entries without a name or a secret never match, and nobody authenticates with a blank
  secret.
\<close>

theorem registry_authenticates:
  "Authenticate (Some (NewServiceRegistry creds)) name secret =
     (case find (\<lambda>c. usable_credential c \<and> trim_space (cr_Name c) = trim_space name) (rev creds) of
        Some c \<Rightarrow> if trim_space secret = trim_space (cr_Secret c) then Some (trim_credential c) else None
      | None \<Rightarrow> None)"
proof -
  have "find (\<lambda>c. usable_credential c \<and> trim_space (cr_Name c) = []) cs = None" for cs
    by (induction cs) (auto simp: usable_credential_def)
  moreover have "find (\<lambda>c. usable_credential c \<and> trim_space (cr_Name c) = n) cs = Some c
      \<Longrightarrow> trim_space (cr_Secret c) \<noteq> []" for cs n c
    by (induction cs) (auto simp: usable_credential_def split: if_splits)
  ultimately show ?thesis
    by (auto simp: Authenticate_def NewServiceRegistry_def register_all_map Let_def
        trim_credential_def split: option.split)
qed

lemma may_request_closed:
  "MayRequestAudience c aud \<Longrightarrow> trim_space aud \<noteq> []
     \<and> (\<exists>a\<in>set (cr_Audiences c). trim_space a = ''*'' \<or> trim_space a = trim_space aud)"
  by (auto simp: MayRequestAudience_def list_ex_iff Let_def split: if_splits)

section \<open>The token client and the transport\<close>

definition requested_audience :: "token_client \<Rightarrow> string \<Rightarrow> string" where
  "requested_audience c audience =
     (if trim_space audience = [] then tc_audience c else trim_space audience)"

lemma fetch_nonempty: "token_fetch env c aud w = (Inr (tok, exp), w') \<Longrightarrow> tok \<noteq> []"
  by (auto simp: token_fetch_def split: sum.splits option.splits prod.splits if_splits)

lemma Token_Inr:
  assumes "Token env audience c w = (Inr tok, us, c', w')"
  shows "tok \<noteq> [] \<and> tc_token c' = tok \<and> tc_tokenAudience c' = requested_audience c audience
    \<and> tc_audience c' = tc_audience c
    \<and> (if cache_hit c (requested_audience c audience) (te_Now env w) then c' = c \<and> w' = w
       else token_fetch env c (requested_audience c audience) w = (Inr (tok, tc_expiresAt c'), w'))"
  using assms
  by (auto simp: Token_def requested_audience_def Let_def cache_hit_def fetch_nonempty
      split: if_splits prod.splits sum.splits)

text \<open>
  The contract of \<open>TokenSource\<close>: a token that is returned is not empty and was issued for the
  audience asked for.
\<close>

locale token_source =
  fixes source :: "string \<Rightarrow> 's \<Rightarrow> (goerr + string) \<times> 's"
    and issued_for :: "'s \<Rightarrow> string \<Rightarrow> string \<Rightarrow> bool"
  assumes source_issued: "source aud s = (Inr tok, s') \<Longrightarrow> issued_for s' aud tok \<and> tok \<noteq> []"
begin

text \<open>The transport sends no request without a token for its audience.\<close>

lemma round_trip_authorized:
  assumes "s2s_RoundTrip (Some source) aud base (Some r) s = (res, s')"
  shows "(\<exists>err. res = Inl err \<and> (aud = [] \<and> s' = s \<or> source aud s = (Inl err, s')))
    \<or> (\<exists>tok s1 h. issued_for s1 aud tok \<and> tok \<noteq> [] \<and> map_of h ''Authorization'' = Some (AuthorizationHeader tok)
          \<and> base (r\<lparr>hr_Header := h\<rparr>) s1 = (res, s'))"
proof (cases "aud = []")
  case True
  with assms show ?thesis by (auto simp: s2s_RoundTrip_def)
next
  case False
  show ?thesis
  proof (cases "source aud s")
    case (Pair q s1)
    show ?thesis
    proof (cases q)
      case (Inl err)
      with assms False Pair show ?thesis by (auto simp: s2s_RoundTrip_def)
    next
      case (Inr tok)
      let ?h = "header_set ''Authorization'' (AuthorizationHeader tok) (hr_Header r)"
      have "map_of ?h ''Authorization'' = Some (AuthorizationHeader tok)"
        by (simp add: header_set_def update_conv')
      moreover have "base (r\<lparr>hr_Header := ?h\<rparr>) s1 = (res, s')"
        using assms False Pair Inr by (simp add: s2s_RoundTrip_def)
      ultimately show ?thesis using source_issued Pair Inr by blast
    qed
  qed
qed

end

definition client_source ::
    "'w token_env \<Rightarrow> string \<Rightarrow> token_client \<times> 'w \<Rightarrow> (goerr + string) \<times> token_client \<times> 'w"
where
  "client_source env audience s = (case s of (c, w) \<Rightarrow>
     (case Token env audience c w of (r, us, c', w') \<Rightarrow> (r, (c', w'))))"

definition client_issued :: "token_client \<times> 'w \<Rightarrow> string \<Rightarrow> string \<Rightarrow> bool" where
  "client_issued s audience tok \<longleftrightarrow>
     tc_token (fst s) = tok \<and> tc_tokenAudience (fst s) = requested_audience (fst s) audience"

interpretation client: token_source "client_source env" client_issued for env
proof unfold_locales
  fix aud s tok s' assume "client_source env aud s = (Inr tok, s')"
  then obtain us where t: "Token env aud (fst s) (snd s) = (Inr tok, us, fst s', snd s')"
    by (auto simp: client_source_def split: prod.splits)
  from Token_Inr [OF t] show "client_issued s' aud tok \<and> tok \<noteq> []"
    by (simp add: client_issued_def requested_audience_def)
qed


definition demo_client :: token_client where
  "demo_client =
     \<lparr>tc_baseURL = ''http://auth'', tc_service = ''svc'', tc_secret = ''pw'', tc_audience = ''aud'',
      tc_token = [], tc_tokenAudience = [], tc_expiresAt = zero_time\<rparr>"

definition demo_token_env :: "nat token_env" where
  "demo_token_env =
     \<lparr>te_Now = int, te_Marshal = (\<lambda>a. Inr a), te_NewRequest = (\<lambda>u. None),
      te_Post = (\<lambda>u s p b w. (if w < 5 then Inr (200, ''ok'') else Inl (EText ''down''), Suc w)),
      te_Decode = (\<lambda>raw. Inr (''tok'', 3600))\<rparr>"


text \<open>
  The transport sends nothing without authorization: the base transport is called only with a
  request whose \<open>Authorization\<close> header carries a token the client holds for the transport's audience.
\<close>

theorem transport_sends_only_authorized:
  assumes "s2s_RoundTrip (Some (client_source env)) aud base (Some r) (c, w) = (res, s')"
  shows "(\<exists>err. res = Inl err \<and> (aud = [] \<and> s' = (c, w) \<or> client_source env aud (c, w) = (Inl err, s')))
    \<or> (\<exists>tok s1 h. client_issued s1 aud tok \<and> tok \<noteq> []
          \<and> map_of h ''Authorization'' = Some (AuthorizationHeader tok)
          \<and> base (r\<lparr>hr_Header := h\<rparr>) s1 = (res, s'))"
  using assms by (rule client.round_trip_authorized)

theorem transport_sends_only_authorized_witness:
  "\<exists>(s1 :: token_client \<times> nat) tok h. client_issued s1 ''users'' tok \<and> tok \<noteq> []
     \<and> map_of h ''Authorization'' = Some (AuthorizationHeader tok)"
proof -
  define base where "base = (\<lambda>(r :: http_request) (s :: token_client \<times> nat). (Inr 200 :: goerr + int, s))"
  define s' where "s' = snd (s2s_RoundTrip (Some (client_source demo_token_env)) ''users'' base
      (Some demo_request) (demo_client, 0))"
  have run: "s2s_RoundTrip (Some (client_source demo_token_env)) ''users'' base (Some demo_request)
      (demo_client, 0) = (Inr 200, s')"
    by (simp add: s'_def base_def s2s_RoundTrip_def client_source_def Token_def demo_client_def
        demo_token_env_def cache_hit_def token_fetch_def Let_def)
  from transport_sends_only_authorized [OF run] show ?thesis by blast
qed

text \<open>
  A failed token fetch is counted twice: \<open>Token\<close> records the attempt, and
  \<open>RecordTokenRequestFailure\<close> records it again, so \<open>s2s_token_requests_total\<close> grows by two for a
  failure and by one for a success.
\<close>

theorem token_failure_counted_twice:
  "length (filter (\<lambda>u. fst u = ''s2s_token_requests_total'') (fst (snd (Token env audience c w))))
     = (if cache_hit c (requested_audience c audience) (te_Now env w) then 0
        else case fst (token_fetch env c (requested_audience c audience) w) of
               Inl err \<Rightarrow> 2 | Inr p \<Rightarrow> 1)"
  by (auto simp: Token_def requested_audience_def Let_def RecordTokenRequest_def
      RecordTokenRequestFailure_def RecordTokenCacheHit_def split: prod.splits sum.splits)

end
