(* ===== verification/Echo_Auth.thy ===== *)
theory Echo_Auth
  imports JWT S2S
begin

text \<open>
  \<open>security/echo/middleware.go\<close>: the middleware that authenticates users and services and
  authorizes them.

  An echo context is the record \<open>echo_req\<close> of what the middleware reads and sets: the
  \<open>Authorization\<close> header, the cookies, the two values set by \<open>c.Set\<close> and the context of the request.
  A handler maps it and a state (that of the verifiers and of whatever the handler does) to an error
  and a state. The updates of metrics come with the result; \<open>None\<close> is a panic.
\<close>

section \<open>Middleware\<close>

record echo_req =
  er_Authorization :: string
  er_Cookies :: "(string \<times> string) list"
  er_claims :: "user_claims option"
  er_service :: "identity option"
  er_ctx :: obs_ctx

type_synonym 's handler = "echo_req \<Rightarrow> 's \<Rightarrow> (goerr option \<times> int update list \<times> 's) option"

definition echo_forbidden :: "string \<Rightarrow> goerr" where
  "echo_forbidden ope = refusal ope KindForbidden ''forbidden''"

text \<open>\<open>bearer\<close> is the function of the same text as \<open>trimBearer\<close>.\<close>

definition bearer :: "string \<Rightarrow> string" where
  "bearer value =
     (let value = trim_space value
      in if length value \<ge> 7 \<and> equal_fold (take 7 value) ''Bearer '' then trim_space (drop 7 value)
         else value)"

fun first_cookie :: "string list \<Rightarrow> (string \<times> string) list \<Rightarrow> string" where
  "first_cookie [] cookies = []"
| "first_cookie (n # ns) cookies =
     (case map_of cookies n of
        Some v \<Rightarrow> if v \<noteq> [] then v else first_cookie ns cookies
      | None \<Rightarrow> first_cookie ns cookies)"

definition accessToken :: "echo_req \<Rightarrow> string" where
  "accessToken c =
     (let raw = bearer (er_Authorization c)
      in if raw \<noteq> [] then raw else first_cookie [''access_token'', ''admin_access_token''] (er_Cookies c))"

definition echo_JWT ::
    "(string \<Rightarrow> 's \<Rightarrow> (goerr + user_claims) \<times> 's) option \<Rightarrow> 's handler \<Rightarrow> 's handler"
where
  "echo_JWT verifier next c s =
     (case verifier of
        None \<Rightarrow>
          Some (Some (refusal ''security.echo.JWT'' KindUnauthenticated ''unauthenticated''), [], s)
      | Some verify \<Rightarrow>
          (case verify (accessToken c) s of
             (Inl err, s') \<Rightarrow> Some (Some err, [], s')
           | (Inr cl, s') \<Rightarrow> next (c\<lparr>er_claims := Some cl\<rparr>) s'))"

definition GetClaims :: "echo_req \<Rightarrow> goerr + user_claims" where
  "GetClaims c =
     (case er_claims c of
        Some cl \<Rightarrow>
          if trim_space (uc_UserID cl) = []
          then Inl (refusal ''security.echo.GetClaims'' KindUnauthenticated ''unauthenticated'')
          else Inr cl
      | None \<Rightarrow> Inl (refusal ''security.echo.GetClaims'' KindUnauthenticated ''unauthenticated''))"

definition is_admin :: "string list \<Rightarrow> user_claims \<Rightarrow> bool" where
  "is_admin adminRoles cl \<longleftrightarrow> uc_FullAccess cl
     \<or> list_ex (\<lambda>role. List.member (map (\<lambda>r. to_lower (trim_space r)) adminRoles) (to_lower role))
         (uc_Roles cl)"

definition RequireAdmin :: "string list \<Rightarrow> 's handler \<Rightarrow> 's handler" where
  "RequireAdmin adminRoles next c s =
     (case GetClaims c of
        Inl err \<Rightarrow> Some (Some err, [], s)
      | Inr cl \<Rightarrow>
          if is_admin adminRoles cl then next c s
          else Some (Some (echo_forbidden ''security.echo.RequireAdmin''), [], s))"

definition has_required :: "string list \<Rightarrow> user_claims \<Rightarrow> bool" where
  "has_required keys cl \<longleftrightarrow> uc_FullAccess cl
     \<or> list_ex (\<lambda>p. List.member (filter (\<lambda>k. k \<noteq> []) (map trim_space keys)) p) (uc_Permissions cl)"

definition RequirePermission :: "string list \<Rightarrow> 's handler \<Rightarrow> 's handler" where
  "RequirePermission keys next c s =
     (case GetClaims c of
        Inl err \<Rightarrow> Some (Some err, [], s)
      | Inr cl \<Rightarrow>
          if has_required keys cl then next c s
          else Some (Some (echo_forbidden ''security.echo.RequirePermission''), [], s))"

definition HasPermission :: "user_claims option \<Rightarrow> string list \<Rightarrow> bool" where
  "HasPermission claims keys =
     (case claims of
        None \<Rightarrow> False
      | Some cl \<Rightarrow> if uc_FullAccess cl then True else list_ex (List.member (uc_Permissions cl)) keys)"

text \<open>
  A verifier of service tokens: its \<open>Verify\<close>, and its audience if it is an \<open>*s2s.Verifier\<close>, else
  the empty text. \<open>service\<close> is \<open>logger.Service()\<close>.
\<close>

record 's service_verifier =
  tv_Verify :: "string \<Rightarrow> 's \<Rightarrow> (goerr + identity) \<times> 's"
  tv_Audience :: string

definition s2s_dest :: "string \<Rightarrow> 's service_verifier option \<Rightarrow> string" where
  "s2s_dest service verifier =
     (case verifier of
        None \<Rightarrow> service
      | Some v \<Rightarrow> if tv_Audience v \<noteq> [] then tv_Audience v else service)"

text \<open>Updates recorded before the rest of the chain runs.\<close>

definition recording :: "int update list \<Rightarrow> ('e \<times> int update list \<times> 's) option
    \<Rightarrow> ('e \<times> int update list \<times> 's) option" where
  "recording us r = map_option (\<lambda>(e, us', s). (e, us @ us', s)) r"

definition echo_S2S :: "string \<Rightarrow> 's service_verifier option \<Rightarrow> 's handler \<Rightarrow> 's handler" where
  "echo_S2S service verifier next c s =
     (let dest = s2s_dest service verifier
      in case verifier of
           None \<Rightarrow>
             Some (Some (refusal ''security.echo.S2S'' KindUnauthenticated ''unauthenticated service''),
                   RecordS2SAuthFailure ''unknown'' dest ''missing_token'', s)
         | Some v \<Rightarrow>
             (case tv_Verify v (bearer (er_Authorization c)) s of
                (Inl err, s') \<Rightarrow>
                  map_option (\<lambda>reason. (Some err, RecordS2SAuthFailure ''unknown'' dest reason, s'))
                    (ReasonOf (Some err))
              | (Inr i, s') \<Rightarrow>
                  recording (RecordS2SAuth (id_Subject i) dest)
                    (next (c\<lparr>er_service := Some i, er_ctx := ContextWithIdentity (er_ctx c) i\<rparr>) s')))"

definition GetServiceIdentity :: "echo_req \<Rightarrow> goerr + identity" where
  "GetServiceIdentity c =
     (case er_service c of
        Some i \<Rightarrow> Inr i
      | None \<Rightarrow>
          (case IdentityFromContext (Some (er_ctx c)) of
             Some i \<Rightarrow> Inr i
           | None \<Rightarrow>
               Inl (refusal ''security.echo.GetServiceIdentity'' KindUnauthenticated
                      ''unauthenticated service'')))"

definition RequireServiceScopes :: "string \<Rightarrow> string list \<Rightarrow> 's handler \<Rightarrow> 's handler" where
  "RequireServiceScopes service scopes next c s =
     (case GetServiceIdentity c of
        Inl err \<Rightarrow> Some (Some err, [], s)
      | Inr i \<Rightarrow>
          if scopes \<noteq> [] \<and> \<not> HasAnyScope i scopes
          then Some (Some (echo_forbidden ''security.echo.RequireServiceScopes''),
                     RecordS2SAuthFailure (id_Subject i) service ''missing_scope'', s)
          else next c s)"

section \<open>Token verifiers\<close>

text \<open>
  The contract of both \<open>TokenVerifier\<close> interfaces, with an invariant of their state: what is
  returned without an error is vouched for by the token.
\<close>

locale token_verifier =
  fixes verify :: "string \<Rightarrow> 's \<Rightarrow> (goerr + 'i) \<times> 's"
    and sane :: "'s \<Rightarrow> bool"
    and vouched :: "'s \<Rightarrow> string \<Rightarrow> 'i \<Rightarrow> bool"
  assumes verify_vouched: "sane s \<Longrightarrow> verify raw s = (Inr i, s') \<Longrightarrow> vouched s' raw i"
    and verify_sane: "sane s \<Longrightarrow> verify raw s = (r, s') \<Longrightarrow> sane s'"

text \<open>
  Two handlers that agree on the requests a verifier vouches for cannot be told apart behind the
  middleware: it runs its handler on no other request.
\<close>

locale user_tokens = token_verifier verify sane vouched
  for verify :: "string \<Rightarrow> 's \<Rightarrow> (goerr + user_claims) \<times> 's" and sane and vouched
begin

lemma jwt_guards:
  assumes "sane s"
    and "\<And>c' s' cl. er_claims c' = Some cl \<Longrightarrow> sane s' \<Longrightarrow> vouched s' (accessToken c) cl
           \<Longrightarrow> next1 c' s' = next2 c' s'"
  shows "echo_JWT (Some verify) next1 c s = echo_JWT (Some verify) next2 c s"
proof (cases "verify (accessToken c) s")
  case (Pair r s')
  show ?thesis
  proof (cases r)
    case (Inr cl)
    from verify_vouched [OF assms(1) Pair [unfolded Inr]] verify_sane [OF assms(1) Pair]
    show ?thesis using Pair Inr assms(2) [of "c\<lparr>er_claims := Some cl\<rparr>" cl s']
      by (simp add: echo_JWT_def)
  qed (simp add: Pair echo_JWT_def)
qed

end

locale service_tokens = token_verifier verify sane vouched
  for verify :: "string \<Rightarrow> 's \<Rightarrow> (goerr + identity) \<times> 's" and sane and vouched
begin

lemma s2s_guards:
  assumes "sane s" and "tv_Verify v = verify"
    and "\<And>c' s' i. er_service c' = Some i \<Longrightarrow> cx_identity (er_ctx c') = Some i \<Longrightarrow> sane s'
           \<Longrightarrow> vouched s' (bearer (er_Authorization c)) i \<Longrightarrow> next1 c' s' = next2 c' s'"
  shows "echo_S2S service (Some v) next1 c s = echo_S2S service (Some v) next2 c s"
proof (cases "verify (bearer (er_Authorization c)) s")
  case (Pair r s')
  show ?thesis
  proof (cases r)
    case (Inr i)
    let ?c = "c\<lparr>er_service := Some i, er_ctx := ContextWithIdentity (er_ctx c) i\<rparr>"
    from verify_vouched [OF assms(1) Pair [unfolded Inr]] verify_sane [OF assms(1) Pair]
    have "next1 ?c s' = next2 ?c s'" using assms(3) [of ?c i s'] by (simp add: ContextWithIdentity_def)
    then show ?thesis using Pair Inr assms(2) by (simp add: echo_S2S_def)
  qed (simp add: Pair assms(2) echo_S2S_def)
qed

end

text \<open>The user and the service verifier, as functions on the verifier and the world.\<close>

definition user_verify ::
    "'w jwks_env \<Rightarrow> flexible_claims jwt_lib \<Rightarrow> string \<Rightarrow> jwt_verifier \<times> 'w
       \<Rightarrow> (goerr + user_claims) \<times> jwt_verifier \<times> 'w"
where
  "user_verify env lib raw s = (case s of (v, w) \<Rightarrow>
     (case jwt_Verify env lib raw (Some v) w of
        (r, Some v', w') \<Rightarrow> (r, (v', w'))
      | (r, None, w') \<Rightarrow> (r, (v, w'))))"

definition service_verify ::
    "'w jwks_env \<Rightarrow> s2s_claims jwt_lib \<Rightarrow> string \<Rightarrow> s2s_verifier \<times> 'w
       \<Rightarrow> (goerr + identity) \<times> s2s_verifier \<times> 'w"
where
  "service_verify env lib raw s = (case s of (v, w) \<Rightarrow>
     (case s2s_Verify env lib raw (Some v) w of
        (r, Some v', w') \<Rightarrow> (r, (v', w'))
      | (r, None, w') \<Rightarrow> (r, (v, w'))))"

text \<open>What a token vouches for, given that the library is sound.\<close>

definition user_vouched ::
    "(string \<Rightarrow> string \<Rightarrow> string \<Rightarrow> bool) \<Rightarrow> flexible_claims jwt_lib \<Rightarrow> jwt_verifier \<times> 'w
       \<Rightarrow> string \<Rightarrow> user_claims \<Rightarrow> bool"
where
  "user_vouched verifies lib s raw cl \<longleftrightarrow>
     (jwt_sound verifies lib \<longrightarrow>
        trim_space (uc_UserID cl) \<noteq> [] \<and> uc_TokenUse cl = required_use (jv_cfg (fst s))
        \<and> ((\<exists>kid pk. cache_holds (jv_cache (fst s)) kid pk \<and> verifies ''EdDSA'' pk (trimBearer raw)
              \<and> rg_Issuer cl = jv_Issuer (jv_cfg (fst s))
              \<and> jv_Audience (jv_cfg (fst s)) \<in> set (rg_Audience cl))
           \<or> (jv_AllowLegacyHS256 (jv_cfg (fst s))
              \<and> verifies ''HS256'' (jv_LegacyHS256Secret (jv_cfg (fst s))) (trimBearer raw))))"

definition service_vouched ::
    "(string \<Rightarrow> string \<Rightarrow> string \<Rightarrow> bool) \<Rightarrow> s2s_claims jwt_lib \<Rightarrow> s2s_verifier \<times> 'w
       \<Rightarrow> string \<Rightarrow> identity \<Rightarrow> bool"
where
  "service_vouched verifies lib s raw i \<longleftrightarrow>
     (jwt_sound verifies lib \<longrightarrow>
        trim_space (id_Subject i) \<noteq> []
        \<and> (sv_allowed (fst s) = [] \<or> id_Subject i \<in> set (sv_allowed (fst s)))
        \<and> sv_Audience (sv_cfg (fst s)) \<in> set (id_Audience i)
        \<and> (\<exists>kid pk. cache_holds (sv_cache (fst s)) kid pk \<and> verifies ''EdDSA'' pk (trimBearer raw)))"

definition user_sane :: "jwt_verifier \<times> 'w \<Rightarrow> bool" where
  "user_sane s \<longleftrightarrow> cache_good (jv_cache (fst s))"

definition service_sane :: "s2s_verifier \<times> 'w \<Rightarrow> bool" where
  "service_sane s \<longleftrightarrow> cache_good (sv_cache (fst s))"

lemma user_verify_step:
  assumes "user_verify env lib raw (v, w) = (r, (v', w'))"
  shows "jwt_Verify env lib raw (Some v) w = (r, Some v', w') \<and> jv_cfg v' = jv_cfg v
    \<and> (cache_good (jv_cache v) \<longrightarrow> cache_good (jv_cache v'))"
proof -
  obtain r0 v0 w0 where ver: "jwt_Verify env lib raw (Some v) w = (r0, v0, w0)"
    by (cases "jwt_Verify env lib raw (Some v) w")
  have "\<exists>c. v0 = Some (v\<lparr>jv_cache := c\<rparr>) \<and> (cache_good (jv_cache v) \<longrightarrow> cache_good c)"
    using Verify_cases [OF ver]
  proof (elim disjE exE conjE)
    assume "v0 = Some v"
    then have "v0 = Some (v\<lparr>jv_cache := jv_cache v\<rparr>)" by simp
    then show ?thesis by blast
  next
    fix q c w1
    assume f: "EnsureFresh env (jv_cache v) w = (q, c, w1)" and v0: "v0 = Some (v\<lparr>jv_cache := c\<rparr>)"
    have "cache_good (jv_cache v) \<longrightarrow> cache_good c" using jwks.fresh_good [OF _ f] ..
    with v0 show ?thesis by (intro exI conjI)
  next
    fix q c w1 c'
    assume f: "EnsureFresh env (jv_cache v) w = (q, c, w1)"
      and e: "verifyEdDSA env lib (jv_cfg v) (trimBearer raw) c w1 = (r0, c', w0)"
      and v0: "v0 = Some (v\<lparr>jv_cache := c'\<rparr>)"
    have "cache_good (jv_cache v) \<longrightarrow> cache_good c'"
      using verifyEdDSA_good [OF jwks.fresh_good [OF _ f] e] ..
    with v0 show ?thesis by (intro exI conjI)
  next
    fix q c
    assume f: "EnsureFresh env (jv_cache v) w = (q, c, w0)" and v0: "v0 = Some (v\<lparr>jv_cache := c\<rparr>)"
    have "cache_good (jv_cache v) \<longrightarrow> cache_good c" using jwks.fresh_good [OF _ f] ..
    with v0 show ?thesis by (intro exI conjI)
  qed
  then obtain c where c: "v0 = Some (v\<lparr>jv_cache := c\<rparr>)" "cache_good (jv_cache v) \<longrightarrow> cache_good c"
    by blast
  with ver assms have "r = r0 \<and> v' = v\<lparr>jv_cache := c\<rparr> \<and> w' = w0" by (simp add: user_verify_def)
  with ver c show ?thesis by simp
qed

lemma service_verify_step:
  assumes "service_verify env lib raw (v, w) = (r, (v', w'))"
  shows "s2s_Verify env lib raw (Some v) w = (r, Some v', w')
    \<and> sv_cfg v' = sv_cfg v \<and> sv_allowed v' = sv_allowed v
    \<and> (cache_good (sv_cache v) \<longrightarrow> cache_good (sv_cache v'))"
proof -
  obtain r0 v0 w0 where ver: "s2s_Verify env lib raw (Some v) w = (r0, v0, w0)"
    by (cases "s2s_Verify env lib raw (Some v) w")
  have "\<exists>c. v0 = Some (v\<lparr>sv_cache := c\<rparr>) \<and> (cache_good (sv_cache v) \<longrightarrow> cache_good c)"
  proof (cases "trimBearer raw = []")
    case True
    with ver have "v0 = Some (v\<lparr>sv_cache := sv_cache v\<rparr>)" by (simp add: s2s_Verify_def)
    then show ?thesis by blast
  next
    case False
    obtain q c w1 where fresh: "EnsureFresh env (sv_cache v) w = (q, c, w1)"
      by (cases "EnsureFresh env (sv_cache v) w")
    obtain t c' w2 where p: "ParseWithClaims lib (je_Now env) (s2s_opts (sv_cfg v)) (trimBearer raw)
        (cache_keyfunc (Lookup env)) c w1 = (t, c', w2)"
      by (cases "ParseWithClaims lib (je_Now env) (s2s_opts (sv_cfg v)) (trimBearer raw)
        (cache_keyfunc (Lookup env)) c w1")
    from ver False fresh p have "v0 = Some (v\<lparr>sv_cache := c'\<rparr>)"
      by (auto simp: s2s_Verify_def split: sum.splits)
    moreover have "cache_good (sv_cache v) \<longrightarrow> cache_good c'"
      using jwks.parse_good [OF jwks.fresh_good [OF _ fresh] p] ..
    ultimately show ?thesis by (intro exI conjI)
  qed
  then obtain c where c: "v0 = Some (v\<lparr>sv_cache := c\<rparr>)" "cache_good (sv_cache v) \<longrightarrow> cache_good c"
    by blast
  with ver assms have "r = r0 \<and> v' = v\<lparr>sv_cache := c\<rparr> \<and> w' = w0" by (simp add: service_verify_def)
  with ver c show ?thesis by simp
qed

interpretation user: user_tokens "user_verify env lib" user_sane "user_vouched verifies lib"
  for env lib verifies
proof unfold_locales
  fix s :: "jwt_verifier \<times> 'a" and raw r s'
  assume sane: "user_sane s" and ver: "user_verify env lib raw s = (r, s')"
  obtain v w v' w' where s: "s = (v, w)" "s' = (v', w')" by (metis surj_pair)
  note st = user_verify_step [OF ver [unfolded s]]
  show "user_sane s'" using st sane by (simp add: user_sane_def s)
next
  fix s :: "jwt_verifier \<times> 'a" and raw cl s'
  assume sane: "user_sane s" and ver: "user_verify env lib raw s = (Inr cl, s')"
  obtain v w v' w' where s: "s = (v, w)" "s' = (v', w')" by (metis surj_pair)
  note st = user_verify_step [OF ver [unfolded s]]
  have good: "cache_good (jv_cache v)" using sane by (simp add: user_sane_def s)
  show "user_vouched verifies lib s' raw cl"
    using verify_accepts [OF _ good conjunct1 [OF st], of verifies] st
    by (auto simp: user_vouched_def s)
qed

interpretation service: service_tokens "service_verify env lib" service_sane "service_vouched verifies lib"
  for env lib verifies
proof unfold_locales
  fix s :: "s2s_verifier \<times> 'a" and raw r s'
  assume sane: "service_sane s" and ver: "service_verify env lib raw s = (r, s')"
  obtain v w v' w' where s: "s = (v, w)" "s' = (v', w')" by (metis surj_pair)
  note st = service_verify_step [OF ver [unfolded s]]
  show "service_sane s'" using st sane by (simp add: service_sane_def s)
next
  fix s :: "s2s_verifier \<times> 'a" and raw i s'
  assume sane: "service_sane s" and ver: "service_verify env lib raw s = (Inr i, s')"
  obtain v w v' w' where s: "s = (v, w)" "s' = (v', w')" by (metis surj_pair)
  note st = service_verify_step [OF ver [unfolded s]]
  have good: "cache_good (sv_cache v)" using sane by (simp add: service_sane_def s)
  show "service_vouched verifies lib s' raw i"
    using s2s_verify_trusted [OF _ good conjunct1 [OF st], of verifies] st
    by (auto simp: service_vouched_def s)
qed

section \<open>Protected handlers\<close>

lemma vouched_claims:
  "user_vouched verifies lib s raw cl \<Longrightarrow> jwt_sound verifies lib \<Longrightarrow> er_claims c = Some cl
     \<Longrightarrow> GetClaims c = Inr cl"
  by (simp add: user_vouched_def GetClaims_def)

lemma service_in_context: "er_service c = Some i \<Longrightarrow> GetServiceIdentity c = Inr i"
  by (simp add: GetServiceIdentity_def)

text \<open>
  C7. Behind \<open>JWT(verifier)\<close> and \<open>RequirePermission(keys...)\<close> a handler runs only for a user who
  may: two handlers that agree on the requests whose claims are vouched for by the request's token
  (a signature under a key of the cache and the required audience, or the shared secret where it is
  allowed) and hold full access or one of the keys give the same result on every request.
\<close>

theorem permission_guards_handler:
  assumes "jwt_sound verifies lib" and "cache_good (jv_cache v)"
    and "\<And>c' s' cl. er_claims c' = Some cl \<Longrightarrow> user_vouched verifies lib s' (accessToken c) cl
           \<Longrightarrow> has_required keys cl \<Longrightarrow> next1 c' s' = next2 c' s'"
  shows "echo_JWT (Some (user_verify env lib)) (RequirePermission keys next1) c (v, w :: 'a)
    = echo_JWT (Some (user_verify env lib)) (RequirePermission keys next2) c (v, w)"
proof (rule user.jwt_guards [where verifies = verifies])
  show "user_sane (v, w)" using assms(2) by (simp add: user_sane_def)
next
  fix c' :: echo_req and s' :: "jwt_verifier \<times> 'a" and cl
  assume set: "er_claims c' = Some cl" and vouched: "user_vouched verifies lib s' (accessToken c) cl"
  have "GetClaims c' = Inr cl" using vouched_claims [OF vouched assms(1) set] .
  with set vouched assms(3) [of c' cl s']
  show "RequirePermission keys next1 c' s' = RequirePermission keys next2 c' s'"
    by (simp add: RequirePermission_def)
qed

text \<open>
  C8. Behind \<open>S2S(verifier)\<close> and \<open>RequireServiceScopes(scopes...)\<close> a handler runs only for a
  service that may: two handlers that agree on the requests whose identity the request's bearer
  token vouches for and that has one of the scopes (or when none is asked for) give the same result
  on every request; the identity is both the echo value and the context value.
\<close>

theorem scopes_guard_handler:
  assumes "jwt_sound verifies lib" and "cache_good (sv_cache v)"
    and "tv_Verify ver = service_verify env lib"
    and "\<And>c' s' i. GetServiceIdentity c' = Inr i \<Longrightarrow> IdentityFromContext (Some (er_ctx c')) = Some i
           \<Longrightarrow> service_vouched verifies lib s' (bearer (er_Authorization c)) i
           \<Longrightarrow> scopes = [] \<or> HasAnyScope i scopes \<Longrightarrow> next1 c' s' = next2 c' s'"
  shows "echo_S2S service (Some ver) (RequireServiceScopes service scopes next1) c (v, w :: 'a)
    = echo_S2S service (Some ver) (RequireServiceScopes service scopes next2) c (v, w)"
proof (rule service.s2s_guards [OF _ assms(3)])
  show "service_sane (v, w)" using assms(2) by (simp add: service_sane_def)
next
  fix c' :: echo_req and s' :: "s2s_verifier \<times> 'a" and i
  assume "er_service c' = Some i" and "cx_identity (er_ctx c') = Some i"
    and "service_vouched verifies lib s' (bearer (er_Authorization c)) i"
  with assms(4) [of c' i s']
  show "RequireServiceScopes service scopes next1 c' s' = RequireServiceScopes service scopes next2 c' s'"
    by (auto simp: RequireServiceScopes_def service_in_context IdentityFromContext_def)
qed

text \<open>
  A blank entry means different things in the two lists: \<open>RequireAdmin\<close> keeps it, so that a
  user with an empty role passes as an administrator, while \<open>RequirePermission\<close> drops it, and the
  user with an empty permission is refused.
\<close>

theorem blank_role_is_admin:
  "RequireAdmin ['' '']  next
      (c\<lparr>er_claims := Some (cl\<lparr>uc_UserID := ''7'', uc_FullAccess := False, uc_Roles := [[]]\<rparr>)\<rparr>) s
    = next (c\<lparr>er_claims := Some (cl\<lparr>uc_UserID := ''7'', uc_FullAccess := False, uc_Roles := [[]]\<rparr>)\<rparr>) s
   \<and> RequirePermission ['' ''] next
      (c\<lparr>er_claims := Some (cl\<lparr>uc_UserID := ''7'', uc_FullAccess := False, uc_Permissions := [[]]\<rparr>)\<rparr>) s
    = Some (Some (echo_forbidden ''security.echo.RequirePermission''), [], s)"
proof -
  have "trim_space '' '' = []" "to_lower [] = []" by code_simp+
  then show ?thesis
    by (simp add: RequireAdmin_def RequirePermission_def GetClaims_def is_admin_def has_required_def
        demo_trims)
qed

definition demo_page :: "'s handler" where
  "demo_page c s = Some (None, [], s)"

definition demo_checked_page :: "string list \<Rightarrow> 's handler" where
  "demo_checked_page keys c s =
     (case er_claims c of
        None \<Rightarrow> None
      | Some cl \<Rightarrow> if has_required keys cl then demo_page c s else None)"

definition demo_echo_req :: "string \<Rightarrow> echo_req" where
  "demo_echo_req auth =
     \<lparr>er_Authorization = auth, er_Cookies = [(''access_token'', ''c1'')], er_claims = None,
      er_service = None, er_ctx = background\<rparr>"

theorem permission_guards_handler_witness:
  "echo_JWT (Some (user_verify demo_jwks (toy_lib demo_token)))
      (RequirePermission [''read''] demo_page) (demo_echo_req toy_raw) (demo_jwt_verifier, 1)
    = echo_JWT (Some (user_verify demo_jwks (toy_lib demo_token)))
      (RequirePermission [''read''] (demo_checked_page [''read''])) (demo_echo_req toy_raw)
      (demo_jwt_verifier, 1)"
proof (rule permission_guards_handler [OF toy_lib_sound])
  show "cache_good (jv_cache demo_jwt_verifier)"
    using new_verifier_good [OF demo_new] by blast
qed (simp add: demo_checked_page_def)

definition demo_service_verifier :: "(s2s_verifier \<times> nat) service_verifier" where
  "demo_service_verifier =
     \<lparr>tv_Verify = service_verify demo_jwks (toy_lib demo_s2s_token), tv_Audience = ''aud''\<rparr>"

definition demo_scoped_page :: "string list \<Rightarrow> 's handler" where
  "demo_scoped_page scopes c s =
     (case IdentityFromContext (Some (er_ctx c)) of
        None \<Rightarrow> None
      | Some i \<Rightarrow> if HasAnyScope i scopes then demo_page c s else None)"

theorem scopes_guard_handler_witness:
  "echo_S2S ''svc'' (Some demo_service_verifier)
      (RequireServiceScopes ''svc'' [''read''] demo_page) (demo_echo_req toy_raw) (demo_s2s_verifier, 1)
    = echo_S2S ''svc'' (Some demo_service_verifier)
      (RequireServiceScopes ''svc'' [''read''] (demo_scoped_page [''read''])) (demo_echo_req toy_raw)
      (demo_s2s_verifier, 1)"
proof (rule scopes_guard_handler [OF toy_lib_sound])
  show "cache_good (sv_cache demo_s2s_verifier)"
    using s2s_new_good [OF demo_s2s_new] by blast
  show "tv_Verify demo_service_verifier = service_verify demo_jwks (toy_lib demo_s2s_token)"
    by (simp add: demo_service_verifier_def)
qed (auto simp: demo_scoped_page_def split: if_splits)

end
