(* ===== verification/Grpc_Auth.thy ===== *)
theory Grpc_Auth
  imports Echo_Auth
begin

text \<open>
  \<open>security/grpc/interceptor.go\<close>: the interceptors that authenticate services on gRPC servers and
  add tokens to gRPC clients.

  A context carries the values of \<open>obs_ctx\<close> and the incoming and outgoing metadata (keys in lower
  case, as gRPC keeps them). A handler maps its context and a state to its result, the updates of
  metrics and a state; \<open>None\<close> is a panic. A unary handler returns a response and an error.
\<close>

section \<open>Server\<close>

record grpc_ctx =
  gx_ctx :: obs_ctx
  gx_incoming :: "(string \<times> string list) list option"
  gx_outgoing :: "(string \<times> string) list"

type_synonym ('e, 's) grpc_handler = "grpc_ctx \<Rightarrow> 's \<Rightarrow> ('e \<times> int update list \<times> 's) option"

type_synonym 's authorizer = "grpc_ctx \<Rightarrow> string \<Rightarrow> identity \<Rightarrow> 's \<Rightarrow> goerr option \<times> 's"

definition isPublicGRPCMethod :: "string \<Rightarrow> bool" where
  "isPublicGRPCMethod fullMethod =
     (if has_prefix fullMethod ''/grpc.health.v1.Health/'' then True
      else has_prefix fullMethod ''/grpc.reflection.'')"

definition grpc_first :: "string list \<Rightarrow> string" where
  "grpc_first values = (case values of [] \<Rightarrow> [] | v # vs \<Rightarrow> trim_space v)"

definition md_get :: "string \<Rightarrow> (string \<times> string list) list \<Rightarrow> string list" where
  "md_get k md = (case map_of md k of None \<Rightarrow> [] | Some vs \<Rightarrow> vs)"

definition unauthenticated_service :: goerr where
  "unauthenticated_service = EStatus Unauthenticated ''unauthenticated service''"

definition grpc_authenticate ::
    "string \<Rightarrow> (string \<Rightarrow> 's \<Rightarrow> (goerr + identity) \<times> 's) option \<Rightarrow> grpc_ctx \<Rightarrow> 's
       \<Rightarrow> ((goerr + identity) \<times> int update list \<times> 's) option"
where
  "grpc_authenticate service verifier ctx s =
     (case verifier of
        None \<Rightarrow>
          Some (Inl unauthenticated_service, RecordS2SAuthFailure ''unknown'' service ''missing_token'', s)
      | Some verify \<Rightarrow>
          (case gx_incoming ctx of
             None \<Rightarrow>
               Some (Inl unauthenticated_service,
                     RecordS2SAuthFailure ''unknown'' service ''missing_token'', s)
           | Some md \<Rightarrow>
               (case verify (grpc_first (md_get ''authorization'' md)) s of
                  (Inl err, s') \<Rightarrow>
                    map_option (\<lambda>reason. (Inl unauthenticated_service,
                        RecordS2SAuthFailure ''unknown'' service reason, s'))
                      (ReasonOf (Some err))
                | (Inr i, s') \<Rightarrow> Some (Inr i, RecordS2SAuth (id_Subject i) service, s'))))"

definition with_identity :: "grpc_ctx \<Rightarrow> identity \<Rightarrow> grpc_ctx" where
  "with_identity ctx i = ctx\<lparr>gx_ctx := ContextWithIdentity (gx_ctx ctx) i\<rparr>"

definition grpc_forbidden :: goerr where
  "grpc_forbidden = EStatus PermissionDenied ''forbidden''"

definition UnaryServerInterceptor ::
    "string \<Rightarrow> (string \<Rightarrow> 's \<Rightarrow> (goerr + identity) \<times> 's) option \<Rightarrow> 's authorizer option \<Rightarrow> string
       \<Rightarrow> ('r option \<times> goerr option, 's) grpc_handler \<Rightarrow> ('r option \<times> goerr option, 's) grpc_handler"
where
  "UnaryServerInterceptor service verifier authorize fullMethod handler ctx s =
     (if isPublicGRPCMethod fullMethod then handler ctx s
      else case grpc_authenticate service verifier ctx s of
             None \<Rightarrow> None
           | Some (Inl err, us, s') \<Rightarrow> Some ((None, Some err), us, s')
           | Some (Inr i, us, s') \<Rightarrow>
               let ctx' = with_identity ctx i
               in case authorize of
                    None \<Rightarrow> recording us (handler ctx' s')
                  | Some az \<Rightarrow>
                      (case az ctx' fullMethod i s' of
                         (Some err, s'') \<Rightarrow>
                           Some ((None, Some grpc_forbidden),
                                 us @ RecordS2SAuthFailure (id_Subject i) service ''missing_scope'', s'')
                       | (None, s'') \<Rightarrow> recording us (handler ctx' s'')))"

text \<open>A stream's context is that of the stream, or of the wrapper around it.\<close>

definition StreamServerInterceptor ::
    "string \<Rightarrow> (string \<Rightarrow> 's \<Rightarrow> (goerr + identity) \<times> 's) option \<Rightarrow> 's authorizer option \<Rightarrow> string
       \<Rightarrow> (goerr option, 's) grpc_handler \<Rightarrow> (goerr option, 's) grpc_handler"
where
  "StreamServerInterceptor service verifier authorize fullMethod handler ctx s =
     (if isPublicGRPCMethod fullMethod then handler ctx s
      else case grpc_authenticate service verifier ctx s of
             None \<Rightarrow> None
           | Some (Inl err, us, s') \<Rightarrow> Some (Some err, us, s')
           | Some (Inr i, us, s') \<Rightarrow>
               let ctx' = with_identity ctx i
               in case authorize of
                    None \<Rightarrow> recording us (handler ctx' s')
                  | Some az \<Rightarrow>
                      (case az ctx' fullMethod i s' of
                         (Some err, s'') \<Rightarrow>
                           Some (Some grpc_forbidden,
                                 us @ RecordS2SAuthFailure (id_Subject i) service ''missing_scope'', s'')
                       | (None, s'') \<Rightarrow> recording us (handler ctx' s'')))"

definition RequireAnyScope :: "(string \<times> string list) list \<Rightarrow> 's authorizer" where
  "RequireAnyScope methodScopes ctx fullMethod i s =
     (case map_of methodScopes fullMethod of
        None \<Rightarrow> (None, s)
      | Some scopes \<Rightarrow>
          if scopes = [] \<or> HasAnyScope i scopes then (None, s) else (Some grpc_forbidden, s))"

section \<open>Client\<close>

definition outgoingContext ::
    "(string \<Rightarrow> 's \<Rightarrow> (goerr + string) \<times> 's) \<Rightarrow> string \<Rightarrow> grpc_ctx \<Rightarrow> 's \<Rightarrow> (goerr + grpc_ctx) \<times> 's"
where
  "outgoingContext source audience ctx s =
     (case source audience s of
        (Inl err, s') \<Rightarrow> (Inl err, s')
      | (Inr token, s') \<Rightarrow>
          (Inr (ctx\<lparr>gx_outgoing := gx_outgoing ctx @ [(''authorization'', AuthorizationHeader token)]\<rparr>), s'))"

text \<open>The invoker or the streamer gets the context; the other arguments pass through.\<close>

definition UnaryClientInterceptor ::
    "(string \<Rightarrow> 's \<Rightarrow> (goerr + string) \<times> 's) \<Rightarrow> string \<Rightarrow> (grpc_ctx \<Rightarrow> 's \<Rightarrow> goerr option \<times> 's)
       \<Rightarrow> grpc_ctx \<Rightarrow> 's \<Rightarrow> goerr option \<times> 's"
where
  "UnaryClientInterceptor source audience invoker ctx s =
     (case outgoingContext source audience ctx s of
        (Inl err, s') \<Rightarrow> (Some err, s')
      | (Inr ctx', s') \<Rightarrow> invoker ctx' s')"

definition StreamClientInterceptor ::
    "(string \<Rightarrow> 's \<Rightarrow> (goerr + string) \<times> 's) \<Rightarrow> string
       \<Rightarrow> (grpc_ctx \<Rightarrow> 's \<Rightarrow> ('stream option \<times> goerr option) \<times> 's)
       \<Rightarrow> grpc_ctx \<Rightarrow> 's \<Rightarrow> ('stream option \<times> goerr option) \<times> 's"
where
  "StreamClientInterceptor source audience streamer ctx s =
     (case outgoingContext source audience ctx s of
        (Inl err, s') \<Rightarrow> ((None, Some err), s')
      | (Inr ctx', s') \<Rightarrow> streamer ctx' s')"

section \<open>Protected methods and authorized calls\<close>

context service_tokens
begin

lemma grpc_authenticated:
  assumes "sane s" and "grpc_authenticate service (Some verify) ctx s = Some (Inr i, us, s')"
  shows "sane s' \<and> (\<exists>md. gx_incoming ctx = Some md
    \<and> vouched s' (grpc_first (md_get ''authorization'' md)) i)"
  using assms verify_vouched [OF assms(1)] verify_sane [OF assms(1)]
  by (auto simp: grpc_authenticate_def split: option.splits prod.splits sum.splits)

text \<open>
  Both server interceptors run their handler only on the untouched context of a public method, or on
  the context with an identity that the token vouches for and the authorizer let pass.
\<close>

lemma unary_guards:
  assumes "sane s" and "isPublicGRPCMethod m \<Longrightarrow> h1 ctx s = h2 ctx s"
    and "\<And>i s' md. gx_incoming ctx = Some md \<Longrightarrow> sane s'
        \<Longrightarrow> vouched s' (grpc_first (md_get ''authorization'' md)) i
        \<Longrightarrow> fst (az (with_identity ctx i) m i s') = None
        \<Longrightarrow> h1 (with_identity ctx i) (snd (az (with_identity ctx i) m i s'))
          = h2 (with_identity ctx i) (snd (az (with_identity ctx i) m i s'))"
  shows "UnaryServerInterceptor service (Some verify) (Some az) m h1 ctx s
    = UnaryServerInterceptor service (Some verify) (Some az) m h2 ctx s"
proof -
  have "h1 (with_identity ctx i) s'' = h2 (with_identity ctx i) s''"
    if auth: "grpc_authenticate service (Some verify) ctx s = Some (Inr i, us, s')"
      and az: "az (with_identity ctx i) m i s' = (None, s'')" for i us s' s''
    using grpc_authenticated [OF assms(1) auth] assms(3) [of _ s' i] az by auto
  with assms(2) show ?thesis
    by (simp add: UnaryServerInterceptor_def Let_def split: option.split prod.split sum.split)
qed

lemma stream_guards:
  assumes "sane s" and "isPublicGRPCMethod m \<Longrightarrow> h1 ctx s = h2 ctx s"
    and "\<And>i s' md. gx_incoming ctx = Some md \<Longrightarrow> sane s'
        \<Longrightarrow> vouched s' (grpc_first (md_get ''authorization'' md)) i
        \<Longrightarrow> fst (az (with_identity ctx i) m i s') = None
        \<Longrightarrow> h1 (with_identity ctx i) (snd (az (with_identity ctx i) m i s'))
          = h2 (with_identity ctx i) (snd (az (with_identity ctx i) m i s'))"
  shows "StreamServerInterceptor service (Some verify) (Some az) m h1 ctx s
    = StreamServerInterceptor service (Some verify) (Some az) m h2 ctx s"
proof -
  have "h1 (with_identity ctx i) s'' = h2 (with_identity ctx i) s''"
    if auth: "grpc_authenticate service (Some verify) ctx s = Some (Inr i, us, s')"
      and az: "az (with_identity ctx i) m i s' = (None, s'')" for i us s' s''
    using grpc_authenticated [OF assms(1) auth] assms(3) [of _ s' i] az by auto
  with assms(2) show ?thesis
    by (simp add: StreamServerInterceptor_def Let_def split: option.split prod.split sum.split)
qed

end

context token_source
begin

lemma outgoing_authorized:
  assumes "outgoingContext source aud ctx s = (Inr ctx', s')"
  shows "\<exists>tok. issued_for s' aud tok \<and> tok \<noteq> []
    \<and> ctx' = ctx\<lparr>gx_outgoing := gx_outgoing ctx @ [(''authorization'', AuthorizationHeader tok)]\<rparr>"
proof -
  from assms obtain tok where src: "source aud s = (Inr tok, s')"
    and "ctx' = ctx\<lparr>gx_outgoing := gx_outgoing ctx @ [(''authorization'', AuthorizationHeader tok)]\<rparr>"
    by (auto simp: outgoingContext_def split: prod.splits sum.splits)
  with source_issued [OF src] show ?thesis by blast
qed

end

definition scopes_allow :: "(string \<times> string list) list \<Rightarrow> string \<Rightarrow> identity \<Rightarrow> bool" where
  "scopes_allow methodScopes m i \<longleftrightarrow>
     pred_option (\<lambda>scopes. scopes = [] \<or> HasAnyScope i scopes) (map_of methodScopes m)"

lemma RequireAnyScope_iff:
  "fst (RequireAnyScope methodScopes ctx m i s) = None \<longleftrightarrow> scopes_allow methodScopes m i"
  "snd (RequireAnyScope methodScopes ctx m i s) = s"
  by (simp_all add: RequireAnyScope_def scopes_allow_def split: option.split)

text \<open>
  C9. On a server with the interceptors and \<open>RequireAnyScope(methodScopes)\<close> a unary or stream handler
  of a method outside the health and reflection services runs only with the identity that the
  first \<open>authorization\<close> value of the request vouches for, and only if that identity has one of the
  scopes the method lists: handlers that agree on such contexts, and on the methods that are public,
  cannot be told apart.
\<close>

theorem grpc_guards_handler:
  assumes "jwt_sound verifies lib" and "cache_good (sv_cache v)"
    and "isPublicGRPCMethod m \<Longrightarrow> h1 ctx (v, w) = h2 ctx (v, w)"
    and "isPublicGRPCMethod m \<Longrightarrow> k1 ctx (v, w) = k2 ctx (v, w)"
    and "\<And>i s' md. gx_incoming ctx = Some md
        \<Longrightarrow> service_vouched verifies lib s' (grpc_first (md_get ''authorization'' md)) i
        \<Longrightarrow> scopes_allow methodScopes m i
        \<Longrightarrow> h1 (with_identity ctx i) s' = h2 (with_identity ctx i) s'
          \<and> k1 (with_identity ctx i) s' = k2 (with_identity ctx i) s'"
  shows "UnaryServerInterceptor service (Some (service_verify env lib))
      (Some (RequireAnyScope methodScopes)) m h1 ctx (v, w :: 'w)
    = UnaryServerInterceptor service (Some (service_verify env lib))
      (Some (RequireAnyScope methodScopes)) m h2 ctx (v, w)
    \<and> StreamServerInterceptor service (Some (service_verify env lib))
      (Some (RequireAnyScope methodScopes)) m k1 ctx (v, w)
    = StreamServerInterceptor service (Some (service_verify env lib))
      (Some (RequireAnyScope methodScopes)) m k2 ctx (v, w)"
proof -
  have sane: "service_sane (v, w)" using assms(2) by (simp add: service_sane_def)
  show ?thesis
    by (intro conjI service.unary_guards [where verifies = verifies, OF sane]
        service.stream_guards [where verifies = verifies, OF sane] assms(3,4))
      (simp_all add: RequireAnyScope_iff assms(5))
qed

definition demo_grpc_ctx :: grpc_ctx where
  "demo_grpc_ctx =
     \<lparr>gx_ctx = background, gx_incoming = Some [(''authorization'', [toy_raw])], gx_outgoing = []\<rparr>"

definition demo_method :: "string \<Rightarrow> (nat option \<times> goerr option, s2s_verifier \<times> nat) grpc_handler" where
  "demo_method scope ctx s =
     (case cx_identity (gx_ctx ctx) of
        None \<Rightarrow> None
      | Some i \<Rightarrow> if HasScope i scope then Some ((Some 1, None), [], s) else None)"

theorem grpc_guards_handler_witness:
  "UnaryServerInterceptor ''svc'' (Some (service_verify demo_jwks (toy_lib demo_s2s_token)))
      (Some (RequireAnyScope [(''/a.B/C'', [''read''])])) ''/a.B/C''
      (\<lambda>ctx s. Some ((Some 1, None), [], s)) demo_grpc_ctx (demo_s2s_verifier, 1)
    = UnaryServerInterceptor ''svc'' (Some (service_verify demo_jwks (toy_lib demo_s2s_token)))
      (Some (RequireAnyScope [(''/a.B/C'', [''read''])])) ''/a.B/C''
      (demo_method ''read'') demo_grpc_ctx (demo_s2s_verifier, 1)"
proof (rule conjunct1 [OF grpc_guards_handler
      [where ?k1.0 = "\<lambda>ctx s. None" and ?k2.0 = "\<lambda>ctx s. None", OF toy_lib_sound]])
  show "cache_good (sv_cache demo_s2s_verifier)"
    using s2s_new_good [OF demo_s2s_new] by blast
qed (simp_all add: isPublicGRPCMethod_def demo_method_def with_identity_def ContextWithIdentity_def
    scopes_allow_def split: if_splits)

text \<open>
  A call through the client interceptors carries a token for its audience or is not made: with the
  service token client as the source, either the error of the source is returned and nothing is
  called, or the invoker gets the context with one more \<open>authorization\<close> value, the header of a
  token the client holds for that audience.
\<close>

theorem grpc_calls_carry_token:
  assumes "UnaryClientInterceptor (client_source env) aud invoker ctx (c, w) = (r, s')"
  shows "(\<exists>err. client_source env aud (c, w) = (Inl err, s') \<and> r = Some err)
    \<or> (\<exists>tok s1. client_source env aud (c, w) = (Inr tok, s1) \<and> client_issued s1 aud tok \<and> tok \<noteq> []
        \<and> invoker (ctx\<lparr>gx_outgoing := gx_outgoing ctx @ [(''authorization'', AuthorizationHeader tok)]\<rparr>) s1
            = (r, s'))"
proof (cases "client_source env aud (c, w)" rule: prod.exhaust)
  case (Pair q s1)
  show ?thesis
  proof (cases q)
    case (Inl err)
    with Pair assms show ?thesis by (auto simp: UnaryClientInterceptor_def outgoingContext_def)
  next
    case (Inr tok)
    let ?ctx = "ctx\<lparr>gx_outgoing := gx_outgoing ctx @ [(''authorization'', AuthorizationHeader tok)]\<rparr>"
    have out: "outgoingContext (client_source env) aud ctx (c, w) = (Inr ?ctx, s1)"
      using Pair Inr by (simp add: outgoingContext_def)
    have "client_issued s1 aud tok \<and> tok \<noteq> []"
      using client.source_issued [OF Pair [unfolded Inr]] .
    moreover have "invoker ?ctx s1 = (r, s')" using assms out by (simp add: UnaryClientInterceptor_def)
    ultimately show ?thesis using Pair Inr by blast
  qed
qed

theorem grpc_calls_carry_token_witness:
  "\<exists>tok s1. client_source demo_token_env ''aud'' (demo_client, 0) = (Inr tok, s1) \<and> tok \<noteq> []"
proof -
  let ?inv = "\<lambda>(ctx :: grpc_ctx) (s :: token_client \<times> nat). (None :: goerr option, s)"
  have src: "\<exists>s1. client_source demo_token_env ''aud'' (demo_client, 0) = (Inr ''tok'', s1)"
    by (simp add: client_source_def Token_def demo_client_def demo_token_env_def cache_hit_def
        token_fetch_def Let_def)
  obtain r s' where r: "UnaryClientInterceptor (client_source demo_token_env) ''aud'' ?inv
      demo_grpc_ctx (demo_client, 0) = (r, s')" by (metis surj_pair)
  from grpc_calls_carry_token [OF r] src show ?thesis by fastforce
qed

text \<open>
  A request refused for a missing scope is counted as two authentication requests: once as
  authenticated and once with the failure, so the ratio of failures to requests is too low.
\<close>

theorem forbidden_request_counted_twice:
  "\<exists>us. UnaryServerInterceptor ''svc'' (Some (\<lambda>raw s. (Inr i, s))) (Some (\<lambda>ctx m i s. (Some e, s)))
       ''/a.B/C'' h (ctx\<lparr>gx_incoming := Some md\<rparr>) s = Some ((None, Some grpc_forbidden), us, s)
     \<and> length (filter (\<lambda>u. fst u = ''s2s_auth_requests_total'') us) = 2
     \<and> length (filter (\<lambda>u. fst u = ''s2s_auth_failures_total'') us) = 1"
  by (simp add: UnaryServerInterceptor_def isPublicGRPCMethod_def grpc_authenticate_def
      RecordS2SAuth_def RecordS2SAuthFailure_def Let_def)

end
