(* ===== verification/HTTP_Server.thy ===== *)
theory HTTP_Server
  imports Metrics_Labels
begin

text \<open>
  The HTTP server: \<open>http/server/server.go\<close> with the middlewares it installs
  (\<open>http/middleware/request.go\<close>, \<open>http/middleware/tracing.go\<close>, \<open>http/metrics/middleware.go\<close>) and
  the registration of the metrics endpoint (\<open>http/metrics/metrics.go\<close>).

  A request in flight is the record \<open>web\<close>, with the logger of the process and the metric updates made
  so far. A handler returns the error, \<open>None\<close> for a panic, and the state it leaves. The middlewares of
  echo and OpenTelemetry are functions of the record \<open>http_env\<close>, with the environment variables and
  \<open>url.Parse\<close>.
\<close>

section \<open>Requests and handlers\<close>

record 'f web =
  w_method :: string
  w_path :: string
  w_route :: string
  w_headerID :: string
  w_respID :: string
  w_ctx :: obs_ctx
  w_status :: int
  w_clock :: int
  w_log :: logger_state
  w_updates :: "'f update list"

type_synonym 'f handler = "'f web \<Rightarrow> goerr option option \<times> 'f web"

record 'f http_env =
  he_recover :: "'f handler \<Rightarrow> 'f handler"
  he_request_id :: "'f handler \<Rightarrow> 'f handler"
  he_otel :: "string \<Rightarrow> 'f handler \<Rightarrow> 'f handler"
  he_getenv :: "string \<Rightarrow> string"
  he_url_path :: "string \<Rightarrow> string option"

section \<open>Request metrics\<close>

definition http_registry :: "(string \<times> metric_kind \<times> string list) list" where
  "http_registry =
     [(''http_server_requests_total'', Counter, [''service'', ''method'', ''route'', ''status_class'']),
      (''http_server_request_duration_seconds'', Histogram, [''service'', ''method'', ''route''])]"

definition boundedRoute :: "(string \<Rightarrow> string option) \<Rightarrow> 'f web \<Rightarrow> string" where
  "boundedRoute url_path c =
     (let route = (if w_route c = [] then NormalizePath url_path (w_path c) else w_route c)
      in if route = [] then ''unmatched''
         else if length route > 96 then take 96 route
         else route)"

definition http_Middleware :: "'f http_env \<Rightarrow> string \<Rightarrow> 'f handler \<Rightarrow> 'f handler" where
  "http_Middleware env service next c =
     (let svc = SanitizeService service
      in if IsInfraHTTPPath (he_url_path env) (w_path c) then next c
         else
           let started = w_clock c
           in case next c of
                (None, c) \<Rightarrow> (None, c)
              | (Some err, c) \<Rightarrow>
                  let status = recorded_status err (w_status c);
                      route = boundedRoute (he_url_path env) c;
                      cls = statusClass status
                  in (Some err,
                      c\<lparr>w_updates := w_updates c
                         @ [(''http_server_requests_total'', [svc, w_method c, route, cls], Inc),
                            (''http_server_request_duration_seconds'', [svc, w_method c, route],
                             Observe (since (w_clock c) started))]\<rparr>))"

definition StatusClassLabel :: "int \<Rightarrow> string" where
  "StatusClassLabel code = statusClass code"

section \<open>Request IDs, tracing and the access log\<close>

definition RequestID :: "'f http_env \<Rightarrow> 'f handler \<Rightarrow> 'f handler" where
  "RequestID env next =
     he_request_id env (\<lambda>c.
       let id = w_respID c;
           id = (if id = [] then w_headerID c else id)
       in next (c\<lparr>w_ctx := ContextWithRequestID (Some (w_ctx c)) id\<rparr>))"

definition http_Tracing :: "'f http_env \<Rightarrow> string \<Rightarrow> 'f handler \<Rightarrow> 'f handler" where
  "http_Tracing env serviceName =
     he_otel env (if serviceName = [] then ''http'' else serviceName)"

text \<open>\<open>time.Duration.Milliseconds\<close>\<close>

definition milliseconds :: "int \<Rightarrow> int" where
  "milliseconds d = (if d \<ge> 0 then d div 1000000 else - ((- d) div 1000000))"

definition log_request :: "'f http_env \<Rightarrow> goerr option \<Rightarrow> int \<Rightarrow> int \<Rightarrow> 'f web \<Rightarrow> logger_state" where
  "log_request env err status start c =
     (let args = [LStr ''method'', LStr (w_method c), LStr ''path'', LStr (w_path c),
                  LStr ''status'', LInt status,
                  LStr ''duration_ms'', LInt (milliseconds (w_clock c - start))];
          msg = ''http request completed'';
          ctx = Some (w_ctx c)
      in if status \<ge> 500 then
           log_Error (he_getenv env) ctx msg
             (args @ (case err of Some e \<Rightarrow> [LStr ''error'', LStr (err_text e)] | None \<Rightarrow> [])) (w_log c)
         else if status \<ge> 400 then log_Warn (he_getenv env) ctx msg args (w_log c)
         else log_Info (he_getenv env) ctx msg args (w_log c))"

text \<open>\<open>access_status\<close> is \<open>None\<close> when the type assertion finds a nil \<open>*echo.HTTPError\<close>.\<close>

definition AccessLog :: "'f http_env \<Rightarrow> string list \<Rightarrow> 'f handler \<Rightarrow> 'f handler" where
  "AccessLog env skipPaths next c =
     (let start = w_clock c
      in case next c of
           (None, c) \<Rightarrow> (None, c)
         | (Some err, c) \<Rightarrow>
             if w_path c \<in> set ([''/health-check'', ''/ready'', ''/metrics''] @ skipPaths)
             then (Some err, c)
             else (case access_status err (w_status c) of
                     None \<Rightarrow> (None, c)
                   | Some status \<Rightarrow> (Some err, c\<lparr>w_log := log_request env err status start c\<rparr>)))"

section \<open>The server\<close>

record server_config =
  sc_ServiceName :: string
  sc_Logger :: log_config
  sc_DisableAccessLog :: bool
  sc_DisableTracing :: bool
  sc_Minimal :: bool
  sc_ExtraAccessLogSkipPaths :: "string list"

text \<open>The middlewares given to \<open>e.Use\<close>, in order.\<close>

definition server_New ::
    "'f http_env \<Rightarrow> server_config \<Rightarrow> logger_state
       \<Rightarrow> (goerr + ('f handler \<Rightarrow> 'f handler) list) \<times> logger_state"
where
  "server_New env cfg lg =
     (let name = trim_space (sc_ServiceName cfg)
      in if \<not> sc_Minimal cfg \<and> name = []
         then (Inl (EText ''http server: service name is required''), lg)
         else
           let lg = (if \<not> IsInitialized lg
                     then log_Init (he_getenv env)
                            (let l = sc_Logger cfg
                             in if lc_Service l = [] then l\<lparr>lc_Service := name\<rparr> else l) lg
                     else lg)
           in if sc_Minimal cfg then (Inr [], lg)
              else (Inr ([he_recover env, http_Middleware env name, RequestID env]
                         @ (if \<not> sc_DisableTracing cfg then [http_Tracing env name] else [])
                         @ (if \<not> sc_DisableAccessLog cfg
                            then [AccessLog env (sc_ExtraAccessLogSkipPaths cfg)] else [])), lg))"

definition NewMinimal ::
    "'f http_env \<Rightarrow> log_config \<Rightarrow> logger_state
       \<Rightarrow> (goerr + ('f handler \<Rightarrow> 'f handler) list) \<times> logger_state"
where
  "NewMinimal env logCfg =
     server_New env
       \<lparr>sc_ServiceName = [], sc_Logger = logCfg, sc_DisableAccessLog = False, sc_DisableTracing = False,
        sc_Minimal = True, sc_ExtraAccessLogSkipPaths = []\<rparr>"

text \<open>How echo applies them: the first one used is the outermost.\<close>

definition serve :: "('f handler \<Rightarrow> 'f handler) list \<Rightarrow> 'f handler \<Rightarrow> 'f handler" where
  "serve ms h = foldr (\<lambda>m h. m h) ms h"

text \<open>
  \<open>registerCollectorsOnce\<close> and the collectors given to \<open>prometheus.Register\<close>, whose errors are dropped;
  the routes are those added to echo.
\<close>

definition RegisterCollectors :: "bool \<times> string list \<Rightarrow> bool \<times> string list" where
  "RegisterCollectors s =
     (case s of (done, cs) \<Rightarrow> if done then s else (True, cs @ [''go'', ''process'']))"

definition http_Register ::
    "string \<Rightarrow> (string \<times> string) list \<Rightarrow> bool \<times> string list
       \<Rightarrow> (string \<times> string) list \<times> bool \<times> string list"
where
  "http_Register path routes s =
     (let path = (if path = [] then ''/metrics'' else path); s = RegisterCollectors s
      in (routes @ [(''GET'', path)], s))"

section \<open>What the server relies on\<close>

text \<open>
  The log entries of \<open>lg'\<close> that are not in \<open>lg\<close> are \<open>es\<close>.
\<close>

definition logged :: "logger_state \<Rightarrow> logger_state \<Rightarrow> (slog_level \<times> string \<times> log_val list) list \<Rightarrow> bool" where
  "logged lg lg' es \<longleftrightarrow> lg_out lg' = lg_out lg @ es \<and> lg_inited lg' = lg_inited lg \<and> lg_level lg' = lg_level lg
     \<and> lg_attrs lg' = lg_attrs lg"

definition no_access_entry :: "(slog_level \<times> string \<times> log_val list) list \<Rightarrow> bool" where
  "no_access_entry es \<longleftrightarrow> list_all (\<lambda>(l, m, a). m \<noteq> ''http request completed'') es"

text \<open>
  What a middleware that answers an error may change: the status, and the log by entries of its own.
\<close>

definition answered :: "'f web \<Rightarrow> 'f web \<Rightarrow> bool" where
  "answered c c' \<longleftrightarrow>
     (\<exists>st lg es. c' = c\<lparr>w_status := st, w_log := lg\<rparr> \<and> logged (w_log c) lg es \<and> no_access_entry es)"

text \<open>
  The documented behaviour of the middlewares of echo and otelecho. \<open>Recover\<close> passes a result on and
  turns a panic into an answered error; \<open>RequestID\<close> takes the ID of the request or a new one, which is
  not empty, sets it in the response and calls the handler; otelecho calls the handler in a span and
  answers its error.
\<close>

definition echo_laws :: "'f http_env \<Rightarrow> bool" where
  "echo_laws env \<longleftrightarrow>
     (\<forall>h c e c'. h c = (Some e, c') \<longrightarrow> he_recover env h c = (Some e, c'))
     \<and> (\<forall>h c c'. h c = (None, c') \<longrightarrow> (\<exists>e c''. he_recover env h c = (Some e, c'') \<and> answered c' c''))
     \<and> (\<forall>h c. \<exists>id. id \<noteq> [] \<and> (w_headerID c \<noteq> [] \<longrightarrow> id = w_headerID c)
          \<and> he_request_id env h c = h (c\<lparr>w_respID := id\<rparr>))
     \<and> (\<forall>s h c. \<exists>span. case h (c\<lparr>w_ctx := (w_ctx c)\<lparr>cx_span := span\<rparr>\<rparr>) of
          (r, c') \<Rightarrow> \<exists>c''. he_otel env s h c = (r, c'') \<and> (if r = None then c'' = c' else answered c' c''))"

section \<open>The chain\<close>

text \<open>
  A handler that returns \<open>r\<close>, records \<open>us\<close>, and leaves alone what the middlewares read: the request,
  its ID, and the logger but for new entries.
\<close>

definition steady :: "'f handler \<Rightarrow> goerr option \<Rightarrow> 'f update list \<Rightarrow> bool" where
  "steady h r us \<longleftrightarrow>
     (\<forall>c. lg_inited (w_log c) \<longrightarrow>
        (\<exists>c' es. h c = (Some r, c') \<and> w_updates c' = w_updates c @ us \<and> w_method c' = w_method c
           \<and> w_path c' = w_path c \<and> w_route c' = w_route c \<and> w_respID c' = w_respID c
           \<and> cx_request_id (w_ctx c') = cx_request_id (w_ctx c) \<and> logged (w_log c) (w_log c') es))"

definition panics :: "'f handler \<Rightarrow> 'f update list \<Rightarrow> bool" where
  "panics h us \<longleftrightarrow>
     (\<forall>c. \<exists>c' es. h c = (None, c') \<and> w_updates c' = w_updates c @ us
        \<and> logged (w_log c) (w_log c') es \<and> no_access_entry es)"

lemma logged_refl [simp]: "logged lg lg []"
  by (simp add: logged_def)

lemma logged_trans: "logged a b es \<Longrightarrow> logged b c fs \<Longrightarrow> logged a c (es @ fs)"
  by (simp add: logged_def)

lemma logged_inited: "logged a b es \<Longrightarrow> lg_inited b = lg_inited a"
  by (simp add: logged_def)

lemma no_access_entry_append [simp]: "no_access_entry (es @ fs) \<longleftrightarrow> no_access_entry es \<and> no_access_entry fs"
  by (simp add: no_access_entry_def)

lemma log_at_logged:
  "lg_inited lg \<Longrightarrow> \<exists>es. logged lg (log_at g l ctx m a lg) es"
  by (auto simp: log_at_def log_L_def Let_def logged_def)

lemma log_request_at:
  "\<exists>l a. log_request env err status start c
     = log_at (he_getenv env) l (Some (w_ctx c)) ''http request completed'' a (w_log c)"
  unfolding log_request_def Let_def log_Error_def log_Warn_def log_Info_def by metis

lemma steady_call:
  assumes "steady h r us" and "lg_inited (w_log c)"
  shows "\<exists>c' es. h c = (Some r, c') \<and> w_updates c' = w_updates c @ us
      \<and> w_method c' = w_method c \<and> w_path c' = w_path c \<and> w_route c' = w_route c \<and> w_respID c' = w_respID c
      \<and> cx_request_id (w_ctx c') = cx_request_id (w_ctx c) \<and> logged (w_log c) (w_log c') es"
  using assms by (simp add: steady_def)

lemma steady_intro:
  assumes "\<And>c. lg_inited (w_log c) \<Longrightarrow> \<exists>c' es. h c = (Some r, c') \<and> w_updates c' = w_updates c @ us
      \<and> w_method c' = w_method c \<and> w_path c' = w_path c \<and> w_route c' = w_route c \<and> w_respID c' = w_respID c
      \<and> cx_request_id (w_ctx c') = cx_request_id (w_ctx c) \<and> logged (w_log c) (w_log c') es"
  shows "steady h r us"
  using assms by (simp add: steady_def)

lemma access_status_some: "r \<noteq> Some (EHTTP None) \<Longrightarrow> \<exists>st. access_status r cur = Some st"
proof (cases r)
  case (Some e)
  assume "r \<noteq> Some (EHTTP None)"
  with Some show ?thesis by (cases e) (auto simp: access_status_def Let_def split: option.split)
qed (simp add: access_status_def)

lemma steady_access:
  assumes "steady h r us" and "r \<noteq> Some (EHTTP None)"
  shows "steady (AccessLog env sk h) r us"
proof (rule steady_intro)
  fix c :: "'a web"
  assume i: "lg_inited (w_log c)"
  with assms(1) steady_call obtain c' es where h: "h c = (Some r, c')" "w_updates c' = w_updates c @ us"
      "w_method c' = w_method c" "w_path c' = w_path c" "w_route c' = w_route c" "w_respID c' = w_respID c"
      "cx_request_id (w_ctx c') = cx_request_id (w_ctx c)" "logged (w_log c) (w_log c') es"
    by blast
  have i': "lg_inited (w_log c')" using h(8) i logged_inited by blast
  obtain st where st: "access_status r (w_status c') = Some st"
    using access_status_some [OF assms(2)] by blast
  show "\<exists>c' es. AccessLog env sk h c = (Some r, c') \<and> w_updates c' = w_updates c @ us
      \<and> w_method c' = w_method c \<and> w_path c' = w_path c \<and> w_route c' = w_route c \<and> w_respID c' = w_respID c
      \<and> cx_request_id (w_ctx c') = cx_request_id (w_ctx c) \<and> logged (w_log c) (w_log c') es"
  proof (cases "w_path c' \<in> set ([''/health-check'', ''/ready'', ''/metrics''] @ sk)")
    case True
    with h show ?thesis by (auto simp: AccessLog_def)
  next
    case False
    let ?lg = "log_request env r st (w_clock c) c'"
    have r: "AccessLog env sk h c = (Some r, c'\<lparr>w_log := ?lg\<rparr>)"
      using False h(1) st by (simp add: AccessLog_def)
    obtain fs where "logged (w_log c') ?lg fs" using log_at_logged [OF i'] log_request_at by metis
    then have "logged (w_log c) ?lg (es @ fs)" using logged_trans h(8) by blast
    with r h show ?thesis by (intro exI [of _ "c'\<lparr>w_log := ?lg\<rparr>"] exI [of _ "es @ fs"]) simp
  qed
qed

lemma otel_law:
  assumes "echo_laws env"
  shows "\<exists>span. case h (c\<lparr>w_ctx := (w_ctx c)\<lparr>cx_span := span\<rparr>\<rparr>) of
      (r, c') \<Rightarrow> \<exists>c''. he_otel env s h c = (r, c'') \<and> (if r = None then c'' = c' else answered c' c'')"
proof -
  have "\<forall>s h c. \<exists>span. case h (c\<lparr>w_ctx := (w_ctx c)\<lparr>cx_span := span\<rparr>\<rparr>) of
      (r, c') \<Rightarrow> \<exists>c''. he_otel env s h c = (r, c'') \<and> (if r = None then c'' = c' else answered c' c'')"
    using assms unfolding echo_laws_def by (elim conjE)
  then show ?thesis by (elim allE)
qed

lemma otel_steady:
  assumes "echo_laws env" and "steady h r us"
  shows "steady (he_otel env s h) r us"
proof (rule steady_intro)
  fix c :: "'a web"
  assume i: "lg_inited (w_log c)"
  obtain span where o: "case h (c\<lparr>w_ctx := (w_ctx c)\<lparr>cx_span := span\<rparr>\<rparr>) of
      (r, c') \<Rightarrow> \<exists>c''. he_otel env s h c = (r, c'') \<and> (if r = None then c'' = c' else answered c' c'')"
    using otel_law [OF assms(1), where h = h and c = c and s = s] by (elim exE)
  obtain c' es where c': "h (c\<lparr>w_ctx := (w_ctx c)\<lparr>cx_span := span\<rparr>\<rparr>) = (Some r, c')"
    and h: "w_updates c' = w_updates c @ us"
      "w_method c' = w_method c" "w_path c' = w_path c" "w_route c' = w_route c" "w_respID c' = w_respID c"
      "cx_request_id (w_ctx c') = cx_request_id (w_ctx c)" "logged (w_log c) (w_log c') es"
    using steady_call [OF assms(2), of "c\<lparr>w_ctx := (w_ctx c)\<lparr>cx_span := span\<rparr>\<rparr>"] i by auto
  from o c' obtain st lg fs where "he_otel env s h c = (Some r, c'\<lparr>w_status := st, w_log := lg\<rparr>)"
    "logged (w_log c') lg fs" by (auto simp: answered_def)
  with logged_trans [OF h(7)] h show "\<exists>c' es. he_otel env s h c = (Some r, c') \<and> w_updates c' = w_updates c @ us
      \<and> w_method c' = w_method c \<and> w_path c' = w_path c \<and> w_route c' = w_route c \<and> w_respID c' = w_respID c
      \<and> cx_request_id (w_ctx c') = cx_request_id (w_ctx c) \<and> logged (w_log c) (w_log c') es"
    by (intro exI [of _ "c'\<lparr>w_status := st, w_log := lg\<rparr>"] exI [of _ "es @ fs"]) simp
qed

text \<open>\<open>RequestID\<close> calls the rest with one ID in the response and in the context.\<close>

lemma RequestID_calls:
  assumes "echo_laws env"
  shows "\<exists>id. id \<noteq> [] \<and> (w_headerID c \<noteq> [] \<longrightarrow> id = w_headerID c)
    \<and> RequestID env h c = h (c\<lparr>w_respID := id, w_ctx := (w_ctx c)\<lparr>cx_request_id := id\<rparr>\<rparr>)"
proof -
  let ?k = "\<lambda>c. let id = w_respID c; id = (if id = [] then w_headerID c else id)
       in h (c\<lparr>w_ctx := ContextWithRequestID (Some (w_ctx c)) id\<rparr>)"
  from assms obtain id where "id \<noteq> []" "w_headerID c \<noteq> [] \<longrightarrow> id = w_headerID c"
    "he_request_id env ?k c = ?k (c\<lparr>w_respID := id\<rparr>)" unfolding echo_laws_def by blast
  then show ?thesis
    by (auto simp: RequestID_def ContextWithRequestID_def or_background_def Let_def)
qed

lemma recover_passes:
  "echo_laws env \<Longrightarrow> h c = (Some e, c') \<Longrightarrow> he_recover env h c = (Some e, c')"
  unfolding echo_laws_def by blast

lemma steady_inner:
  assumes "echo_laws env" and "steady h r us" and "r \<noteq> Some (EHTTP None)"
  shows "steady (serve ((if t then [http_Tracing env name] else []) @ (if a then [AccessLog env sk] else [])) h) r us"
proof -
  have "steady (if a then AccessLog env sk h else h) r us" using assms steady_access [OF assms(2,3)] by simp
  moreover have "steady (if t then http_Tracing env name g else g) r us" if "steady g r us" for g
    using otel_steady [OF assms(1) that] that by (simp add: http_Tracing_def)
  ultimately show ?thesis by (cases t; cases a) (simp_all add: serve_def)
qed

lemma New_chain:
  assumes "server_New env cfg lg = (Inr ms, lg')" and "\<not> sc_Minimal cfg"
  shows "ms = [he_recover env, http_Middleware env (trim_space (sc_ServiceName cfg)), RequestID env]
      @ ((if \<not> sc_DisableTracing cfg then [http_Tracing env (trim_space (sc_ServiceName cfg))] else [])
         @ (if \<not> sc_DisableAccessLog cfg then [AccessLog env (sc_ExtraAccessLogSkipPaths cfg)] else []))"
    and "lg_inited lg'"
  using assms by (auto simp: server_New_def Let_def IsInitialized_def log_Init_def split: if_splits)

lemma serve_append [simp]: "serve (ms @ ns) h = serve ms (serve ns h)"
  by (simp add: serve_def)

lemma serve_outer:
  "serve [he_recover env, http_Middleware env name, RequestID env] h
     = he_recover env (http_Middleware env name (RequestID env h))"
  by (simp add: serve_def)

lemma SanitizeService_trim [simp]: "SanitizeService (trim_space name) = SanitizeService name"
  by (simp add: SanitizeService_def norm_def)











text \<open>The middlewares of echo, as its documentation describes them.\<close>

definition demo_http :: "int http_env" where
  "demo_http =
     \<lparr>he_recover = (\<lambda>h c. case h c of
        (None, c) \<Rightarrow> (Some (Some (EText ''panic'')), c\<lparr>w_status := 500\<rparr>) | r \<Rightarrow> r),
      he_request_id = (\<lambda>h c. h (c\<lparr>w_respID := (if w_headerID c = [] then ''r1'' else w_headerID c)\<rparr>)),
      he_otel = (\<lambda>s h c. h (c\<lparr>w_ctx := (w_ctx c)\<lparr>cx_span := Some (''t1'', ''s1'')\<rparr>\<rparr>)),
      he_getenv = (\<lambda>k. []), he_url_path = (\<lambda>p. Some p)\<rparr>"

lemma answered_refl: "answered c c"
  unfolding answered_def
  by (intro exI [of _ "w_status c"] exI [of _ "w_log c"] exI [of _ "[]"]) (simp add: no_access_entry_def)

lemma answered_status: "answered c (c\<lparr>w_status := st\<rparr>)"
  unfolding answered_def
  by (intro exI [of _ st] exI [of _ "w_log c"] exI [of _ "[]"]) (simp add: no_access_entry_def)

lemma demo_laws: "echo_laws demo_http"
  unfolding echo_laws_def
proof (intro conjI allI impI)
  fix h :: "int handler" and c e c'
  assume "h c = (Some e, c')"
  then show "he_recover demo_http h c = (Some e, c')" by (simp add: demo_http_def)
next
  fix h :: "int handler" and c c'
  assume "h c = (None, c')"
  then show "\<exists>e c''. he_recover demo_http h c = (Some e, c'') \<and> answered c' c''"
    by (simp add: demo_http_def answered_status)
next
  fix h :: "int handler" and c
  show "\<exists>id. id \<noteq> [] \<and> (w_headerID c \<noteq> [] \<longrightarrow> id = w_headerID c)
      \<and> he_request_id demo_http h c = h (c\<lparr>w_respID := id\<rparr>)"
    by (cases "w_headerID c = []") (auto simp: demo_http_def)
next
  fix s and h :: "int handler" and c
  let ?c = "(c :: int web)\<lparr>w_ctx := (w_ctx c)\<lparr>cx_span := Some (''t1'', ''s1'')\<rparr>\<rparr>"
  obtain r c' where r: "h ?c = (r, c')" by fastforce
  then have "he_otel demo_http s h c = (r, c')" by (simp add: demo_http_def)
  then show "\<exists>span. case h (c\<lparr>w_ctx := (w_ctx c)\<lparr>cx_span := span\<rparr>\<rparr>) of
      (r, c') \<Rightarrow> \<exists>c''. he_otel demo_http s h c = (r, c'') \<and> (if r = None then c'' = c' else answered c' c'')"
    using r answered_refl by (intro exI [of _ "Some (''t1'', ''s1'')"]) auto
qed

definition demo_logger :: logger_state where
  "demo_logger = \<lparr>lg_inited = True, lg_cfg = empty_log_config, lg_level = Info, lg_attrs = [], lg_out = []\<rparr>"

definition demo_server :: server_config where
  "demo_server =
     \<lparr>sc_ServiceName = ''auth'', sc_Logger = empty_log_config, sc_DisableAccessLog = False,
      sc_DisableTracing = False, sc_Minimal = False, sc_ExtraAccessLogSkipPaths = []\<rparr>"

definition demo_web :: "int web" where
  "demo_web =
     \<lparr>w_method = ''GET'', w_path = ''/api'', w_route = ''/api'', w_headerID = ''q7'', w_respID = [],
      w_ctx = background, w_status = 200, w_clock = 0, w_log = demo_logger, w_updates = []\<rparr>"


lemma demo_full: "\<not> sc_Minimal demo_server"
  by (simp add: demo_server_def)


lemma demo_web_fields: "w_method demo_web = ''GET''" "boundedRoute (he_url_path demo_http) demo_web = ''/api''"
    "w_updates demo_web = []"
  by (simp_all add: demo_web_def boundedRoute_def)


lemma demo_New: "\<exists>ms. server_New demo_http demo_server demo_logger = (Inr ms, demo_logger)"
proof -
  have "trim_space ''auth'' = ''auth''" by code_simp
  then show ?thesis
    by (simp add: server_New_def demo_server_def demo_logger_def IsInitialized_def Let_def)
qed

lemma steady_return: "steady (\<lambda>c. (Some r, c)) r []"
  proof (rule steady_intro)
  fix c :: "'a web"
  show "\<exists>c' es. (Some r, c) = (Some r, c') \<and> w_updates c' = w_updates c @ []
      \<and> w_method c' = w_method c \<and> w_path c' = w_path c \<and> w_route c' = w_route c \<and> w_respID c' = w_respID c
      \<and> cx_request_id (w_ctx c') = cx_request_id (w_ctx c) \<and> logged (w_log c) (w_log c') es"
    by (intro exI [of _ c] exI [of _ "[]"]) simp
qed





section \<open>Panics\<close>

lemma panics_call:
  "panics h us \<Longrightarrow> \<exists>c' es. h c = (None, c') \<and> w_updates c' = w_updates c @ us
     \<and> logged (w_log c) (w_log c') es \<and> no_access_entry es"
  by (simp add: panics_def)

lemma panics_through:
  assumes "\<And>c c'. h c = (None, c') \<Longrightarrow> g c = (None, c')" and "panics h us"
  shows "panics g us"
  using assms unfolding panics_def by metis

lemma panics_access: "panics h us \<Longrightarrow> panics (AccessLog env sk h) us"
  by (rule panics_through [of h]) (simp_all add: AccessLog_def)

lemma panics_otel:
  assumes "echo_laws env" and "panics h us"
  shows "panics (he_otel env s h) us"
  unfolding panics_def
proof
  fix c :: "'a web"
  let ?c = "\<lambda>span. c\<lparr>w_ctx := (w_ctx c)\<lparr>cx_span := span\<rparr>\<rparr>"
  obtain span where o: "case h (?c span) of
      (r, c') \<Rightarrow> \<exists>c''. he_otel env s h c = (r, c'') \<and> (if r = None then c'' = c' else answered c' c'')"
    using otel_law [OF assms(1), where h = h and c = c and s = s] by (elim exE)
  from panics_call [OF assms(2), of "?c span"] obtain c' es where "h (?c span) = (None, c')"
    "w_updates c' = w_updates c @ us" "logged (w_log c) (w_log c') es" "no_access_entry es" by auto
  with o show "\<exists>c' es. he_otel env s h c = (None, c') \<and> w_updates c' = w_updates c @ us
      \<and> logged (w_log c) (w_log c') es \<and> no_access_entry es" by auto
qed

lemma panics_request_id:
  assumes "echo_laws env" and "panics h us"
  shows "panics (RequestID env h) us"
  unfolding panics_def
proof
  fix c :: "'a web"
  obtain id where "RequestID env h c = h (c\<lparr>w_respID := id, w_ctx := (w_ctx c)\<lparr>cx_request_id := id\<rparr>\<rparr>)"
    using RequestID_calls [OF assms(1)] by blast
  with panics_call [OF assms(2), of "c\<lparr>w_respID := id, w_ctx := (w_ctx c)\<lparr>cx_request_id := id\<rparr>\<rparr>"]
  show "\<exists>c' es. RequestID env h c = (None, c') \<and> w_updates c' = w_updates c @ us
      \<and> logged (w_log c) (w_log c') es \<and> no_access_entry es" by simp
qed

lemma panics_metrics: "panics h us \<Longrightarrow> panics (http_Middleware env name h) us"
  by (rule panics_through [of h]) (simp_all add: http_Middleware_def Let_def)

lemma panics_recovered:
  assumes "echo_laws env" and "panics h us"
  shows "\<exists>e c' es. he_recover env h c = (Some e, c') \<and> w_updates c' = w_updates c @ us
     \<and> logged (w_log c) (w_log c') es \<and> no_access_entry es"
proof -
  obtain c' es where h: "h c = (None, c')" "w_updates c' = w_updates c @ us"
    "logged (w_log c) (w_log c') es" "no_access_entry es" using panics_call [OF assms(2)] by blast
  then obtain e c'' where r: "he_recover env h c = (Some e, c'')" and "answered c' c''"
    using assms(1) unfolding echo_laws_def by blast
  then obtain st lg fs where "c'' = c'\<lparr>w_status := st, w_log := lg\<rparr>" "logged (w_log c') lg fs"
    "no_access_entry fs" unfolding answered_def by blast
  with h r logged_trans [OF h(3)] show ?thesis
    by (intro exI [of _ e] exI [of _ c''] exI [of _ "es @ fs"]) simp
qed

text \<open>
  C39. A panic leaves no trace in the request metrics and none in the access log. \<open>Recover\<close> is the
  outermost middleware, so the metrics middleware and the access log never see a request whose handler
  panics: the updates are those the handler made itself, and no entry of the access log is written,
  although the client is answered with an error.
\<close>

theorem panic_not_recorded:
  assumes "echo_laws env" and "server_New env cfg lg = (Inr ms, lg')" and "\<not> sc_Minimal cfg"
    and "panics h us"
  shows "\<exists>e c' es. serve ms h c = (Some e, c') \<and> w_updates c' = w_updates c @ us
    \<and> lg_out (w_log c') = lg_out (w_log c) @ es \<and> no_access_entry es"
proof -
  note chain = New_chain(1) [OF assms(2,3)]
  let ?name = "trim_space (sc_ServiceName cfg)"
  define g where "g = serve ((if \<not> sc_DisableTracing cfg then [http_Tracing env ?name] else [])
      @ (if \<not> sc_DisableAccessLog cfg then [AccessLog env (sc_ExtraAccessLogSkipPaths cfg)] else [])) h"
  have a: "panics (if \<not> sc_DisableAccessLog cfg then AccessLog env (sc_ExtraAccessLogSkipPaths cfg) h else h) us"
    using assms(4) panics_access [OF assms(4)] by simp
  have "panics (if \<not> sc_DisableTracing cfg then http_Tracing env ?name k else k) us" if "panics k us" for k
    using panics_otel [OF assms(1) that] that by (simp add: http_Tracing_def)
  from this [OF a] have g: "panics g us"
    by (cases "sc_DisableTracing cfg"; cases "sc_DisableAccessLog cfg") (simp_all add: g_def serve_def)
  have s: "serve ms h = he_recover env (http_Middleware env ?name (RequestID env g))"
    unfolding chain serve_append serve_outer g_def ..
  from panics_recovered [OF assms(1) panics_metrics [OF panics_request_id [OF assms(1) g]]]
  show ?thesis unfolding s logged_def by blast
qed

theorem panic_not_recorded_witness:
  "\<exists>ms e c'. server_New demo_http demo_server demo_logger = (Inr ms, demo_logger)
     \<and> serve ms (\<lambda>c. (None, c)) demo_web = (Some e, c') \<and> w_updates c' = []"
proof -
  obtain ms where ms: "server_New demo_http demo_server demo_logger = (Inr ms, demo_logger)"
    using demo_New by blast
  have p: "panics (\<lambda>c. (None, c)) []"
    unfolding panics_def by (auto intro!: exI [of _ "[]"] simp: no_access_entry_def)
  from panic_not_recorded [OF demo_laws ms demo_full p, of demo_web] ms demo_web_fields show ?thesis by auto
qed

section \<open>Request IDs in the access log\<close>

lemma metrics_passes:
  assumes "h c = (Some r, c')"
  shows "\<exists>c''. http_Middleware env name h c = (Some r, c'') \<and> w_respID c'' = w_respID c' \<and> w_log c'' = w_log c'"
proof (cases "IsInfraHTTPPath (he_url_path env) (w_path c)")
  case True
  with assms show ?thesis by (intro exI [of _ c']) (simp add: http_Middleware_def)
next
  case False
  then show ?thesis by (simp add: http_Middleware_def Let_def assms)
qed

text \<open>The access log writes an entry that carries the request ID of the context.\<close>

definition emits :: "string list \<Rightarrow> 'f handler \<Rightarrow> bool" where
  "emits sk h \<longleftrightarrow>
     (\<forall>c. lg_inited (w_log c) \<and> slog_rank (lg_level (w_log c)) \<le> 0 \<and> cx_request_id (w_ctx c) \<noteq> []
        \<and> w_path c \<notin> set ([''/health-check'', ''/ready'', ''/metrics''] @ sk) \<longrightarrow>
        (\<exists>pre l xs ys post. lg_out (w_log (snd (h c)))
           = pre @ (l, ''http request completed'',
                    xs @ [LStr ''request_id'', LStr (cx_request_id (w_ctx c))] @ ys) # post))"

lemma log_request_entry:
  assumes "lg_inited (w_log c)" and "slog_rank (lg_level (w_log c)) \<le> 0" and "cx_request_id (w_ctx c) \<noteq> []"
  shows "\<exists>l ys. lg_out (log_request env err st start c)
    = lg_out (w_log c) @ [(l, ''http request completed'',
        lg_attrs (w_log c) @ [LStr ''request_id'', LStr (cx_request_id (w_ctx c))] @ ys)]"
  using assms
  by (auto simp: log_request_def log_Error_def log_Warn_def log_Info_def log_at_def log_L_def Let_def
      FromContext_def contextAttrs_def RequestIDFromContext_def)

lemma emits_access:
  assumes "steady h r us" and "r \<noteq> Some (EHTTP None)"
  shows "emits sk (AccessLog env sk h)"
  unfolding emits_def
proof (intro allI impI)
  fix c :: "'a web"
  assume c: "lg_inited (w_log c) \<and> slog_rank (lg_level (w_log c)) \<le> 0 \<and> cx_request_id (w_ctx c) \<noteq> []
    \<and> w_path c \<notin> set ([''/health-check'', ''/ready'', ''/metrics''] @ sk)"
  with steady_call [OF assms(1)] obtain c' es where h: "h c = (Some r, c')" "w_path c' = w_path c"
    "cx_request_id (w_ctx c') = cx_request_id (w_ctx c)" "logged (w_log c) (w_log c') es" by blast
  obtain st where st: "access_status r (w_status c') = Some st"
    using access_status_some [OF assms(2)] by blast
  have "w_log (snd (AccessLog env sk h c)) = log_request env r st (w_clock c) c'"
    using c h(1,2) st by (simp add: AccessLog_def)
  moreover have "lg_inited (w_log c')" "slog_rank (lg_level (w_log c')) \<le> 0" "cx_request_id (w_ctx c') \<noteq> []"
    using c h by (simp_all add: logged_def)
  ultimately show "\<exists>pre l xs ys post. lg_out (w_log (snd (AccessLog env sk h c)))
      = pre @ (l, ''http request completed'',
               xs @ [LStr ''request_id'', LStr (cx_request_id (w_ctx c))] @ ys) # post"
    using log_request_entry [of c'] h(3) by metis
qed

lemma emits_otel:
  assumes "echo_laws env" and "emits sk h" and "steady h r us"
  shows "emits sk (he_otel env s h)"
  unfolding emits_def
proof (intro allI impI)
  fix c :: "'a web"
  let ?c = "\<lambda>span. c\<lparr>w_ctx := (w_ctx c)\<lparr>cx_span := span\<rparr>\<rparr>"
  assume c: "lg_inited (w_log c) \<and> slog_rank (lg_level (w_log c)) \<le> 0 \<and> cx_request_id (w_ctx c) \<noteq> []
    \<and> w_path c \<notin> set ([''/health-check'', ''/ready'', ''/metrics''] @ sk)"
  obtain span where o: "case h (?c span) of
      (r, c') \<Rightarrow> \<exists>c''. he_otel env s h c = (r, c'') \<and> (if r = None then c'' = c' else answered c' c'')"
    using otel_law [OF assms(1), where h = h and c = c and s = s] by (elim exE)
  obtain c' where h: "h (?c span) = (Some r, c')"
    using steady_call [OF assms(3), of "?c span"] c by auto
  obtain pre l xs ys post where e: "lg_out (w_log c') = pre @ (l, ''http request completed'',
      xs @ [LStr ''request_id'', LStr (cx_request_id (w_ctx c))] @ ys) # post"
    using assms(2) [unfolded emits_def, THEN spec, of "?c span"] c h by auto
  from o h obtain c'' es where c'': "he_otel env s h c = (Some r, c'')"
    and "lg_out (w_log c'') = lg_out (w_log c') @ es" by (auto simp: answered_def logged_def)
  with e have "lg_out (w_log (snd (he_otel env s h c))) = pre @ (l, ''http request completed'',
      xs @ [LStr ''request_id'', LStr (cx_request_id (w_ctx c))] @ ys) # (post @ es)" by simp
  then show "\<exists>pre l xs ys post. lg_out (w_log (snd (he_otel env s h c)))
      = pre @ (l, ''http request completed'',
               xs @ [LStr ''request_id'', LStr (cx_request_id (w_ctx c))] @ ys) # post" by blast
qed

text \<open>
  One ID names a request everywhere: a request that returns gets a non-empty ID, the client's own if
  it sent one, in its response, and the access log has an entry with that same ID, on every path that
  is not skipped, when entries of level info are written.
\<close>

theorem access_log_carries_id:
  assumes "echo_laws env" and "server_New env cfg lg = (Inr ms, w_log c)" and "\<not> sc_Minimal cfg"
    and "\<not> sc_DisableAccessLog cfg" and "steady h r us" and "r \<noteq> Some (EHTTP None)"
    and "w_path c \<notin> set ([''/health-check'', ''/ready'', ''/metrics''] @ sc_ExtraAccessLogSkipPaths cfg)"
    and "slog_rank (lg_level (w_log c)) \<le> 0"
  shows "\<exists>c' id pre l xs ys post. serve ms h c = (Some r, c') \<and> w_respID c' = id \<and> id \<noteq> []
    \<and> (w_headerID c \<noteq> [] \<longrightarrow> id = w_headerID c)
    \<and> lg_out (w_log c') = pre @ (l, ''http request completed'',
        xs @ [LStr ''request_id'', LStr id] @ ys) # post"
proof -
  note chain = New_chain [OF assms(2,3)]
  let ?name = "trim_space (sc_ServiceName cfg)" and ?sk = "sc_ExtraAccessLogSkipPaths cfg"
  define g where "g = serve ((if \<not> sc_DisableTracing cfg then [http_Tracing env ?name] else [])
      @ (if \<not> sc_DisableAccessLog cfg then [AccessLog env ?sk] else [])) h"
  have g: "steady g r us" unfolding g_def by (rule steady_inner [OF assms(1,5,6)])
  have "emits ?sk (if \<not> sc_DisableTracing cfg then http_Tracing env ?name (AccessLog env ?sk h)
      else AccessLog env ?sk h)"
    using emits_access [OF assms(5,6)]
      emits_otel [OF assms(1) emits_access [OF assms(5,6)] steady_access [OF assms(5,6)]]
    by (simp add: http_Tracing_def)
  then have e: "emits ?sk g" using assms(4) by (cases "sc_DisableTracing cfg") (simp_all add: g_def serve_def)
  obtain id where id: "id \<noteq> []" "w_headerID c \<noteq> [] \<longrightarrow> id = w_headerID c"
    "RequestID env g c = g (c\<lparr>w_respID := id, w_ctx := (w_ctx c)\<lparr>cx_request_id := id\<rparr>\<rparr>)"
    using RequestID_calls [OF assms(1)] by blast
  let ?c = "c\<lparr>w_respID := id, w_ctx := (w_ctx c)\<lparr>cx_request_id := id\<rparr>\<rparr>"
  obtain c' where c': "g ?c = (Some r, c')" "w_respID c' = id"
    using steady_call [OF g, of ?c] chain(2) by auto
  obtain pre l xs ys post where out: "lg_out (w_log c') = pre @ (l, ''http request completed'',
      xs @ [LStr ''request_id'', LStr id] @ ys) # post"
    using e [unfolded emits_def, THEN spec, of ?c] c' chain(2) assms(7,8) id(1) by auto
  obtain c'' where c'': "http_Middleware env ?name (RequestID env g) c = (Some r, c'')"
    "w_respID c'' = w_respID c'" "w_log c'' = w_log c'"
    using metrics_passes [of "RequestID env g" c r c' env ?name] c'(1) id(3) by auto
  have "serve ms h = he_recover env (http_Middleware env ?name (RequestID env g))"
    unfolding chain(1) serve_append serve_outer g_def ..
  then have "serve ms h c = (Some r, c'')"
    using recover_passes [OF assms(1), where h = "http_Middleware env ?name (RequestID env g)"] c''(1)
    by simp
  moreover have "w_respID c'' = id" "lg_out (w_log c'') = pre @ (l, ''http request completed'',
      xs @ [LStr ''request_id'', LStr id] @ ys) # post" using c'' c'(2) out by simp_all
  ultimately show ?thesis using id(1,2) by blast
qed

theorem access_log_carries_id_witness:
  "\<exists>ms c' pre l xs ys post. server_New demo_http demo_server demo_logger = (Inr ms, demo_logger)
     \<and> serve ms (\<lambda>c. (Some None, c)) demo_web = (Some None, c') \<and> w_respID c' = ''q7''
     \<and> lg_out (w_log c') = pre @ (l, ''http request completed'',
         xs @ [LStr ''request_id'', LStr ''q7''] @ ys) # post"
proof -
  obtain ms where ms: "server_New demo_http demo_server demo_logger = (Inr ms, demo_logger)"
    using demo_New by blast
  have ms': "server_New demo_http demo_server demo_logger = (Inr ms, w_log demo_web)"
    using ms by (simp add: demo_web_def)
  have d: "\<not> sc_Minimal demo_server" "\<not> sc_DisableAccessLog demo_server" "None \<noteq> Some (EHTTP None)"
    "w_path demo_web \<notin> set ([''/health-check'', ''/ready'', ''/metrics''] @ sc_ExtraAccessLogSkipPaths demo_server)"
    "slog_rank (lg_level (w_log demo_web)) \<le> 0" "w_headerID demo_web = ''q7''"
    by (simp_all add: demo_server_def demo_web_def demo_logger_def)
  from access_log_carries_id [OF demo_laws ms' d(1,2) steady_return d(3-5)] ms d(6) show ?thesis by force
qed

text \<open>
  Application errors in the access log. For an error of the \<open>errors\<close> package the response has the
  status of its kind, but the access log, which looks only for an \<open>echo.HTTPError\<close>, writes 500 at level
  error, whatever the kind.
\<close>

theorem access_log_status_of_refusals:
  assumes "k \<noteq> 0" and "msg \<noteq> []"
  shows "error_response (Some (refusal op k msg)) = Some (statusFromKind k, ErrorBody msg [])
    \<and> access_status (Some (refusal op k msg)) 200 = Some 500"
proof -
  have "app_error (refusal op k msg) (RichError op None msg k)" by (rule refusal_app_error [OF assms])
  then have "error_response (Some (refusal op k msg)) = Some (statusFromKind k, ErrorBody msg [])"
    using assms by (simp add: app_error_def error_response_def rich_walk)
  moreover have "access_status (Some (refusal op k msg)) 200 = Some 500"
    by (simp add: access_status_def refusal_def)
  ultimately show ?thesis ..
qed

theorem access_log_status_of_refusals_witness:
  "error_response (Some (refusal ''users.Get'' KindNotFound ''no such user''))
     = Some (404, ErrorBody ''no such user'' [])
   \<and> access_status (Some (refusal ''users.Get'' KindNotFound ''no such user'')) 200 = Some 500"
proof -
  have "KindNotFound \<noteq> 0" "statusFromKind KindNotFound = 404" by code_simp+
  with access_log_status_of_refusals [of KindNotFound "''no such user''" "''users.Get''"] show ?thesis by simp
qed

end
