(* ===== verification/Request_Flow.thy ===== *)
theory Request_Flow
  imports HTTP_Server Echo_Auth
begin

text \<open>
  What a client sees when a guard turns it away: the middlewares of \<open>Echo_Auth\<close> composed with the
  error handler (\<open>HTTP_Errors\<close>) and the recorded status of the request metrics.
\<close>

section \<open>Errors that turn a request away\<close>

text \<open>An error of the \<open>errors\<close> package that is answered with its kind's status and the text \<open>msg\<close>.\<close>

definition turned_away :: "goerr \<Rightarrow> int \<Rightarrow> string \<Rightarrow> bool" where
  "turned_away e st msg \<longleftrightarrow>
     error_response (Some e) = Some (st, ErrorBody msg [])
     \<and> (\<forall>cur. recorded_status (Some e) cur = st) \<and> st \<in> {401, 403}"

lemma turned_away_app:
  assumes "app_error e r" and "RichError_Kind (Some r) \<in> {KindForbidden, KindUnauthenticated}"
  shows "turned_away e (statusFromKind (RichError_Kind (Some r))) (RichError_Message (Some r))"
  using assms
  by (auto simp: turned_away_def app_error_def error_response_def recorded_status_def
      statusFromHandlerError_def statusFromKind_def Let_def)

lemma turned_away_refusal:
  assumes "k \<in> {KindForbidden, KindUnauthenticated}" and "msg \<noteq> []"
  shows "turned_away (refusal op k msg) (statusFromKind k) msg"
proof -
  have "k \<noteq> 0" using assms(1) by auto
  note facts = refusal_facts [OF this assms(2), of op]
  from turned_away_app [OF refusal_app_error [OF \<open>k \<noteq> 0\<close> assms(2), of op]] assms(1)
  show ?thesis by (simp add: facts)
qed

lemma turned_away_forbidden: "turned_away (echo_forbidden op) 403 ''forbidden''"
  using turned_away_refusal [of KindForbidden "''forbidden''" op]
  by (simp add: echo_forbidden_def statusFromKind_def)

lemma jwt_refusal_away: "is_refusal e \<Longrightarrow> \<exists>msg\<in>set refusal_messages. turned_away e 401 msg"
proof -
  assume "is_refusal e"
  then obtain m where m: "m \<in> set refusal_messages" "e = jwt_unauthenticated m"
    by (auto simp: is_refusal_def list_ex_iff)
  then have "m \<noteq> []" by (auto simp: refusal_messages_def)
  with m show ?thesis
    using turned_away_refusal [of KindUnauthenticated m "''security.jwt.Verify''"]
    by (auto simp: jwt_unauthenticated_def statusFromKind_def)
qed

lemma claims_error_away: "GetClaims c = Inl e \<Longrightarrow> turned_away e 401 ''unauthenticated''"
  using turned_away_refusal [of KindUnauthenticated "''unauthenticated''" "''security.echo.GetClaims''"]
  by (auto simp: GetClaims_def statusFromKind_def split: option.splits if_splits)

section \<open>Users\<close>

text \<open>
  The handler that must not be called: wherever the result does not come from the guards alone, it panics.
\<close>

definition unreachable_handler :: "'s handler" where
  "unreachable_handler c s = None"

text \<open>Everything a user is told who is turned away.\<close>

definition user_messages :: "string list" where
  "user_messages =
     [''empty token'', ''invalid token'', ''token expired'', ''invalid token use'', ''unauthenticated'',
      ''forbidden'']"

lemma user_messages_members:
  "''unauthenticated'' \<in> set user_messages" "''forbidden'' \<in> set user_messages"
  "set refusal_messages \<subseteq> set user_messages"
  by (simp_all add: user_messages_def refusal_messages_def)

lemma permission_alone:
  assumes "RequirePermission keys unreachable_handler c s = Some (r, us, s')"
  shows "RequirePermission keys next c s = Some (r, us, s') \<and> us = [] \<and> s' = s
    \<and> (\<exists>e st msg. r = Some e \<and> turned_away e st msg \<and> msg \<in> set user_messages)"
proof (cases "GetClaims c")
  case (Inl e)
  with assms have "RequirePermission keys next c s = Some (r, us, s') \<and> us = [] \<and> s' = s \<and> r = Some e"
    by (simp add: RequirePermission_def)
  with claims_error_away [OF Inl] user_messages_members(1) show ?thesis by blast
next
  case (Inr cl)
  with assms have "RequirePermission keys next c s = Some (r, us, s') \<and> us = [] \<and> s' = s
      \<and> (\<exists>op. r = Some (echo_forbidden op))"
    by (auto simp: RequirePermission_def unreachable_handler_def split: if_splits)
  with turned_away_forbidden user_messages_members(2) show ?thesis by blast
qed

text \<open>
  C12. A user who may not is told so and nothing else. When \<open>JWT(verifier)\<close> and \<open>RequirePermission\<close> end a
  request without calling the handler, they do so whatever the handler is, record nothing and return
  an error that the error handler answers with 401 or 403 and one of six fixed messages,
  whatever the cause inside says; the request metrics record the same status.
\<close>

theorem refused_user_request:
  assumes "echo_JWT (Some (user_verify env lib)) (RequirePermission keys unreachable_handler) c (v, w)
    = Some (r, us, s')"
  shows "echo_JWT (Some (user_verify env lib)) (RequirePermission keys next) c (v, w) = Some (r, [], s')
    \<and> (\<exists>e st msg. r = Some e \<and> error_response r = Some (st, ErrorBody msg []) \<and> st \<in> {401, 403}
        \<and> msg \<in> {''empty token'', ''invalid token'', ''token expired'', ''invalid token use'',
                   ''unauthenticated'', ''forbidden''}
        \<and> recorded_status r cur = st)"
proof -
  obtain q v' w' where ver: "user_verify env lib (accessToken c) (v, w) = (q, (v', w'))"
    by (metis surj_pair)
  have "echo_JWT (Some (user_verify env lib)) (RequirePermission keys next) c (v, w) = Some (r, [], s')
    \<and> (\<exists>e st msg. r = Some e \<and> turned_away e st msg \<and> msg \<in> set user_messages)"
  proof (cases q)
    case (Inl e)
    from user_verify_step [OF ver [unfolded Inl]]
    have "is_refusal e" by (blast intro: verify_refuses)
    then have "\<exists>st msg. turned_away e st msg \<and> msg \<in> set user_messages"
      using jwt_refusal_away user_messages_members(3) by blast
    moreover have "echo_JWT (Some (user_verify env lib)) (RequirePermission keys next) c (v, w)
        = Some (r, [], s') \<and> r = Some e"
      using assms ver Inl by (simp add: echo_JWT_def)
    ultimately show ?thesis by blast
  next
    case (Inr cl)
    let ?c = "c\<lparr>er_claims := Some cl\<rparr>"
    have "RequirePermission keys unreachable_handler ?c (v', w') = Some (r, us, s')"
      using assms ver Inr by (simp add: echo_JWT_def)
    from permission_alone [OF this, of "next"] show ?thesis using ver Inr by (auto simp: echo_JWT_def)
  qed
  then show ?thesis by (auto simp: turned_away_def user_messages_def)
qed

text \<open>Without a token.\<close>

theorem refused_user_request_witness:
  "\<exists>e s'. echo_JWT (Some (user_verify demo_jwks (toy_lib demo_token))) (RequirePermission [''read''] demo_page)
       (demo_echo_req [] \<lparr>er_Cookies := []\<rparr>) (demo_jwt_verifier, 1) = Some (Some e, [], s')
     \<and> (\<exists>st msg. error_response (Some e) = Some (st, ErrorBody msg []) \<and> st \<in> {401, 403})"
proof -
  let ?c = "demo_echo_req [] \<lparr>er_Cookies := []\<rparr>" and ?s = "(demo_jwt_verifier, 1 :: nat)"
  let ?v = "user_verify demo_jwks (toy_lib demo_token)"
  have t: "accessToken ?c = []" "trimBearer [] = []"
    by (simp_all add: accessToken_def demo_echo_req_def bearer_def trimBearer_def)
  have "echo_JWT (Some ?v) (RequirePermission [''read''] unreachable_handler) ?c ?s
      = Some (Some (jwt_unauthenticated ''empty token''), [], ?s)"
    by (simp add: echo_JWT_def t user_verify_def jwt_Verify_def)
  from refused_user_request [OF this, of demo_page 0] show ?thesis by auto
qed

section \<open>Services\<close>

text \<open>
  The libraries know nothing of this module's \<open>ValidationError\<close>: no error of the network, of the JSON
  decoder or of the JWT parser has one in its chain, unless the parser wraps the key function's.
\<close>

definition plain :: "goerr \<Rightarrow> bool" where
  "plain e \<longleftrightarrow> as_validation e = None"

definition plain_libraries :: "'w jwks_env \<Rightarrow> 'cl jwt_lib \<Rightarrow> bool" where
  "plain_libraries env lib \<longleftrightarrow>
     (\<forall>u e. je_NewRequest env u = Some e \<longrightarrow> plain e)
     \<and> (\<forall>u t w e w'. je_Do env u t w = (Inl e, w') \<longrightarrow> plain e)
     \<and> (\<forall>u t w r w' e. je_Do env u t w = (Inr r, w') \<longrightarrow> rs_ReadErr r = Some e \<longrightarrow> plain e)
     \<and> (\<forall>raw e. je_Unmarshal env raw = Inl e \<longrightarrow> plain e)
     \<and> (\<forall>opts raw e. jl_Before lib opts raw = Inl e \<longrightarrow> plain e)
     \<and> (\<forall>now opts raw k e. jl_After lib now opts raw k = Inl e \<longrightarrow>
          (\<forall>e'. k = Inl e' \<longrightarrow> plain e') \<longrightarrow> plain e)"

lemma plain_simps [simp]:
  "plain (EText t)" "plain (EWrap t e) \<longleftrightarrow> plain e"
  by (simp_all add: plain_def as_validation_def find_err_simps)

lemma Parse_plain: "Parse doc = Inl e \<Longrightarrow> plain e"
proof -
  have "parse_keys ks out = Inl e \<Longrightarrow> plain e" for ks out
    by (induction ks out rule: parse_keys.induct)
      (auto simp: b64_error_def split: if_splits option.splits)
  then show "Parse doc = Inl e \<Longrightarrow> plain e" by (auto simp: Parse_def split: sum.splits if_splits)
qed

lemma Refresh_plain:
  assumes "plain_libraries env lib" and "Refresh env c w = (Some e, c', w')"
  shows "plain e"
proof -
  have get: "je_NewRequest env u = Some e \<Longrightarrow> plain e" "je_Do env u t w = (Inl e, w') \<Longrightarrow> plain e"
    "je_Unmarshal env raw = Inl e \<Longrightarrow> plain e"
    "je_Do env u t w = (Inr r, w') \<Longrightarrow> rs_ReadErr r = Some e \<Longrightarrow> plain e" for u t w e w' r raw
    using assms(1) unfolding plain_libraries_def by metis+
  show ?thesis
    using assms(2) get Parse_plain
    by (auto simp: Refresh_def read_limited_def split: if_splits option.splits prod.splits sum.splits)
qed

lemma keyfunc_plain:
  assumes "plain_libraries env lib" and "cache_keyfunc (Lookup env) t c w = (Inl e, c', w')"
  shows "plain e"
  using assms(2) Refresh_plain [OF assms(1)]
  by (auto simp: cache_keyfunc_def Lookup_def split: if_splits option.splits prod.splits)

lemma service_error_plain:
  assumes "plain_libraries env lib" and "s2s_Verify env lib raw v w = (Inl e, v', w')"
  shows "plain e"
proof -
  have wrapped: "plain (unauthenticatedWith r (Some err)) \<longleftrightarrow> plain err" "plain (unauthenticatedWith r None)"
    "plain forbiddenUnknownService" for r err
    by (simp_all add: plain_def as_validation_def unauthenticatedWith_def forbiddenUnknownService_def
        refusal_def WithMessage_def WithKind_def RichError_New_def WithErr_def AuthFailure_Unwrap_def
        RichError_Unwrap_def find_err_simps Let_def)
  have parse: "plain err"
    if "ParseWithClaims lib now opts raw' (cache_keyfunc (Lookup env)) c w0 = (Inl err, c', w1)"
    for now opts raw' c w0 err c' w1
  proof (cases "jl_Before lib opts raw'")
    case (Inl e0)
    with that assms(1) show ?thesis unfolding plain_libraries_def by (auto simp: ParseWithClaims_def)
  next
    case (Inr t)
    obtain k c2 w2 where k: "cache_keyfunc (Lookup env) t c w0 = (k, c2, w2)" by (metis surj_pair)
    then have "\<forall>e'. k = Inl e' \<longrightarrow> plain e'" using keyfunc_plain [OF assms(1)] by metis
    moreover have "jl_After lib (now w2) opts raw' k = Inl err"
      using that Inr k by (auto simp: ParseWithClaims_def)
    ultimately show ?thesis using assms(1) unfolding plain_libraries_def by metis
  qed
  show ?thesis
    using assms(2) wrapped parse
    by (auto simp: s2s_Verify_def s2s_accept_def Let_def
        split: option.splits if_splits prod.splits sum.splits)
qed

lemma service_refusal_away:
  assumes "plain_libraries env lib" and "s2s_Verify env lib raw v w = (Inl e, v', w')"
  shows "\<exists>st msg. turned_away e st msg \<and> msg \<in> {''unauthenticated service'', ''service not allowed''}"
proof -
  obtain re where re: "as_rich e = Some re"
    and cases: "RichError_Kind re = KindUnauthenticated \<and> RichError_Message re = ''unauthenticated service''
      \<or> RichError_Kind re = KindForbidden \<and> RichError_Message re = ''service not allowed''"
    using s2s_refusal_kinds [OF assms(2)] unauthenticatedWith_facts(2) forbidden_facts(2) by metis
  obtain r where r: "re = Some r" using cases by (cases re) auto
  have "app_error e r"
    using re r service_error_plain [OF assms] by (simp add: app_error_def plain_def)
  from turned_away_app [OF this] cases r show ?thesis by auto
qed

lemma service_turned_away:
  assumes "plain_libraries env lib" and "tv_Verify ver = service_verify env lib"
    and "echo_S2S service (Some ver) (RequireServiceScopes service scopes unreachable_handler) c (v, w)
      = Some (r, us, s')"
  shows "\<exists>e st msg. r = Some e \<and> turned_away e st msg
    \<and> msg \<in> {''unauthenticated service'', ''service not allowed'', ''forbidden''}"
proof -
  obtain q v' w' where ver: "service_verify env lib (bearer (er_Authorization c)) (v, w) = (q, (v', w'))"
    by (metis surj_pair)
  show ?thesis
  proof (cases q)
    case (Inl e)
    from service_verify_step [OF ver [unfolded Inl]]
    have "\<exists>st msg. turned_away e st msg \<and> msg \<in> {''unauthenticated service'', ''service not allowed''}"
      using service_refusal_away [OF assms(1)] by blast
    with assms(2,3) ver Inl show ?thesis by (auto simp: echo_S2S_def)
  next
    case (Inr i)
    with assms(2,3) ver have "r = Some (echo_forbidden ''security.echo.RequireServiceScopes'')"
      by (auto simp: echo_S2S_def recording_def RequireServiceScopes_def service_in_context
          unreachable_handler_def split: if_splits)
    with turned_away_forbidden show ?thesis by blast
  qed
qed

text \<open>The decision of the guard does not depend on the context of the request nor on the handler.\<close>

lemma refused_in_any_context:
  assumes "echo_S2S service (Some ver) (RequireServiceScopes service scopes unreachable_handler) rq s
      = Some (r, us, s')"
  shows "echo_S2S service (Some ver) (RequireServiceScopes service scopes next) (rq\<lparr>er_ctx := ctx\<rparr>) s
      = Some (r, us, s')"
  using assms
  by (auto simp: echo_S2S_def RequireServiceScopes_def service_in_context unreachable_handler_def
      recording_def Let_def split: prod.splits sum.splits if_splits)

text \<open>
  C13. A service that may not is told so and nothing else. When \<open>S2S(verifier)\<close> and \<open>RequireServiceScopes\<close> end a
  request without calling the handler, they do so whatever the handler is, and return an error that
  the error handler answers with 401 or 403 and one of three fixed messages, whatever the cause
  inside says; the request metrics record the same status.
\<close>

theorem refused_service_request:
  assumes "plain_libraries env lib" and "tv_Verify ver = service_verify env lib"
    and "echo_S2S service (Some ver) (RequireServiceScopes service scopes unreachable_handler) c (v, w)
      = Some (r, us, s')"
  shows "echo_S2S service (Some ver) (RequireServiceScopes service scopes next) c (v, w) = Some (r, us, s')
    \<and> (\<exists>e st msg. r = Some e \<and> error_response r = Some (st, ErrorBody msg []) \<and> st \<in> {401, 403}
        \<and> msg \<in> {''unauthenticated service'', ''service not allowed'', ''forbidden''}
        \<and> recorded_status r cur = st)"
  using service_turned_away [OF assms] refused_in_any_context [OF assms(3), of "next" "er_ctx c"]
  by (auto simp: turned_away_def)

lemma demo_plain: "plain_libraries demo_jwks (toy_lib tok)"
  by (auto simp: plain_libraries_def demo_jwks_def toy_lib_def plain_def as_validation_def find_err_simps
      split: if_splits sum.splits)

text \<open>A good token without the scope.\<close>

lemma demo_service_Verify: "tv_Verify demo_service_verifier = service_verify demo_jwks (toy_lib demo_s2s_token)"
  by (simp add: demo_service_verifier_def)

lemma demo_refused:
  "\<exists>us. echo_S2S ''svc'' (Some demo_service_verifier) (RequireServiceScopes ''svc'' [''admin''] unreachable_handler)
      (demo_echo_req toy_raw) (demo_s2s_verifier, 1)
    = Some (Some (echo_forbidden ''security.echo.RequireServiceScopes''), us, (demo_s2s_verifier, 1))"
proof -
  have tok: "trimBearer (bearer toy_raw) = trimBearer toy_raw" by code_simp
  have "s2s_Verify demo_jwks (toy_lib demo_s2s_token) (bearer toy_raw) (Some demo_s2s_verifier) 1
      = (Inr demo_identity, Some demo_s2s_verifier, 1)"
    using demo_s2s_verify by (simp add: s2s_Verify_def tok)
  then have "service_verify demo_jwks (toy_lib demo_s2s_token) (bearer toy_raw) (demo_s2s_verifier, 1)
      = (Inr demo_identity, (demo_s2s_verifier, 1))"
    by (simp add: service_verify_def)
  moreover have "\<not> HasAnyScope demo_identity [''admin'']" by (simp add: demo_identity_def HasScope_def)
  ultimately show ?thesis
    by (auto simp: echo_S2S_def demo_service_Verify demo_echo_req_def RequireServiceScopes_def
        service_in_context recording_def)
qed

theorem refused_service_request_witness:
  "\<exists>e us s'. echo_S2S ''svc'' (Some demo_service_verifier)
       (RequireServiceScopes ''svc'' [''admin''] demo_page) (demo_echo_req toy_raw) (demo_s2s_verifier, 1)
       = Some (Some e, us, s')
     \<and> (\<exists>st msg. error_response (Some e) = Some (st, ErrorBody msg []) \<and> st \<in> {401, 403})"
proof -
  obtain us where us: "echo_S2S ''svc'' (Some demo_service_verifier)
       (RequireServiceScopes ''svc'' [''admin''] unreachable_handler)
       (demo_echo_req toy_raw) (demo_s2s_verifier, 1)
     = Some (Some (echo_forbidden ''security.echo.RequireServiceScopes''), us, (demo_s2s_verifier, 1))"
    using demo_refused by blast
  from refused_service_request [OF demo_plain demo_service_Verify us, of demo_page 0] show ?thesis by auto
qed

section \<open>A refused service through the whole server\<close>





end
