(* ===== verification/Go_Net.thy ===== *)
theory Go_Net
  imports Go_Prelude "HOL-Library.Word"
begin

text \<open>
  What the sources use of Go's package \<open>net\<close>: \<open>SplitHostPort\<close>, \<open>ParseIP\<close>, \<open>IP.String\<close>,
  \<open>ParseCIDR\<close> and \<open>IPNet.Contains\<close>.

  An address is the list of its bytes, 16 from \<open>ParseIP\<close> (an IPv4 address after the prefix
  \<open>v4_prefix\<close>); errors are \<open>None\<close>. An address with a zone is invalid for these functions, and only a
  zone has a percent sign.
\<close>

unbundle bit_operations_syntax

section \<open>Hosts and ports\<close>

definition index_of :: "char \<Rightarrow> string \<Rightarrow> nat option" where
  "index_of c s = (if c \<in> set s then Some (length (takeWhile (\<lambda>d. d \<noteq> c) s)) else None)"

definition last_index :: "char \<Rightarrow> string \<Rightarrow> nat option" where
  "last_index c s =
     (case index_of c (rev s) of None \<Rightarrow> None | Some i \<Rightarrow> Some (length s - 1 - i))"

definition SplitHostPort :: "string \<Rightarrow> (string \<times> string) option" where
  "SplitHostPort s =
     (case last_index CHR '':'' s of
        None \<Rightarrow> None
      | Some i \<Rightarrow>
          if hd s = CHR ''['' then
            (case index_of CHR '']'' s of
               None \<Rightarrow> None
             | Some e \<Rightarrow>
                 if e + 1 \<noteq> i then None
                 else if CHR ''['' \<in> set (drop 1 s) \<or> CHR '']'' \<in> set (drop (e + 1) s) then None
                 else Some (take (e - 1) (drop 1 s), drop (i + 1) s))
          else if CHR '':'' \<in> set (take i s) then None
          else if CHR ''['' \<in> set s \<or> CHR '']'' \<in> set s then None
          else Some (take i s, drop (i + 1) s))"

section \<open>Addresses\<close>

type_synonym bytes = "8 word list"

definition v4_prefix :: bytes where
  "v4_prefix = replicate 10 0 @ [255, 255]"

definition octet :: "string \<Rightarrow> 8 word option" where
  "octet p =
     (if p = [] \<or> \<not> list_all is_digit p \<or> (length p > 1 \<and> hd p = CHR ''0'') \<or> digits_val p > 255
      then None else Some (word_of_int (digits_val p)))"

definition parse_octets :: "string \<Rightarrow> bytes option" where
  "parse_octets s =
     (let ps = split_on CHR ''.'' s
      in if length ps = 4 then those (map octet ps) else None)"

definition hex_value :: "char \<Rightarrow> nat option" where
  "hex_value c =
     (let n = of_char c
      in if 48 \<le> n \<and> n \<le> 57 then Some (n - 48)
         else if 97 \<le> n \<and> n \<le> 102 then Some (n - 87)
         else if 65 \<le> n \<and> n \<le> 70 then Some (n - 55)
         else None)"

definition is_hex :: "char \<Rightarrow> bool" where
  "is_hex c \<longleftrightarrow> hex_value c \<noteq> None"

definition hex_val :: "string \<Rightarrow> nat" where
  "hex_val s = foldl (\<lambda>a c. 16 * a + the (hex_value c)) 0 s"

definition two_bytes :: "nat \<Rightarrow> bytes" where
  "two_bytes n = [word_of_nat (n div 256), word_of_nat (n mod 256)]"

lemma drop_less: "c \<in> set s \<Longrightarrow> length (dropWhile p s) - Suc k < length s"
proof -
  assume "c \<in> set s"
  then have "0 < length s" by (cases s) auto
  moreover have "length (dropWhile p s) \<le> length s" by (rule length_dropWhile_le)
  ultimately show ?thesis by linarith
qed

text \<open>
  The loop over the groups of an IPv6 address: the bytes so far, where the ellipsis was, and the rest
  of the text. It returns the bytes and the ellipsis once the whole text is used.
\<close>

function v6_groups :: "bytes \<Rightarrow> nat option \<Rightarrow> string \<Rightarrow> (bytes \<times> nat option) option" where
  "v6_groups bs ell s =
     (if length bs \<ge> 16 then (if s = [] then Some (bs, ell) else None)
      else let g = takeWhile is_hex s; r = dropWhile is_hex s
           in if g = [] \<or> length g > 4 then None
              else if r \<noteq> [] \<and> hd r = CHR ''.'' then
                (if (ell = None \<and> length bs \<noteq> 12) \<or> length bs + 4 > 16 then None
                 else map_option (\<lambda>os. (bs @ os, ell)) (parse_octets s))
              else let bs = bs @ two_bytes (hex_val g)
                   in if r = [] then Some (bs, ell)
                      else if hd r \<noteq> CHR '':'' \<or> length r = 1 then None
                      else let r = tl r
                           in if hd r = CHR '':''
                              then if ell \<noteq> None then None
                                   else if tl r = [] then Some (bs, Some (length bs))
                                   else v6_groups bs (Some (length bs)) (tl r)
                              else v6_groups bs ell r)"
  by pat_completeness auto
termination
  by (relation "measure (\<lambda>(bs, ell, s). length s)") (auto simp: drop_less)

declare v6_groups.simps [simp del]

text \<open>The ellipsis stands for at least one group of zeros.\<close>

definition parse_v6 :: "string \<Rightarrow> bytes option" where
  "parse_v6 s =
     (case (if take 2 s = ''::'' then (if drop 2 s = [] then Some ([], Some 0) else v6_groups [] (Some 0) (drop 2 s))
            else v6_groups [] None s) of
        None \<Rightarrow> None
      | Some (bs, ell) \<Rightarrow>
          (case ell of
             None \<Rightarrow> if length bs = 16 then Some bs else None
           | Some e \<Rightarrow>
               if length bs < 16 then Some (take e bs @ replicate (16 - length bs) 0 @ drop e bs)
               else None))"

text \<open>\<open>parse_addr\<close> is \<open>netip.ParseAddr\<close>: whether the text is an IPv4 address, and the bytes.\<close>

definition parse_addr :: "string \<Rightarrow> (bool \<times> bytes) option" where
  "parse_addr s =
     (case dropWhile (\<lambda>c. c \<notin> {CHR ''.'', CHR '':'', CHR ''%''}) s of
        [] \<Rightarrow> None
      | c # cs \<Rightarrow>
          if c = CHR ''.'' then map_option (\<lambda>os. (True, v4_prefix @ os)) (parse_octets s)
          else if c = CHR '':'' \<and> CHR ''%'' \<notin> set s then map_option (\<lambda>bs. (False, bs)) (parse_v6 s)
          else None)"

definition ParseIP :: "string \<Rightarrow> bytes option" where
  "ParseIP s = map_option snd (parse_addr s)"

definition To4 :: "bytes \<Rightarrow> bytes option" where
  "To4 ip =
     (if length ip = 4 then Some ip
      else if length ip = 16 \<and> take 12 ip = v4_prefix then Some (drop 12 ip)
      else None)"

section \<open>Printing\<close>

definition hex_digit :: "nat \<Rightarrow> char" where
  "hex_digit n = ''0123456789abcdef'' ! n"

fun hex_nat :: "nat \<Rightarrow> string" where
  "hex_nat n = (if n < 16 then [hex_digit n] else hex_nat (n div 16) @ [hex_digit (n mod 16)])"

declare hex_nat.simps [simp del]

fun groups_of :: "bytes \<Rightarrow> nat list" where
  "groups_of (a # b # bs) = (256 * unat a + unat b) # groups_of bs"
| "groups_of _ = []"

definition zero_run :: "nat list \<Rightarrow> nat \<Rightarrow> nat" where
  "zero_run gs i = length (takeWhile (\<lambda>g. g = 0) (drop i gs))"

text \<open>The first of the longest runs of at least two groups of zeros: its start and its length.\<close>

definition best_run :: "nat list \<Rightarrow> (nat \<times> nat) option" where
  "best_run gs =
     foldl (\<lambda>best i.
        let l = zero_run gs i
        in if l \<ge> 2 \<and> (case best of None \<Rightarrow> True | Some (j, m) \<Rightarrow> l > m) then Some (i, l) else best)
      None [0..<length gs]"

definition v6_string :: "nat list \<Rightarrow> string" where
  "v6_string gs =
     (case best_run gs of
        None \<Rightarrow> join_with '':'' (map hex_nat gs)
      | Some (i, l) \<Rightarrow>
          join_with '':'' (map hex_nat (take i gs)) @ ''::'' @ join_with '':'' (map hex_nat (drop (i + l) gs)))"

definition IP_String :: "bytes \<Rightarrow> string" where
  "IP_String ip =
     (case To4 ip of
        Some os \<Rightarrow> join_with ''.'' (map (\<lambda>b. dec_nat (unat b)) os)
      | None \<Rightarrow> v6_string (groups_of ip))"

section \<open>Networks\<close>

record ip_net =
  in_IP :: bytes
  in_Mask :: bytes

definition CIDRMask :: "nat \<Rightarrow> nat \<Rightarrow> bytes" where
  "CIDRMask n len = map (\<lambda>i. NOT (drop_bit (min 8 (n - 8 * i)) 255)) [0..<len]"

definition IP_Mask :: "bytes \<Rightarrow> bytes \<Rightarrow> bytes" where
  "IP_Mask ip msk =
     (let ip = (if length msk = 4 \<and> length ip = 16 \<and> take 12 ip = v4_prefix then drop 12 ip else ip)
      in map2 (AND) ip msk)"

definition ParseCIDR :: "string \<Rightarrow> (bytes \<times> ip_net) option" where
  "ParseCIDR s =
     (case cut_at CHR ''/'' s of
        None \<Rightarrow> None
      | Some (addr, bits) \<Rightarrow>
          (case parse_addr addr of
             None \<Rightarrow> None
           | Some (is4, ip) \<Rightarrow>
               let len = (if is4 then 4 else 16)
               in if bits = [] \<or> \<not> list_all is_digit bits \<or> digits_val bits > int (8 * len) then None
                  else let m = CIDRMask (nat (digits_val bits)) len
                       in Some (ip, \<lparr>in_IP = IP_Mask ip m, in_Mask = m\<rparr>)))"

definition net_contains :: "ip_net \<Rightarrow> bytes \<Rightarrow> bool" where
  "net_contains n ip =
     (let nn = (case To4 (in_IP n) of Some x \<Rightarrow> x | None \<Rightarrow> in_IP n);
          m = (if length nn = 4 \<and> length (in_Mask n) = 16 then drop 12 (in_Mask n) else in_Mask n);
          x = (case To4 ip of Some x \<Rightarrow> x | None \<Rightarrow> ip)
      in length x = length nn \<and> map2 (AND) nn m = map2 (AND) x m)"

section \<open>Lengths and dotted addresses\<close>

lemma those_length: "those xs = Some ys \<Longrightarrow> length ys = length xs"
  by (induction xs arbitrary: ys) (auto split: option.splits)

lemma parse_octets_length: "parse_octets s = Some os \<Longrightarrow> length os = 4"
  by (auto simp: parse_octets_def Let_def dest: those_length split: if_splits)

lemma v4_prefix_length [simp]: "length v4_prefix = 12"
  by (simp add: v4_prefix_def)

lemma parse_v6_length: "parse_v6 s = Some bs \<Longrightarrow> length bs = 16"
  by (auto simp: parse_v6_def split: option.splits if_splits)

lemma ParseIP_length: "ParseIP s = Some ip \<Longrightarrow> length ip = 16"
  by (auto simp: ParseIP_def parse_addr_def parse_v6_length parse_octets_length
      split: list.splits if_splits)

lemma To4_16: "length ip = 16 \<Longrightarrow> To4 ip = Some os \<longleftrightarrow> ip = v4_prefix @ os"
  by (auto simp: To4_def) (metis append_take_drop_id)

lemma split_join:
  "ps \<noteq> [] \<Longrightarrow> \<forall>p\<in>set ps. d \<notin> set p \<Longrightarrow> split_on d (join_with [d] ps) = ps"
proof (induction ps rule: induct_list012)
  case (2 x)
  have "d \<notin> set x \<Longrightarrow> split_on d x = [x]" by (induction x) auto
  with 2 show ?case by simp
next
  case (3 x y ys)
  have "d \<notin> set x \<Longrightarrow> split_on d (x @ d # s) = x # split_on d s" for s by (induction x) auto
  with 3 show ?case by simp
qed simp

lemma dec_nat_no_zero: "0 < n \<Longrightarrow> hd (dec_nat n) \<noteq> CHR ''0''"
proof (induction n rule: dec_nat.induct)
  case (1 n)
  show ?case
  proof (cases "n < 10")
    case True
    have "char_of (48 + n) \<noteq> CHR ''0''"
    proof
      assume "char_of (48 + n) = CHR ''0''"
      with digit_of_char [OF True] have "digit_val CHR ''0'' = int n" by metis
      with \<open>0 < n\<close> show False by (simp add: digit_val_def)
    qed
    with True show ?thesis by (simp add: dec_nat.simps [of n])
  next
    case False
    with 1 have "hd (dec_nat (n div 10)) \<noteq> CHR ''0''" by simp
    with False show ?thesis by (simp add: dec_nat.simps [of n])
  qed
qed

lemma octet_dec_nat: "n < 256 \<Longrightarrow> octet (dec_nat n) = Some (word_of_nat n)"
proof -
  assume n: "n < 256"
  have "length (dec_nat n) > 1 \<Longrightarrow> 0 < n" by (cases n) (simp_all add: dec_nat.simps [of 0])
  then have "\<not> (length (dec_nat n) > 1 \<and> hd (dec_nat n) = CHR ''0'')" using dec_nat_no_zero by blast
  then show ?thesis using n by (simp add: octet_def dec_nat_digits)
qed

lemma octets_printed: "those (map octet (map (\<lambda>b. dec_nat (unat b)) os)) = Some os"
proof (induction os)
  case (Cons b os)
  have "unat b < 256" using unsigned_less [of b, where 'a = nat] by simp
  with Cons show ?case by (simp add: octet_dec_nat)
qed simp

lemma digit_not: "is_digit c \<Longrightarrow> c \<notin> {CHR ''.'', CHR '':'', CHR ''%'', CHR ''/''}"
  by (auto simp: is_digit_def)

definition dotted :: "bytes \<Rightarrow> string" where
  "dotted os = join_with ''.'' (map (\<lambda>b. dec_nat (unat b)) os)"

lemma dec_nat_chars: "c \<in> set (dec_nat n) \<Longrightarrow> is_digit c"
  using dec_nat_digits [of n] by (auto simp: list_all_iff)

lemma parse_octets_dotted: "length os = 4 \<Longrightarrow> parse_octets (dotted os) = Some os"
proof -
  assume len: "length os = 4"
  let ?ps = "map (\<lambda>b. dec_nat (unat b)) os"
  have "split_on CHR ''.'' (dotted os) = ?ps"
    unfolding dotted_def using len digit_not dec_nat_chars by (intro split_join) fastforce+
  then show ?thesis using len octets_printed [of os] by (simp add: parse_octets_def)
qed

lemma dotted_chars: "c \<in> set (dotted os) \<Longrightarrow> is_digit c \<or> c = CHR ''.''"
proof -
  have "c \<in> set (join_with ''.'' (map (\<lambda>b. dec_nat (unat b)) os)) \<Longrightarrow> is_digit c \<or> c = CHR ''.''"
    by (induction os rule: induct_list012) (auto dest: dec_nat_chars)
  then show "c \<in> set (dotted os) \<Longrightarrow> is_digit c \<or> c = CHR ''.''" by (simp add: dotted_def)
qed

lemma parse_addr_dotted: "length os = 4 \<Longrightarrow> parse_addr (dotted os) = Some (True, v4_prefix @ os)"
proof -
  assume len: "length os = 4"
  then obtain a b bs where os: "os = a # b # bs" by (auto simp: length_Suc_conv eval_nat_numeral)
  let ?P = "\<lambda>c. c \<notin> {CHR ''.'', CHR '':'', CHR ''%''}"
  have "\<forall>c\<in>set (dec_nat (unat a)). ?P c" using dec_nat_chars digit_not by blast
  then have "dropWhile ?P (dec_nat (unat a) @ ''.'' @ s) = ''.'' @ s" for s
    by (simp add: dropWhile_append2)
  then have "\<exists>s. dropWhile ?P (dotted os) = CHR ''.'' # s"
    by (simp add: dotted_def os)
  then show ?thesis using parse_octets_dotted [OF len] by (auto simp: parse_addr_def)
qed

end
