(* ===== verification/Client_IP.thy ===== *)
theory Client_IP
  imports Go_Net
begin

text \<open>
  \<open>security/proxy/proxy.go\<close>: the address of the client behind trusted proxies.

  A request is its remote address and its headers, each a name and its values.
\<close>

section \<open>Trusted proxies\<close>

definition proxy_itoa :: "int \<Rightarrow> string" where
  "proxy_itoa n = (if n = 32 then ''32'' else if n = 128 then ''128'' else ''0'')"

definition trusted_cidr :: "string \<Rightarrow> string" where
  "trusted_cidr raw =
     (if \<not> contains raw ''/'' then
        (case ParseIP raw of
           None \<Rightarrow> raw
         | Some ip \<Rightarrow>
             IP_String ip @ ''/'' @ proxy_itoa (if To4 ip = None then 128 else 32))
      else raw)"

fun Parse_trusted :: "string list \<Rightarrow> ip_net list" where
  "Parse_trusted [] = []"
| "Parse_trusted (r # rs) =
     (let raw = trim_space r
      in if raw = [] then Parse_trusted rs
         else case ParseCIDR (trusted_cidr raw) of
                None \<Rightarrow> Parse_trusted rs
              | Some (ip, n) \<Rightarrow> n # Parse_trusted rs)"

definition isTrusted :: "string \<Rightarrow> ip_net list \<Rightarrow> bool" where
  "isTrusted ip nets =
     (case ParseIP ip of None \<Rightarrow> False | Some parsed \<Rightarrow> list_ex (\<lambda>n. net_contains n parsed) nets)"

record ip_request =
  ir_RemoteAddr :: string
  ir_Header :: "(string \<times> string list) list"

definition peerIP :: "ip_request \<Rightarrow> string" where
  "peerIP r = (case SplitHostPort (ir_RemoteAddr r) of None \<Rightarrow> ir_RemoteAddr r | Some (host, port) \<Rightarrow> host)"

definition ip_header :: "ip_request \<Rightarrow> string \<Rightarrow> string" where
  "ip_header r k = (case map_of (ir_Header r) k of Some (v # vs) \<Rightarrow> v | _ \<Rightarrow> [])"

definition client_peer :: "ip_request \<Rightarrow> string" where
  "client_peer r = (let peer = peerIP r in if peer = [] then ''unknown'' else peer)"

definition ClientIP :: "ip_request \<Rightarrow> ip_net list \<Rightarrow> string" where
  "ClientIP r trusted =
     (let peer = client_peer r
      in if \<not> isTrusted peer trusted then peer
         else let xff = trim_space (ip_header r ''X-Forwarded-For'');
                  candidate = trim_space (hd (split_on CHR '','' xff));
                  xri = trim_space (ip_header r ''X-Real-Ip'')
              in if xff \<noteq> [] \<and> ParseIP candidate \<noteq> None then candidate
                 else if xri \<noteq> [] \<and> ParseIP xri \<noteq> None then xri
                 else peer)"

section \<open>Whom to trust\<close>

lemma full_mask: "CIDRMask 32 4 = [255, 255, 255, 255]"
  by code_simp

lemma and_full: "length os = 4 \<Longrightarrow> map2 (AND) os ([255, 255, 255, 255] :: bytes) = os"
proof -
  have full: "(255 :: 8 word) = - 1" by simp
  assume "length os = 4"
  then show ?thesis by (auto simp: length_Suc_conv eval_nat_numeral full)
qed

lemma cut_slash: "\<forall>c\<in>set s. c \<noteq> CHR ''/'' \<Longrightarrow> cut_at CHR ''/'' (s @ CHR ''/'' # t) = Some (s, t)"
  by (rule cut_at_append) auto

lemma exact_cidr:
  assumes "length os = 4"
  shows "ParseCIDR (dotted os @ ''/32'') = Some (v4_prefix @ os, \<lparr>in_IP = os, in_Mask = [255, 255, 255, 255]\<rparr>)"
proof -
  have "\<forall>c\<in>set (dotted os). c \<noteq> CHR ''/''" using dotted_chars digit_not by fastforce
  then have "cut_at CHR ''/'' (dotted os @ ''/32'') = Some (dotted os, ''32'')"
    using cut_slash by simp
  moreover have "digits_val ''32'' = 32" "list_all is_digit ''32''"
    by (simp_all add: digits_val_def digit_val_def is_digit_def)
  ultimately show ?thesis
    using assms by (simp add: ParseCIDR_def parse_addr_dotted Let_def full_mask IP_Mask_def and_full)
qed

lemma exact_contains:
  assumes "length os = 4" and "length ip = 16"
  shows "net_contains \<lparr>in_IP = os, in_Mask = [255, 255, 255, 255]\<rparr> ip \<longleftrightarrow> ip = v4_prefix @ os"
proof (cases "To4 ip")
  case None
  then have "ip \<noteq> v4_prefix @ os" using To4_16 [OF assms(2), of os] by simp
  moreover have "To4 os = Some os" using assms by (simp add: To4_def)
  ultimately show ?thesis using None assms by (simp add: net_contains_def Let_def)
next
  case (Some x)
  then have ip: "ip = v4_prefix @ x" using To4_16 [OF assms(2)] by simp
  then have "length x = 4" using assms(2) by simp
  moreover have "To4 os = Some os" using assms by (simp add: To4_def)
  ultimately show ?thesis
    using Some assms ip by (auto simp: net_contains_def Let_def and_full)
qed

text \<open>
  An entry that is a single IPv4 address (also one written as an IPv4-mapped IPv6 address) trusts
  exactly the peers with that address, however the peer's address is written.
\<close>

theorem exact_entry_trusts_one:
  assumes "trim_space entry = entry" and "entry \<noteq> []" and "\<not> contains entry ''/''"
    and "ParseIP entry = Some (v4_prefix @ os)"
  shows "isTrusted peer (Parse_trusted [entry]) \<longleftrightarrow> ParseIP peer = ParseIP entry"
proof -
  from ParseIP_length [OF assms(4)] have len: "length os = 4" by simp
  have "trusted_cidr entry = dotted os @ ''/32''"
    using assms(3,4) len by (simp add: trusted_cidr_def IP_String_def To4_def dotted_def proxy_itoa_def)
  then have "Parse_trusted [entry] = [\<lparr>in_IP = os, in_Mask = [255, 255, 255, 255]\<rparr>]"
    using assms(1,2) exact_cidr [OF len] by simp
  then show ?thesis
    using assms(4) exact_contains [OF len ParseIP_length]
    by (auto simp: isTrusted_def split: option.split)
qed

lemma demo_dec:
  "dec_nat 0 = ''0''" "dec_nat 1 = ''1''" "dec_nat 2 = ''2''" "dec_nat 3 = ''3''" "dec_nat 4 = ''4''"
  "dec_nat 9 = ''9''" "dec_nat 10 = ''10''" "dec_nat 113 = ''113''" "dec_nat 203 = ''203''"
  by code_simp+

lemma demo_dotted:
  "dotted [10, 0, 0, 2] = ''10.0.0.2''" "dotted [10, 0, 0, 3] = ''10.0.0.3''"
  "dotted [203, 0, 113, 9] = ''203.0.113.9''" "dotted [1, 2, 3, 4] = ''1.2.3.4''"
  using demo_dec by (simp_all add: dotted_def)

lemma ParseIP_dotted: "length os = 4 \<Longrightarrow> ParseIP (dotted os) = Some (v4_prefix @ os)"
  by (simp add: ParseIP_def parse_addr_dotted)

lemmas demo_addresses =
  ParseIP_dotted [of "[10, 0, 0, 2]", simplified demo_dotted, simplified]
  ParseIP_dotted [of "[10, 0, 0, 3]", simplified demo_dotted, simplified]
  ParseIP_dotted [of "[203, 0, 113, 9]", simplified demo_dotted, simplified]
  ParseIP_dotted [of "[1, 2, 3, 4]", simplified demo_dotted, simplified]

theorem exact_entry_trusts_one_witness:
  "isTrusted ''10.0.0.2'' (Parse_trusted [''10.0.0.2''])
    \<and> \<not> isTrusted ''10.0.0.3'' (Parse_trusted [''10.0.0.2''])"
proof -
  have e: "trim_space ''10.0.0.2'' = ''10.0.0.2''" "''10.0.0.2'' \<noteq> []" "\<not> contains ''10.0.0.2'' ''/''"
    by code_simp+
  show ?thesis using exact_entry_trusts_one [OF e demo_addresses(1)] demo_addresses by simp
qed

lemma client_peer_header: "client_peer (r\<lparr>ir_Header := h\<rparr>) = client_peer r"
proof -
  have "peerIP (r\<lparr>ir_Header := h\<rparr>) = peerIP r" by (simp add: peerIP_def split: option.split)
  then show ?thesis by (simp add: client_peer_def)
qed

text \<open>
  C36. A client that does not come through a trusted proxy cannot choose its address: the result is the
  peer's whatever headers it sends. Behind a trusted proxy the result is the first entry of
  \<open>X-Forwarded-For\<close>, or else \<open>X-Real-IP\<close>, and only if it is a valid address; or else the peer's.
\<close>

theorem client_address_source:
  "(\<not> isTrusted (client_peer r) nets \<longrightarrow> ClientIP (r\<lparr>ir_Header := h\<rparr>) nets = client_peer r)
   \<and> (ClientIP r nets \<noteq> client_peer r \<longrightarrow>
        isTrusted (client_peer r) nets \<and> ParseIP (ClientIP r nets) \<noteq> None
        \<and> ClientIP r nets \<in> {trim_space (hd (split_on CHR '','' (trim_space (ip_header r ''X-Forwarded-For'')))),
             trim_space (ip_header r ''X-Real-Ip'')})"
proof (intro conjI impI)
  assume "\<not> isTrusted (client_peer r) nets"
  then show "ClientIP (r\<lparr>ir_Header := h\<rparr>) nets = client_peer r"
    by (simp add: ClientIP_def client_peer_header)
qed (simp_all add: ClientIP_def Let_def split: if_splits)

lemma ten_net:
  "Parse_trusted [''10.0.0.0/8''] = [\<lparr>in_IP = [10, 0, 0, 0], in_Mask = [255, 0, 0, 0]\<rparr>]"
proof -
  have t: "trim_space ''10.0.0.0/8'' = ''10.0.0.0/8''" "contains ''10.0.0.0/8'' ''/''"
    "cut_at CHR ''/'' ''10.0.0.0/8'' = Some (''10.0.0.0'', ''8'')"
    "list_all is_digit ''8''" "digits_val ''8'' = 8"
    by code_simp+
  have "parse_addr ''10.0.0.0'' = Some (True, v4_prefix @ [10, 0, 0, 0])"
    using parse_addr_dotted [of "[10, 0, 0, 0]"] demo_dec by (simp add: dotted_def)
  moreover have "CIDRMask 8 4 = [255, 0, 0, 0]" by code_simp
  ultimately show ?thesis
    using t by (simp add: trusted_cidr_def ParseCIDR_def IP_Mask_def Let_def)
qed

lemma demo_trusted:
  "isTrusted ''10.0.0.2'' (Parse_trusted [''10.0.0.0/8''])"
  "\<not> isTrusted ''203.0.113.9'' (Parse_trusted [''10.0.0.0/8''])"
  unfolding ten_net by (simp_all add: isTrusted_def demo_addresses net_contains_def To4_def)

theorem client_address_source_witness:
  "ClientIP \<lparr>ir_RemoteAddr = ''203.0.113.9:1234'', ir_Header = [(''X-Forwarded-For'', [''10.0.0.1''])]\<rparr>
     (Parse_trusted [''10.0.0.0/8'']) = ''203.0.113.9''"
proof -
  let ?r = "\<lparr>ir_RemoteAddr = ''203.0.113.9:1234'', ir_Header = []\<rparr>"
  have "client_peer ?r = ''203.0.113.9''" by code_simp
  with demo_trusted(2)
    client_address_source [of ?r "Parse_trusted [''10.0.0.0/8'']" "[(''X-Forwarded-For'', [''10.0.0.1''])]"]
  show ?thesis by simp
qed

lemma strip_runes_stop:
  assumes "\<forall>r\<in>set rs. c \<notin> set r"
  shows "\<exists>x'. strip_runes rs (x @ c # y) = x' @ c # y"
proof (induction "length x" arbitrary: x rule: less_induct)
  case less
  let ?n = "rune_at rs (x @ c # y)"
  show ?case
  proof (cases "?n = 0")
    case True
    then show ?thesis by (auto simp: strip_runes_0)
  next
    case False
    have "rune_at ss (x @ c # y) \<le> length x" if "\<forall>r\<in>set ss. c \<notin> set r" for ss
      using that
    proof (induction ss)
      case (Cons r ss)
      have "length r \<le> length x" if p: "has_prefix (x @ c # y) r"
      proof (rule ccontr)
        assume "\<not> length r \<le> length x"
        moreover from p obtain t where "x @ c # y = r @ t" by (auto simp: has_prefix_iff)
        ultimately have "c \<in> set r" by (auto simp: append_eq_append_conv2 Cons_eq_append_conv)
        with Cons.prems show False by simp
      qed
      with Cons show ?case by simp
    qed simp
    with assms have n: "?n \<le> length x" by blast
    then have "drop ?n (x @ c # y) = drop ?n x @ c # y" by simp
    moreover have "length (drop ?n x) < length x" using False n by simp
    ultimately have "\<exists>x'. strip_runes rs (drop ?n (x @ c # y)) = x' @ c # y"
      using less [of "drop ?n x"] by simp
    with False show ?thesis by (simp add: strip_runes.simps [of rs "x @ c # y"])
  qed
qed

lemma trim_right_keeps: "plain_char c \<Longrightarrow> \<exists>t. trim_right (p @ c # s) = p @ c # t"
proof -
  assume "plain_char c"
  then have "\<forall>r\<in>set (map rev space_runes). c \<notin> set r" by (auto simp: plain_char_def)
  from strip_runes_stop [OF this, of "rev s" "rev p"] obtain x
    where "strip_runes (map rev space_runes) (rev s @ c # rev p) = x @ c # rev p" by blast
  then have "trim_right (p @ c # s) = p @ c # rev x" by (simp add: trim_right_def)
  then show ?thesis by blast
qed

text \<open>
  A proxy that appends the peer it saw to the header it was given does not protect the address: the
  first entry, which the client wrote, is the one that counts.
\<close>

theorem leftmost_entry_wins:
  "ClientIP \<lparr>ir_RemoteAddr = ''10.0.0.2:443'',
      ir_Header = [(''X-Forwarded-For'', [''1.2.3.4, '' @ seen])]\<rparr> (Parse_trusted [''10.0.0.0/8'']) = ''1.2.3.4''"
proof -
  let ?r = "\<lparr>ir_RemoteAddr = ''10.0.0.2:443'', ir_Header = [(''X-Forwarded-For'', [''1.2.3.4, '' @ seen])]\<rparr>"
  have host: "SplitHostPort ''10.0.0.2:443'' = Some (''10.0.0.2'', ''443'')" by code_simp
  then have peer: "client_peer ?r = ''10.0.0.2''" by (simp add: client_peer_def peerIP_def)
  have plain: "plain_char CHR ''1''" "plain_char CHR '',''" by code_simp+
  have "trim_left (''1.2.3.4, '' @ seen) = ''1.2.3.4, '' @ seen"
    using rune_at_plain [OF plain(1)] by (simp add: trim_left_def strip_runes_0)
  moreover obtain t where "trim_right (''1.2.3.4'' @ CHR '','' # '' '' @ seen) = ''1.2.3.4'' @ CHR '','' # t"
    using trim_right_keeps [OF plain(2)] by blast
  ultimately have "trim_space (''1.2.3.4, '' @ seen) = ''1.2.3.4'' @ CHR '','' # t"
    by (simp add: trim_space_def)
  moreover have "trim_space ''1.2.3.4'' = ''1.2.3.4''" by code_simp
  ultimately show ?thesis
    using peer demo_trusted(1) demo_addresses(4) by (simp add: ClientIP_def ip_header_def Let_def)
qed

end
