(* ===== verification/Transport_TLS.thy ===== *)
theory Transport_TLS
  imports Go_Net Go_Errors
begin

text \<open>
  \<open>security/transport/transport.go\<close>: TLS credentials for gRPC and the checks that refuse insecure
  settings in production.

  Certificate pools and key pairs are those of \<open>crypto/tls\<close> and \<open>crypto/x509\<close>, abstract types
  \<open>'p\<close> and \<open>'c\<close>; the record \<open>tls_env\<close> holds the calls that read files and certificates. \<open>quote\<close>
  is the verb \<open>%q\<close> of \<open>fmt\<close>, in a message only.
\<close>

section \<open>Credentials\<close>

record grpc_config =
  gc_TLS :: bool
  gc_Insecure :: bool
  gc_CAFile :: string
  gc_CertFile :: string
  gc_KeyFile :: string
  gc_ServerName :: string

record ('p, 'c) tls_env =
  tx_ReadFile :: "string \<Rightarrow> goerr + string"
  tx_SystemCertPool :: "'p option"       \<comment> \<open>\<open>None\<close>: an error, or a nil pool\<close>
  tx_NewCertPool :: 'p
  tx_AppendCerts :: "'p \<Rightarrow> string \<Rightarrow> 'p option"
  tx_LoadKeyPair :: "string \<Rightarrow> string \<Rightarrow> goerr + 'c"

record ('p, 'c) tls_config =
  tl_MinVersion :: nat
  tl_InsecureSkipVerify :: bool
  tl_ServerName :: string
  tl_RootCAs :: "'p option"
  tl_ClientCAs :: "'p option"
  tl_RequireClientCert :: bool
  tl_Certificates :: "'c list"

definition VersionTLS12 :: nat where
  "VersionTLS12 = 0x0303"

definition new_tls :: "bool \<Rightarrow> ('p, 'c) tls_config" where
  "new_tls skip =
     \<lparr>tl_MinVersion = VersionTLS12, tl_InsecureSkipVerify = skip, tl_ServerName = [],
      tl_RootCAs = None, tl_ClientCAs = None, tl_RequireClientCert = False, tl_Certificates = []\<rparr>"

datatype ('p, 'c) grpc_credentials = Plaintext | WithTLS "('p, 'c) tls_config"

text \<open>The pool of the system, or an empty one, with the certificates of a file.\<close>

definition ca_pool :: "('p, 'c) tls_env \<Rightarrow> string \<Rightarrow> 'p option" where
  "ca_pool env pem =
     tx_AppendCerts env (case tx_SystemCertPool env of Some p \<Rightarrow> p | None \<Rightarrow> tx_NewCertPool env) pem"

definition set_server_name :: "string \<Rightarrow> ('p, 'c) tls_config \<Rightarrow> ('p, 'c) tls_config" where
  "set_server_name name out =
     (let sn = trim_space name in if sn \<noteq> [] then out\<lparr>tl_ServerName := sn\<rparr> else out)"

definition load_ca ::
    "('p, 'c) tls_env \<Rightarrow> grpc_config \<Rightarrow> bool \<Rightarrow> ('p, 'c) tls_config \<Rightarrow> goerr + ('p, 'c) tls_config"
where
  "load_ca env cfg server out =
     (let ca = trim_space (gc_CAFile cfg)
      in if ca = [] then Inr out
         else case tx_ReadFile env ca of
                Inl err \<Rightarrow> Inl (EWrap ''grpc: read ca_file: '' err)
              | Inr pem \<Rightarrow>
                  (case ca_pool env pem of
                     None \<Rightarrow> Inl (EText ''grpc: failed to parse ca_file'')
                   | Some pool \<Rightarrow>
                       Inr (if server then out\<lparr>tl_ClientCAs := Some pool, tl_RequireClientCert := True\<rparr>
                            else out\<lparr>tl_RootCAs := Some pool\<rparr>)))"

definition load_certificate ::
    "('p, 'c) tls_env \<Rightarrow> grpc_config \<Rightarrow> ('p, 'c) tls_config \<Rightarrow> goerr + ('p, 'c) tls_config"
where
  "load_certificate env cfg out =
     (let certFile = trim_space (gc_CertFile cfg); keyFile = trim_space (gc_KeyFile cfg)
      in if certFile \<noteq> [] \<and> keyFile \<noteq> [] then
           (case tx_LoadKeyPair env certFile keyFile of
              Inl err \<Rightarrow> Inl (EWrap ''grpc: load key pair: '' err)
            | Inr cert \<Rightarrow> Inr (out\<lparr>tl_Certificates := [cert]\<rparr>))
         else Inr out)"

definition loadTLSConfig ::
    "('p, 'c) tls_env \<Rightarrow> grpc_config \<Rightarrow> bool \<Rightarrow> goerr + ('p, 'c) tls_config"
where
  "loadTLSConfig env cfg server =
     (case load_ca env cfg server (set_server_name (gc_ServerName cfg) (new_tls False)) of
        Inl err \<Rightarrow> Inl err
      | Inr out \<Rightarrow> load_certificate env cfg out)"

definition GRPCClientCredentials ::
    "('p, 'c) tls_env \<Rightarrow> grpc_config \<Rightarrow> bool \<Rightarrow> goerr + ('p, 'c) grpc_credentials"
where
  "GRPCClientCredentials env cfg production =
     (if production \<and> (gc_Insecure cfg \<or> \<not> gc_TLS cfg)
      then Inl (EText ''grpc: insecure transport is not allowed in production'')
      else if gc_Insecure cfg \<or> \<not> gc_TLS cfg then Inr Plaintext
      else map_sum id WithTLS (loadTLSConfig env cfg False))"

definition GRPCServerCredentials ::
    "('p, 'c) tls_env \<Rightarrow> grpc_config \<Rightarrow> bool \<Rightarrow> goerr + ('p, 'c) grpc_credentials"
where
  "GRPCServerCredentials env cfg production =
     (if production \<and> (gc_Insecure cfg \<or> \<not> gc_TLS cfg)
      then Inl (EText ''grpc: insecure server transport is not allowed in production'')
      else if gc_Insecure cfg \<or> \<not> gc_TLS cfg then Inr Plaintext
      else if trim_space (gc_CertFile cfg) = [] \<or> trim_space (gc_KeyFile cfg) = []
      then Inl (EText ''grpc: tls cert_file and key_file are required'')
      else map_sum id WithTLS (loadTLSConfig env cfg True))"

text \<open>A dial option is its credentials.\<close>

definition GRPCDialOption ::
    "('p, 'c) tls_env \<Rightarrow> grpc_config \<Rightarrow> bool \<Rightarrow> goerr + ('p, 'c) grpc_credentials"
where
  "GRPCDialOption env cfg production =
     (case GRPCClientCredentials env cfg production of Inl err \<Rightarrow> Inl err | Inr creds \<Rightarrow> Inr creds)"

definition ClientDialOption ::
    "('p, 'c) tls_env \<Rightarrow> bool \<Rightarrow> bool \<Rightarrow> string \<Rightarrow> string \<Rightarrow> bool \<Rightarrow> goerr + ('p, 'c) grpc_credentials"
where
  "ClientDialOption env tlsEnabled insec caFile serverName production =
     GRPCDialOption env
       \<lparr>gc_TLS = tlsEnabled, gc_Insecure = insec, gc_CAFile = caFile, gc_CertFile = [],
        gc_KeyFile = [], gc_ServerName = serverName\<rparr> production"

definition clientTLSConfig ::
    "('p, 'c) tls_env \<Rightarrow> string \<Rightarrow> string \<Rightarrow> bool \<Rightarrow> goerr + ('p, 'c) tls_config"
where
  "clientTLSConfig env caFile serverName skip =
     (let out = set_server_name serverName (new_tls skip); ca = trim_space caFile
      in if ca = [] then Inr out
         else case tx_ReadFile env ca of
                Inl err \<Rightarrow> Inl err
              | Inr pem \<Rightarrow>
                  (case ca_pool env pem of
                     None \<Rightarrow> Inl (EText ''tls: failed to parse ca_file'')
                   | Some pool \<Rightarrow> Inr (out\<lparr>tl_RootCAs := Some pool\<rparr>)))"

definition ClientTLSConfig ::
    "('p, 'c) tls_env \<Rightarrow> string \<Rightarrow> string \<Rightarrow> bool \<Rightarrow> goerr + ('p, 'c) tls_config"
where
  "ClientTLSConfig env caFile serverName skip =
     (if skip then Inl (EText ''tls: InsecureSkipVerify callers must use ClientTLSConfigDev'')
      else clientTLSConfig env caFile serverName False)"

definition ClientTLSConfigDev ::
    "('p, 'c) tls_env \<Rightarrow> string \<Rightarrow> string \<Rightarrow> bool \<Rightarrow> goerr + ('p, 'c) tls_config"
where
  "ClientTLSConfigDev env caFile serverName skip = clientTLSConfig env caFile serverName skip"

section \<open>Checks of production settings\<close>

definition AMQPScheme :: "bool \<Rightarrow> string" where
  "AMQPScheme tlsEnabled = (if tlsEnabled then ''amqps'' else ''amqp'')"

definition RejectInsecureAMQP :: "bool \<Rightarrow> bool \<Rightarrow> goerr option" where
  "RejectInsecureAMQP tlsEnabled production =
     (if production \<and> \<not> tlsEnabled
      then Some (EText ''rabbitmq: tls (amqps) is required in production'') else None)"

definition RejectInsecurePostgres :: "string \<Rightarrow> bool \<Rightarrow> goerr option" where
  "RejectInsecurePostgres ssl production =
     (if \<not> production then None
      else let s = to_lower (trim_space ssl)
           in if s = [] \<or> s = ''disable''
              then Some (EText ''postgres: sslmode disable is not allowed in production'') else None)"

definition RejectInsecureSkipVerify :: "bool \<Rightarrow> bool \<Rightarrow> goerr option" where
  "RejectInsecureSkipVerify skip production =
     (if production \<and> skip
      then Some (EText ''tls: InsecureSkipVerify is not allowed in production'') else None)"

text \<open>\<open>strings.Trim(h, "[]")\<close>\<close>

definition trim_brackets :: "string \<Rightarrow> string" where
  "trim_brackets h =
     (let p = (\<lambda>c. c = CHR ''['' \<or> c = CHR '']'')
      in rev (dropWhile p (rev (dropWhile p h))))"

definition AllowLoopbackSidecar :: "string \<Rightarrow> bool" where
  "AllowLoopbackSidecar host =
     (let h = trim_brackets (to_lower (trim_space host))
      in h \<in> {[], ''localhost'', ''127.0.0.1'', ''::1''})"

definition RejectInsecureRedis :: "bool \<Rightarrow> bool \<Rightarrow> string \<Rightarrow> goerr option" where
  "RejectInsecureRedis tlsEnabled production host =
     (if \<not> production then None
      else if AllowLoopbackSidecar host then None
      else if \<not> tlsEnabled
      then Some (EText ''redis: tls is required in production unless the endpoint is a local sidecar'')
      else None)"

definition splitHostPort :: "string \<Rightarrow> (string \<times> string) option" where
  "splitHostPort hostport =
     (if \<not> contains hostport '':'' then Some (hostport, []) else SplitHostPort hostport)"

definition strip_scheme :: "string \<Rightarrow> string" where
  "strip_scheme raw =
     (if has_prefix (to_lower raw) ''https://'' then drop 8 raw
      else if has_prefix (to_lower raw) ''http://'' then drop 7 raw
      else raw)"

definition hostFromURL :: "string \<Rightarrow> string" where
  "hostFromURL raw =
     (let without = takeWhile (\<lambda>c. c \<noteq> CHR ''/'' \<and> c \<noteq> CHR ''?'') (strip_scheme raw)
      in case splitHostPort without of None \<Rightarrow> without | Some (host, port) \<Rightarrow> host)"

definition RejectInsecureHTTPURL :: "(string \<Rightarrow> string) \<Rightarrow> string \<Rightarrow> bool \<Rightarrow> goerr option" where
  "RejectInsecureHTTPURL quote raw production =
     (if \<not> production then None
      else let u = trim_space raw
           in if u = [] then Some (EText ''http: endpoint is required in production'')
              else let lower = to_lower u
                   in if has_prefix lower ''https://'' then None
                      else if has_prefix lower ''http://'' then
                        (let host = hostFromURL u
                         in if AllowLoopbackSidecar host then None
                            else Some (EText (''http: plaintext endpoint '' @ quote host
                                              @ '' is not allowed in production'')))
                      else Some (EText ''http: endpoint must be https in production''))"

definition RejectPublicPprof :: "bool \<Rightarrow> bool \<Rightarrow> string \<Rightarrow> goerr option" where
  "RejectPublicPprof enabled production bind =
     (if \<not> enabled then None
      else if \<not> production then None
      else let b = trim_space bind
           in if b = [] \<or> b = ''0.0.0.0'' \<or> b = ''::'' \<or> has_prefix b '':''
              then Some (EText ''pprof: public bind is not allowed in production (disable or bind 127.0.0.1)'')
              else if has_prefix b ''127.0.0.1'' \<or> has_prefix b ''localhost'' then None
              else Some (EText ''pprof: must bind loopback in production''))"

section \<open>Production\<close>

text \<open>
  The pool \<open>p\<close> trusts the authorities of the file \<open>f\<close>: it is the system's pool, or an empty one if there is
  none, to which the certificates in the file have been appended.
\<close>

definition trusts_file :: "('p, 'c) tls_env \<Rightarrow> string \<Rightarrow> 'p \<Rightarrow> bool" where
  "trusts_file env f p \<longleftrightarrow>
     (\<exists>pem. tx_ReadFile env f = Inr pem
       \<and> tx_AppendCerts env (case tx_SystemCertPool env of Some q \<Rightarrow> q | None \<Rightarrow> tx_NewCertPool env) pem = Some p)"

lemma loadTLS_Inr:
  assumes "loadTLSConfig env cfg server = Inr out"
  shows "tl_MinVersion out = VersionTLS12 \<and> \<not> tl_InsecureSkipVerify out
    \<and> (trim_space (gc_CAFile cfg) \<noteq> [] \<longrightarrow>
         (if server
          then tl_RequireClientCert out
               \<and> (\<exists>p. tl_ClientCAs out = Some p \<and> trusts_file env (trim_space (gc_CAFile cfg)) p)
          else \<exists>p. tl_RootCAs out = Some p \<and> trusts_file env (trim_space (gc_CAFile cfg)) p))
    \<and> (trim_space (gc_CertFile cfg) \<noteq> [] \<and> trim_space (gc_KeyFile cfg) \<noteq> [] \<longrightarrow>
         (\<exists>cert. tx_LoadKeyPair env (trim_space (gc_CertFile cfg)) (trim_space (gc_KeyFile cfg)) = Inr cert
            \<and> tl_Certificates out = [cert]))"
proof -
  from assms obtain mid where
    ca: "load_ca env cfg server (set_server_name (gc_ServerName cfg) (new_tls False)) = Inr mid"
    and cert: "load_certificate env cfg mid = Inr out"
    by (auto simp: loadTLSConfig_def split: sum.splits)
  have "tl_MinVersion mid = VersionTLS12 \<and> \<not> tl_InsecureSkipVerify mid"
    using ca by (auto simp: load_ca_def set_server_name_def new_tls_def Let_def
        split: if_splits sum.splits option.splits)
  moreover have "trim_space (gc_CAFile cfg) \<noteq> [] \<longrightarrow>
      (if server
       then tl_RequireClientCert mid
            \<and> (\<exists>p. tl_ClientCAs mid = Some p \<and> trusts_file env (trim_space (gc_CAFile cfg)) p)
       else \<exists>p. tl_RootCAs mid = Some p \<and> trusts_file env (trim_space (gc_CAFile cfg)) p)"
    using ca by (auto simp: load_ca_def ca_pool_def trusts_file_def Let_def
        split: if_splits sum.splits option.splits)
  ultimately show ?thesis
    using cert by (auto simp: load_certificate_def Let_def split: if_splits sum.splits)
qed

text \<open>
  C35. In production no gRPC connection is in plaintext, whatever the configuration. A server that gets
  credentials at all gets TLS of version 1.2 or later without a switch-off of certificate checks, with the
  certificate of its configured files, and where a CA file is configured it requires client certificates and
  checks them against the authorities of that file (added to those of the system). A client that gets
  credentials gets TLS in the same way, and trusts the authorities of its CA file (added to the system's).
\<close>

theorem production_credentials_are_tls:
  "(GRPCServerCredentials env cfg True = Inr s \<longrightarrow>
     (\<exists>t cert. s = WithTLS t \<and> tl_MinVersion t = VersionTLS12 \<and> \<not> tl_InsecureSkipVerify t
        \<and> tx_LoadKeyPair env (trim_space (gc_CertFile cfg)) (trim_space (gc_KeyFile cfg)) = Inr cert
        \<and> tl_Certificates t = [cert]
        \<and> (trim_space (gc_CAFile cfg) \<noteq> [] \<longrightarrow> tl_RequireClientCert t
             \<and> (\<exists>p. tl_ClientCAs t = Some p \<and> trusts_file env (trim_space (gc_CAFile cfg)) p))))
   \<and> (GRPCDialOption env cfg True = Inr d \<longrightarrow>
     (\<exists>t. d = WithTLS t \<and> tl_MinVersion t = VersionTLS12 \<and> \<not> tl_InsecureSkipVerify t
        \<and> (trim_space (gc_CAFile cfg) \<noteq> [] \<longrightarrow>
             (\<exists>p. tl_RootCAs t = Some p \<and> trusts_file env (trim_space (gc_CAFile cfg)) p))))"
proof (intro conjI impI)
  assume "GRPCServerCredentials env cfg True = Inr s"
  then obtain t where "s = WithTLS t" "loadTLSConfig env cfg True = Inr t"
    "trim_space (gc_CertFile cfg) \<noteq> []" "trim_space (gc_KeyFile cfg) \<noteq> []"
    by (cases "loadTLSConfig env cfg True") (auto simp: GRPCServerCredentials_def split: if_splits)
  with loadTLS_Inr [of env cfg True t] show
    "\<exists>t cert. s = WithTLS t \<and> tl_MinVersion t = VersionTLS12 \<and> \<not> tl_InsecureSkipVerify t
        \<and> tx_LoadKeyPair env (trim_space (gc_CertFile cfg)) (trim_space (gc_KeyFile cfg)) = Inr cert
        \<and> tl_Certificates t = [cert]
        \<and> (trim_space (gc_CAFile cfg) \<noteq> [] \<longrightarrow> tl_RequireClientCert t
             \<and> (\<exists>p. tl_ClientCAs t = Some p \<and> trusts_file env (trim_space (gc_CAFile cfg)) p))"
    by auto
next
  assume "GRPCDialOption env cfg True = Inr d"
  then obtain t where "d = WithTLS t" "loadTLSConfig env cfg False = Inr t"
    by (cases "loadTLSConfig env cfg False")
      (auto simp: GRPCDialOption_def GRPCClientCredentials_def split: if_splits)
  with loadTLS_Inr [of env cfg False t] show
    "\<exists>t. d = WithTLS t \<and> tl_MinVersion t = VersionTLS12 \<and> \<not> tl_InsecureSkipVerify t
        \<and> (trim_space (gc_CAFile cfg) \<noteq> [] \<longrightarrow>
             (\<exists>p. tl_RootCAs t = Some p \<and> trusts_file env (trim_space (gc_CAFile cfg)) p))"
    by simp
qed

definition demo_tls_env :: "(string list, string \<times> string) tls_env" where
  "demo_tls_env =
     \<lparr>tx_ReadFile = (\<lambda>f. if f = ''ca.pem'' then Inr ''authority'' else Inl (EText ''no such file'')),
      tx_SystemCertPool = None, tx_NewCertPool = [],
      tx_AppendCerts = (\<lambda>p pem. Some (p @ [pem])),
      tx_LoadKeyPair = (\<lambda>c k. Inr (c, k))\<rparr>"

definition demo_tls_cfg :: grpc_config where
  "demo_tls_cfg =
     \<lparr>gc_TLS = True, gc_Insecure = False, gc_CAFile = ''ca.pem'', gc_CertFile = ''c'', gc_KeyFile = ''k'',
      gc_ServerName = []\<rparr>"

theorem production_credentials_are_tls_witness:
  "\<exists>ts td. GRPCServerCredentials demo_tls_env demo_tls_cfg True = Inr (WithTLS ts)
    \<and> GRPCDialOption demo_tls_env demo_tls_cfg True = Inr (WithTLS td)
    \<and> tl_Certificates ts = [(''c'', ''k'')] \<and> tl_RequireClientCert ts
    \<and> tl_ClientCAs ts = Some [''authority''] \<and> tl_RootCAs td = Some [''authority'']"
proof -
  have t: "trim_space ''ca.pem'' = ''ca.pem''" "trim_space ''c'' = ''c''" "trim_space ''k'' = ''k''"
    by code_simp+
  note defs = demo_tls_env_def demo_tls_cfg_def loadTLSConfig_def load_ca_def load_certificate_def
    set_server_name_def ca_pool_def
  obtain s where s: "GRPCServerCredentials demo_tls_env demo_tls_cfg True = Inr s"
    using t by (simp add: GRPCServerCredentials_def defs Let_def)
  obtain d where d: "GRPCDialOption demo_tls_env demo_tls_cfg True = Inr d"
    using t by (simp add: GRPCDialOption_def GRPCClientCredentials_def defs Let_def)
  have cfg: "gc_CAFile demo_tls_cfg = ''ca.pem''" "gc_CertFile demo_tls_cfg = ''c''" "gc_KeyFile demo_tls_cfg = ''k''"
    by (simp_all add: demo_tls_cfg_def)
  have env: "trusts_file demo_tls_env ''ca.pem'' p \<longleftrightarrow> p = [''authority'']"
    "tx_LoadKeyPair demo_tls_env ''c'' ''k'' = Inr (''c'', ''k'')" for p
    by (auto simp: trusts_file_def demo_tls_env_def)
  show ?thesis
    using production_credentials_are_tls [of demo_tls_env demo_tls_cfg s d] s d
    unfolding cfg t env by auto
qed

lemma to_lower_http: "to_lower (''http://'' @ s) = ''http://'' @ to_lower s"
  by (simp add: to_lower_def ascii_lower_def)

lemma index_of_append: "c \<notin> set a \<Longrightarrow> index_of c (a @ c # b) = Some (length a)"
proof -
  assume "c \<notin> set a"
  then have "takeWhile (\<lambda>d. d \<noteq> c) (a @ c # b) = a" by (subst takeWhile_append2) auto
  then show ?thesis by (simp add: index_of_def)
qed

lemma last_index_append: "c \<notin> set b \<Longrightarrow> last_index c (a @ c # b) = Some (length a)"
  using index_of_append [of c "rev b" "rev a"] by (simp add: last_index_def)

lemma split_host_port:
  assumes "set host \<inter> {CHR '':'', CHR ''['', CHR '']''} = {}"
    and "set port \<inter> {CHR '':'', CHR ''['', CHR '']''} = {}"
  shows "SplitHostPort (host @ CHR '':'' # port) = Some (host, port)"
proof -
  have "hd (host @ CHR '':'' # port) \<noteq> CHR ''[''"
    using assms(1) by (cases host) auto
  then show ?thesis using assms last_index_append [of "CHR '':''" port host]
    by (auto simp: SplitHostPort_def)
qed

lemma plain_host:
  assumes "set host \<inter> {CHR ''/'', CHR ''?'', CHR '':'', CHR ''['', CHR '']''} = {}"
    and "list_all is_digit port"
  shows "hostFromURL (''http://'' @ host @ '':'' @ port @ ''/'' @ path) = host"
proof -
  let ?rest = "host @ CHR '':'' # port @ CHR ''/'' # path"
  have dig: "set port \<inter> {CHR ''/'', CHR ''?'', CHR '':'', CHR ''['', CHR '']''} = {}"
    using assms(2) by (auto simp: list_all_iff is_digit_def)
  have "strip_scheme (''http://'' @ ?rest) = ?rest"
    unfolding strip_scheme_def to_lower_http by simp
  moreover have "takeWhile (\<lambda>c. c \<noteq> CHR ''/'' \<and> c \<noteq> CHR ''?'') ?rest = host @ CHR '':'' # port"
    using assms(1) dig by (auto simp: takeWhile_append)
  moreover have "SplitHostPort (host @ CHR '':'' # port) = Some (host, port)"
    using assms(1) dig by (intro split_host_port) auto
  moreover have "contains (host @ CHR '':'' # port) '':''"
    by (auto simp: contains_iff)
  ultimately show ?thesis by (simp add: hostFromURL_def splitHostPort_def)
qed

text \<open>
  In production a plaintext URL \<open>http://host:port/path\<close> with a decimal port is accepted exactly when
  the host is a loopback name or empty.
\<close>

theorem plaintext_url_only_to_loopback:
  assumes "raw = ''http://'' @ host @ '':'' @ port @ ''/'' @ path" and "trim_space raw = raw"
    and "set host \<inter> {CHR ''/'', CHR ''?'', CHR '':'', CHR ''['', CHR '']''} = {}"
    and "list_all is_digit port"
  shows "RejectInsecureHTTPURL quote raw True = None \<longleftrightarrow> AllowLoopbackSidecar host"
proof -
  have "to_lower raw = ''http://'' @ to_lower (host @ '':'' @ port @ ''/'' @ path)"
    unfolding assms(1) by (rule to_lower_http)
  moreover have "hostFromURL raw = host" unfolding assms(1) by (rule plain_host [OF assms(3,4)])
  moreover have "raw \<noteq> []" using assms(1) by simp
  ultimately show ?thesis
    unfolding RejectInsecureHTTPURL_def assms(2) by (simp add: Let_def)
qed

theorem plaintext_url_only_to_loopback_witness:
  "RejectInsecureHTTPURL (\<lambda>h. h) ''http://localhost:80/x'' True = None
   \<and> RejectInsecureHTTPURL (\<lambda>h. h) ''http://wallet:80/x'' True \<noteq> None"
proof -
  have t: "trim_space ''http://localhost:80/x'' = ''http://localhost:80/x''"
    "trim_space ''http://wallet:80/x'' = ''http://wallet:80/x''"
    "AllowLoopbackSidecar ''localhost''" "\<not> AllowLoopbackSidecar ''wallet''" "is_digit CHR ''8''" "is_digit CHR ''0''"
    by code_simp+
  have "RejectInsecureHTTPURL (\<lambda>h. h) ''http://localhost:80/x'' True = None \<longleftrightarrow> AllowLoopbackSidecar ''localhost''"
    by (rule plaintext_url_only_to_loopback [where port = "''80''" and path = "''x''"]) (use t in simp_all)
  moreover have "RejectInsecureHTTPURL (\<lambda>h. h) ''http://wallet:80/x'' True = None \<longleftrightarrow> AllowLoopbackSidecar ''wallet''"
    by (rule plaintext_url_only_to_loopback [where port = "''80''" and path = "''x''"]) (use t in simp_all)
  ultimately show ?thesis using t by simp
qed

text \<open>
  Three settings that are not secure pass the production checks: a plaintext URL whose user
  information looks like a loopback host and a port, PostgreSQL's mode \<open>prefer\<close>, which falls back to
  plaintext, and a pprof address on a public host whose name begins with \<open>localhost\<close>.
\<close>

theorem insecure_settings_pass:
  "RejectInsecureHTTPURL quote ''http://localhost:x@example.com/pay'' True = None
   \<and> RejectInsecurePostgres ''prefer'' True = None
   \<and> RejectPublicPprof True True ''localhost.example.com:6060'' = None"
proof -
  have "trim_space ''http://localhost:x@example.com/pay'' = ''http://localhost:x@example.com/pay''"
    "\<not> has_prefix (to_lower ''http://localhost:x@example.com/pay'') ''https://''"
    "has_prefix (to_lower ''http://localhost:x@example.com/pay'') ''http://''"
    "AllowLoopbackSidecar (hostFromURL ''http://localhost:x@example.com/pay'')"
    by code_simp+
  moreover have "RejectInsecurePostgres ''prefer'' True = None"
    "RejectPublicPprof True True ''localhost.example.com:6060'' = None"
    by code_simp+
  ultimately show ?thesis by (simp add: RejectInsecureHTTPURL_def Let_def)
qed

end
