(* ===== verification/Outcome.thy ===== *)
theory Outcome
  imports Go_Errors
begin

text \<open>
  \<open>security/outcome/outcome.go\<close>: whether the result of a remote call is known. The error type is the
  constructor \<open>EOutcome\<close> of \<open>Go_Errors\<close>, whose kind is kept as its text.
\<close>

section \<open>Classification\<close>

datatype outcome_kind = Success | DefiniteFailure | Ambiguous

fun kind_text :: "outcome_kind \<Rightarrow> string" where
  "kind_text Success = ''success''"
| "kind_text DefiniteFailure = ''definite_failure''"
| "kind_text Ambiguous = ''ambiguous_outcome''"

definition outcome_kind_of :: "outcome_error option \<Rightarrow> string" where
  "outcome_kind_of e = (case e of None \<Rightarrow> kind_text Success | Some e \<Rightarrow> oe_Kind e)"

definition OutcomeError_Error :: "outcome_error option \<Rightarrow> string" where
  "OutcomeError_Error e =
     (case e of
        None \<Rightarrow> outcome_kind_of e
      | Some oe \<Rightarrow> (case oe_Err oe of None \<Rightarrow> outcome_kind_of e | Some err \<Rightarrow> err_text err))"

definition isDefiniteLocal :: "goerr \<Rightarrow> bool" where
  "isDefiniteLocal err =
     (let msg = err_text err in contains msg ''marshal'' \<or> contains msg ''build request'')"

definition ClassifyHTTP :: "int \<Rightarrow> goerr option \<Rightarrow> outcome_kind" where
  "ClassifyHTTP status transportErr =
     (case transportErr of
        Some e \<Rightarrow> if isDefiniteLocal e then DefiniteFailure else Ambiguous
      | None \<Rightarrow>
          if status \<ge> 200 \<and> status < 300 then Success
          else if status = 408 \<or> status = 429 \<or> status = 409 then Ambiguous
          else if status \<ge> 500 \<or> status = 0 then Ambiguous
          else if status \<ge> 400 then DefiniteFailure
          else Ambiguous)"

definition ambiguous_words :: "string list" where
  "ambiguous_words =
     [''timeout'', ''deadline'', ''connection reset'', ''eof'', ''broken pipe'', ''connection refused'',
      ''outcome unknown'']"

text \<open>The outer \<open>None\<close> is the panic on a nil \<open>*Error\<close> in the chain.\<close>

definition IsAmbiguous :: "goerr option \<Rightarrow> bool option" where
  "IsAmbiguous err =
     (case err of
        None \<Rightarrow> Some False
      | Some e \<Rightarrow>
          (case as_outcome e of
             Some None \<Rightarrow> None
           | Some (Some oe) \<Rightarrow> Some (oe_Kind oe = kind_text Ambiguous)
           | None \<Rightarrow>
               Some (as_net e \<noteq> None
                     \<or> list_ex (contains (to_lower (err_text e))) ambiguous_words)))"

definition outcome_Wrap :: "outcome_kind \<Rightarrow> int \<Rightarrow> goerr option \<Rightarrow> goerr option" where
  "outcome_Wrap kind status err =
     (case err of
        None \<Rightarrow> None
      | Some e \<Rightarrow> Some (EOutcome (Some (OutcomeError (kind_text kind) status (Some e)))))"

section \<open>Known and unknown outcomes\<close>

lemma OutcomeError_text: "err_text (EOutcome e) = OutcomeError_Error e"
  by (cases e; cases "the e") (auto simp: OutcomeError_Error_def outcome_kind_of_def split: option.split)

text \<open>
  A remote result is treated as a failure the remote side has decided on only for a status in the
  400s other than 408, 409 and 429, or for an error whose text says that the request was never sent;
  and the classification of a call survives wrapping: \<open>IsAmbiguous\<close> of an error wrapped with its
  class, even inside further \<open>fmt.Errorf\<close> wrappers, is exactly whether the class is \<open>Ambiguous\<close>.
\<close>

theorem outcome_classification:
  "(ClassifyHTTP status terr = DefiniteFailure \<longleftrightarrow>
      (case terr of
         Some e \<Rightarrow> isDefiniteLocal e
       | None \<Rightarrow> 400 \<le> status \<and> status < 500 \<and> status \<notin> {408, 409, 429}))
   \<and> (ClassifyHTTP status terr = Success \<longleftrightarrow> terr = None \<and> 200 \<le> status \<and> status < 300)
   \<and> IsAmbiguous (map_option (EWrap p) (outcome_Wrap (ClassifyHTTP status terr) status (Some e)))
       = Some (ClassifyHTTP status terr = Ambiguous)"
proof (intro conjI)
  show "ClassifyHTTP status terr = DefiniteFailure \<longleftrightarrow>
      (case terr of
         Some e \<Rightarrow> isDefiniteLocal e
       | None \<Rightarrow> 400 \<le> status \<and> status < 500 \<and> status \<notin> {408, 409, 429})"
    by (auto simp: ClassifyHTTP_def split: option.split)
  show "ClassifyHTTP status terr = Success \<longleftrightarrow> terr = None \<and> 200 \<le> status \<and> status < 300"
    by (auto simp: ClassifyHTTP_def split: option.split)
  have "as_outcome (EWrap p (EOutcome x)) = Some x" for x
    unfolding as_outcome_def by (simp add: find_err_next find_err_here)
  moreover have "kind_text k = kind_text Ambiguous \<longleftrightarrow> k = Ambiguous" for k
    by (cases k) simp_all
  ultimately show "IsAmbiguous (map_option (EWrap p)
      (outcome_Wrap (ClassifyHTTP status terr) status (Some e)))
       = Some (ClassifyHTTP status terr = Ambiguous)"
    by (simp add: IsAmbiguous_def outcome_Wrap_def)
qed

text \<open>
  A response that could not be decoded counts as a definite failure, although the remote side may
  have done the work: the texts of \<open>json.Unmarshal\<close> errors contain the word the local check looks
  for.
\<close>

theorem undecodable_response_is_definite:
  "ClassifyHTTP 200 (Some (EWrap ''decode response: ''
      (EText ''json: cannot unmarshal string into Go value of type int''))) = DefiniteFailure"
  by (simp add: ClassifyHTTP_def isDefiniteLocal_def)

end
