(* ===== verification/Http_Limit.thy ===== *)
theory Http_Limit
  imports Go_Errors
begin

text \<open>
  \<open>security/httplimit/httplimit.go\<close>: limits on the bytes read of requests and responses.

  A body is the bytes still to be read, the error (if any) that reading past them gives, and the limits
  of the \<open>http.MaxBytesReader\<close>s wrapped around it. A reader of \<open>io.Reader\<close> is such a body too.
\<close>

section \<open>Bodies\<close>

record body =
  bd_data :: string
  bd_err :: "goerr option"
  bd_limits :: "int list"

definition max_bytes_reader :: "int \<Rightarrow> body \<Rightarrow> body" where
  "max_bytes_reader n b = b\<lparr>bd_limits := n # bd_limits b\<rparr>"

text \<open>
  \<open>io.ReadAll\<close> of a body: the bytes up to the smallest limit, with a \<open>*http.MaxBytesError\<close> if there
  are more, else all of them and the error of the reader.
\<close>

definition read_all :: "body \<Rightarrow> string \<times> goerr option" where
  "read_all b =
     (let over = filter (\<lambda>l. int (length (bd_data b)) > l) (bd_limits b)
      in if over \<noteq> []
         then (take (nat (Min (set over))) (bd_data b), Some (EMaxBytes ''http: request body too large''))
         else (bd_data b, bd_err b))"


section \<open>Operations\<close>

definition DefaultMaxBody :: int where "DefaultMaxBody = 2 ^ 20"

text \<open>A request that may be nil, with a body that may be nil.\<close>

definition MaxBytes :: "body option option \<Rightarrow> int \<Rightarrow> body option option" where
  "MaxBytes r n =
     (case r of
        Some (Some b) \<Rightarrow> if n \<le> 0 then r else Some (Some (max_bytes_reader n b))
      | _ \<Rightarrow> r)"

definition isMaxBytes :: "goerr \<Rightarrow> bool" where
  "isMaxBytes err \<longleftrightarrow> as_max_bytes err \<noteq> None"

definition payload_too_large :: goerr where
  "payload_too_large =
     EHTTP (Some (HTTPError 413 (Some ''payload too large'') ''code=413, message=payload too large'' None))"

definition limit_Middleware ::
    "int \<Rightarrow> (body option option \<Rightarrow> 's \<Rightarrow> goerr option \<times> 's) \<Rightarrow> body option option \<Rightarrow> 's
       \<Rightarrow> goerr option \<times> 's"
where
  "limit_Middleware n next req s =
     (let n = (if n \<le> 0 then DefaultMaxBody else n);
          req = (case req of Some (Some b) \<Rightarrow> Some (Some (max_bytes_reader n b)) | _ \<Rightarrow> req)
      in case next req s of
           (Some err, s') \<Rightarrow> (if isMaxBytes err then Some payload_too_large else Some err, s')
         | (None, s') \<Rightarrow> (None, s'))"

text \<open>
  The errors of \<open>ReadAll\<close>: that of the reader, or \<open>fmt.Errorf("%w: exceeded %d bytes", ErrTooLarge, max)\<close>,
  which \<open>errors.Is\<close> finds to be the sentinel \<open>ErrTooLarge\<close>.
\<close>

datatype read_error = ReadFailed goerr | TooLarge int

definition ErrTooLarge :: string where "ErrTooLarge = ''payload too large''"

fun read_error_text :: "read_error \<Rightarrow> string" where
  "read_error_text (ReadFailed e) = err_text e"
| "read_error_text (TooLarge m) = ErrTooLarge @ '': exceeded '' @ itoa m @ '' bytes''"


section \<open>No more than the limit\<close>



text \<open>
  Behind the middleware a handler that reads its body and returns the error it gets sees at most the
  limit of it, and the client is answered 413 exactly when the body is longer.
\<close>

theorem long_body_is_413:
  assumes "bd_limits b = []" and "\<And>e. bd_err b = Some e \<Longrightarrow> \<not> isMaxBytes e"
    and "reads = (\<lambda>req s. case req of Some (Some b) \<Rightarrow> (snd (read_all b), fst (read_all b)) | _ \<Rightarrow> (None, []))"
  shows "limit_Middleware n reads (Some (Some b)) s =
     (let n = (if n \<le> 0 then DefaultMaxBody else n)
      in if int (length (bd_data b)) > n then (Some payload_too_large, take (nat n) (bd_data b))
         else (bd_err b, bd_data b))"
proof -
  have "isMaxBytes (EMaxBytes t)" for t
    by (simp add: isMaxBytes_def as_max_bytes_def find_err.simps)
  then show ?thesis
    using assms by (auto simp: limit_Middleware_def read_all_def max_bytes_reader_def Let_def
        split: option.split)
qed

theorem long_body_is_413_witness:
  "limit_Middleware 2
     (\<lambda>req s. case req of Some (Some b) \<Rightarrow> (snd (read_all b), fst (read_all b)) | _ \<Rightarrow> (None, []))
     (Some (Some \<lparr>bd_data = ''abc'', bd_err = None, bd_limits = []\<rparr>)) [] = (Some payload_too_large, ''ab'')"
  using long_body_is_413 [of "\<lparr>bd_data = ''abc'', bd_err = None, bd_limits = []\<rparr>" _ 2 "[]", OF _ _ refl]
  by (simp add: numeral_2_eq_2)

end
