(* ===== verification/Safe_Config.thy ===== *)
theory Safe_Config
  imports Go_Errors
begin

text \<open>
  \<open>security/safeconfig/safeconfig.go\<close>: redaction of configuration before it is logged.

  A value seen through \<open>reflect\<close> is a \<open>gval\<close>: structs with their fields, pointers, slices and maps that
  may be nil, interfaces, and scalars. \<open>texts\<close> is every string a JSON encoding of it can show;
  \<open>json.Marshal\<close> itself is an argument.
\<close>

section \<open>Values\<close>

record gfield =
  gf_Name :: string
  gf_json :: string
  gf_koanf :: string
  gf_Exported :: bool
  gf_Anonymous :: bool    \<comment> \<open>an embedded field\<close>

datatype gval =
    GStruct "(gfield \<times> gval) list"
  | GPtr "gval option"
  | GSlice "gval list option"
  | GMap "(string \<times> gval) list option"
  | GIface "gval option"
  | GText string
  | GNum int
  | GBool bool

section \<open>Redaction\<close>

definition secretFieldTokens :: "string list" where
  "secretFieldTokens =
     [''password'', ''passwd'', ''secret'', ''token'', ''apikey'', ''api_key'', ''accesskey'',
      ''private'', ''encryption'', ''credential'', ''smtp'', ''minio'', ''mt5'']"

definition looksSecret :: "string \<Rightarrow> string \<Rightarrow> string \<Rightarrow> bool" where
  "looksSecret name jsonTag koanfTag =
     (let blob = to_lower (name @ '' '' @ jsonTag @ '' '' @ koanfTag)
      in list_ex (contains blob) secretFieldTokens)"

definition secret_field :: "gfield \<Rightarrow> bool" where
  "secret_field f = looksSecret (gf_Name f) (gf_json f) (gf_koanf f)"

text \<open>\<open>reflect.Zero\<close> of the type of a value\<close>

fun zero_of :: "gval \<Rightarrow> gval" and zero_fields :: "(gfield \<times> gval) list \<Rightarrow> (gfield \<times> gval) list" where
  "zero_of (GStruct fs) = GStruct (zero_fields fs)"
| "zero_of (GPtr v) = GPtr None"
| "zero_of (GSlice v) = GSlice None"
| "zero_of (GMap v) = GMap None"
| "zero_of (GIface v) = GIface None"
| "zero_of (GText t) = GText []"
| "zero_of (GNum n) = GNum 0"
| "zero_of (GBool b) = GBool False"
| "zero_fields [] = []"
| "zero_fields ((f, v) # fs) = (f, zero_of v) # zero_fields fs"

text \<open>
  A redacted field is stored only if it has the type of the field. That is so for a struct; the result
  for a pointer that is not nil is what it points to, of another type, and the result for anything
  else is the value itself.
\<close>

fun redactValue :: "gval \<Rightarrow> gval" and redact_fields :: "(gfield \<times> gval) list \<Rightarrow> (gfield \<times> gval) list"
where
  "redactValue (GPtr (Some v)) = redactValue v"
| "redactValue (GPtr None) = GPtr None"
| "redactValue (GStruct fs) = GStruct (redact_fields fs)"
| "redactValue v = v"
| "redact_fields [] = []"
| "redact_fields ((f, v) # fs) =
     (f, if \<not> gf_Exported f then v
         else if secret_field f then zero_of v
         else (case v of GStruct gs \<Rightarrow> redactValue (GStruct gs) | _ \<Rightarrow> v)) # redact_fields fs"

text \<open>\<open>None\<close> is a nil \<open>any\<close>.\<close>

definition MarshalJSONRedacted :: "(gval \<Rightarrow> goerr + string) \<Rightarrow> gval option \<Rightarrow> goerr + string" where
  "MarshalJSONRedacted marshal v =
     (case v of None \<Rightarrow> Inr ''null'' | Some v \<Rightarrow> marshal (redactValue v))"

definition summary_String :: "('s \<Rightarrow> goerr + string) \<Rightarrow> 's \<Rightarrow> string" where
  "summary_String marshal s =
     (case marshal s of
        Inl e \<Rightarrow> CHR 0x7B # CHR 0x22 # ''error'' @ [CHR 0x22, CHR '':'', CHR 0x22] @ ''safeconfig_marshal''
                 @ [CHR 0x22, CHR 0x7D]
      | Inr b \<Rightarrow> b)"

fun ContainsSecret :: "string \<Rightarrow> string list \<Rightarrow> bool" where
  "ContainsSecret s [] = False"
| "ContainsSecret s (x # xs) = (if x \<noteq> [] \<and> contains s x then True else ContainsSecret s xs)"

definition MustNotContainSecrets :: "string \<Rightarrow> string list \<Rightarrow> goerr option" where
  "MustNotContainSecrets s secrets =
     (if ContainsSecret s secrets
      then Some (EText ''safeconfig: serialized output contains a secret value'') else None)"

section \<open>What can still be read\<close>

text \<open>
  The fields \<open>encoding/json\<close> shows: none with the tag \<open>-\<close>; of the others the exported ones, and the
  embedded ones of an unexported struct type (or a pointer to one), whose exported fields it promotes.
\<close>

definition embedded_struct :: "gfield \<Rightarrow> gval \<Rightarrow> bool" where
  "embedded_struct f v \<longleftrightarrow> gf_Anonymous f
     \<and> (case v of GStruct fs \<Rightarrow> True | GPtr (Some (GStruct fs)) \<Rightarrow> True | _ \<Rightarrow> False)"

definition json_shows :: "gfield \<Rightarrow> gval \<Rightarrow> bool" where
  "json_shows f v \<longleftrightarrow> gf_json f \<noteq> ''-'' \<and> (gf_Exported f \<or> embedded_struct f v)"

text \<open>
  The strings a value shows (\<open>texts\<close>), those of fields that a field of the same name hides included; and
  of these the ones that redaction is not to remove: those under no exported field with a secret name. The
  fields of an unexported embedded struct count among them, since \<open>redactValue\<close> does not enter
  it.
\<close>

fun texts :: "gval \<Rightarrow> string list" and field_texts :: "(gfield \<times> gval) list \<Rightarrow> string list"
  and list_texts :: "gval list \<Rightarrow> string list" and map_texts :: "(string \<times> gval) list \<Rightarrow> string list"
where
  "texts (GStruct fs) = field_texts fs"
| "texts (GPtr None) = []"
| "texts (GPtr (Some v)) = texts v"
| "texts (GSlice None) = []"
| "texts (GSlice (Some vs)) = list_texts vs"
| "texts (GMap None) = []"
| "texts (GMap (Some m)) = map_texts m"
| "texts (GIface None) = []"
| "texts (GIface (Some v)) = texts v"
| "texts (GText t) = [t]"
| "texts (GNum n) = []"
| "texts (GBool b) = []"
| "field_texts [] = []"
| "field_texts ((f, v) # fs) = (if json_shows f v then texts v else []) @ field_texts fs"
| "list_texts [] = []"
| "list_texts (v # vs) = texts v @ list_texts vs"
| "map_texts [] = []"
| "map_texts ((k, v) # m) = k # texts v @ map_texts m"

fun public_texts :: "gval \<Rightarrow> string list" and public_field_texts :: "(gfield \<times> gval) list \<Rightarrow> string list"
where
  "public_texts (GStruct fs) = public_field_texts fs"
| "public_texts v = texts v"
| "public_field_texts [] = []"
| "public_field_texts ((f, v) # fs) =
     (if \<not> json_shows f v then []
      else if \<not> gf_Exported f then texts v
      else if secret_field f then []
      else public_texts v) @ public_field_texts fs"

text \<open>Built of structs and scalars only, none with a \<open>MarshalJSON\<close> method of its own.\<close>

fun by_value :: "gval \<Rightarrow> bool" and fields_by_value :: "(gfield \<times> gval) list \<Rightarrow> bool" where
  "by_value (GStruct fs) = fields_by_value fs"
| "by_value (GText t) = True"
| "by_value (GNum n) = True"
| "by_value (GBool b) = True"
| "by_value _ = False"
| "fields_by_value [] = True"
| "fields_by_value ((f, v) # fs) = (by_value v \<and> fields_by_value fs)"

lemma zero_texts: "set (texts (zero_of v)) \<subseteq> {[]}" "set (field_texts (zero_fields fs)) \<subseteq> {[]}"
  by (induction v and fs rule: zero_of_zero_fields.induct) auto

lemma redact_by_value:
  "by_value v \<Longrightarrow> set (texts (redactValue v)) - {[]} = set (public_texts v) - {[]}"
  "fields_by_value fs \<Longrightarrow>
     set (field_texts (redact_fields fs)) - {[]} = set (public_field_texts fs) - {[]}"
proof (induction v and fs rule: redactValue_redact_fields.induct, goal_cases)
  case (11 f v fs)
  then have tl: "set (field_texts (redact_fields fs)) - {[]} = set (public_field_texts fs) - {[]}"
    by simp
  let ?v = "case v of GStruct gs \<Rightarrow> redactValue (GStruct gs) | _ \<Rightarrow> v"
  have shown: "json_shows f w \<longleftrightarrow> gf_json f \<noteq> ''-''" if "gf_Exported f" for w
    using that by (simp add: json_shows_def)
  consider "\<not> gf_Exported f" | "gf_Exported f" "secret_field f" | "gf_Exported f" "\<not> secret_field f"
    by blast
  then show ?case
  proof cases
    case 1
    with tl show ?thesis by auto
  next
    case 2
    with tl zero_texts(1) [of v] shown show ?thesis by auto
  next
    case 3
    with 11 have "set (texts ?v) - {[]} = set (public_texts v) - {[]}"
      by (cases v) auto
    with 3 tl shown show ?thesis by auto
  qed
qed auto

text \<open>
  C37. For a configuration of structs and scalars nested to any depth, redaction removes exactly the
  strings under exported fields with a secret name: a non-empty string is shown by the JSON of the redacted
  value if and only if that of the value itself shows it outside of every such field, or within a
  struct embedded under an unexported name, whose fields \<open>encoding/json\<close> shows and redaction leaves alone.
\<close>

theorem redaction_exact:
  assumes "by_value v" and "t \<noteq> []"
  shows "t \<in> set (texts (redactValue v)) \<longleftrightarrow> t \<in> set (public_texts v)"
  using redact_by_value(1) [OF assms(1)] assms(2) by blast

definition str_field :: "string \<Rightarrow> string \<Rightarrow> gfield \<times> gval" where
  "str_field name v = (\<lparr>gf_Name = name, gf_json = [], gf_koanf = [], gf_Exported = True, gf_Anonymous = False\<rparr>, GText v)"

definition demo_db :: "(gval \<Rightarrow> gval) \<Rightarrow> gval" where
  "demo_db f = GStruct
     [(\<lparr>gf_Name = ''DB'', gf_json = [], gf_koanf = [], gf_Exported = True, gf_Anonymous = False\<rparr>,
       f (GStruct [str_field ''Host'' ''pg'', str_field ''Password'' ''hunter2'']))]"

lemma demo_secret: "looksSecret ''Password'' [] []" "\<not> looksSecret ''DB'' [] []" "\<not> looksSecret ''Host'' [] []"
  by code_simp+

theorem redaction_exact_witness:
  "''hunter2'' \<notin> set (texts (redactValue (demo_db id))) \<and> ''pg'' \<in> set (texts (redactValue (demo_db id)))"
proof -
  have "by_value (demo_db id)" by (simp add: demo_db_def str_field_def)
  note r = redaction_exact [OF this]
  show ?thesis
    using r [of "''hunter2''"] r [of "''pg''"] demo_secret
    by (simp add: demo_db_def str_field_def secret_field_def json_shows_def)
qed

text \<open>
  A secret behind a pointer, in a slice or in a map is not redacted: the same struct as above, held by
  pointer, shows its password.
\<close>

theorem secret_behind_pointer_is_shown:
  "''hunter2'' \<in> set (texts (redactValue (demo_db (\<lambda>v. GPtr (Some v)))))
   \<and> ''hunter2'' \<in> set (texts (redactValue (demo_db (\<lambda>v. GSlice (Some [v])))))
   \<and> ''hunter2'' \<in> set (texts (redactValue (demo_db (\<lambda>v. GMap (Some [(''main'', v)])))))"
  using demo_secret(2) by (simp add: demo_db_def str_field_def secret_field_def json_shows_def)

text \<open>
  Nor is a secret in a struct embedded under an unexported name, as in
  \<open>type Config struct { creds }\<close>, although its exported fields are shown.
\<close>

theorem embedded_secret_is_shown:
  "''hunter2'' \<in> set (texts (redactValue (GStruct
     [(\<lparr>gf_Name = ''creds'', gf_json = [], gf_koanf = [], gf_Exported = False, gf_Anonymous = True\<rparr>,
       GStruct [str_field ''Password'' ''hunter2''])])))"
  by (simp add: str_field_def json_shows_def embedded_struct_def)

end
