(* ===== verification/Go_Float.thy ===== *)
theory Go_Float
  imports Complex_Main
begin

text \<open>
  The \<open>float64\<close> values the sources compare: a finite one is a rational number, \<open>None\<close> is a NaN, for
  which every comparison is false. Infinities are left out.
\<close>

type_synonym go_float = "rat option"

definition f_less :: "go_float \<Rightarrow> go_float \<Rightarrow> bool" where
  "f_less a b = (case (a, b) of (Some x, Some y) \<Rightarrow> x < y | _ \<Rightarrow> False)"

definition f_le :: "go_float \<Rightarrow> go_float \<Rightarrow> bool" where
  "f_le a b = (case (a, b) of (Some x, Some y) \<Rightarrow> x \<le> y | _ \<Rightarrow> False)"

end
