(* ===== verification/Captcha.thy ===== *)
theory Captcha
  imports JWKS Go_Float
begin

text \<open>
  \<open>security/captcha/captcha.go\<close>: verification of reCAPTCHA tokens. The error type is the constructor
  \<open>ECaptcha\<close> of \<open>Go_Errors\<close>, whose code is kept as its text.

  The calls of the HTTP client and of
  \<open>json.Unmarshal\<close> are a record of functions on a world; a posted form is its list of fields.
\<close>

section \<open>Errors\<close>

definition ErrRequired :: captcha_error where
  "ErrRequired = CaptchaError ''captcha_required'' ''captcha required'' None"

definition ErrInvalid :: "string \<Rightarrow> captcha_error" where
  "ErrInvalid msg =
     CaptchaError ''captcha_invalid'' (if msg = [] then ''captcha invalid'' else msg) None"

definition ErrVerificationFailed :: "goerr \<Rightarrow> captcha_error" where
  "ErrVerificationFailed err =
     CaptchaError ''captcha_verification_failed'' ''captcha verification failed'' (Some err)"

definition CaptchaError_Error :: "captcha_error option \<Rightarrow> string" where
  "CaptchaError_Error e =
     (case e of
        None \<Rightarrow> ''captcha error''
      | Some e \<Rightarrow> if ce_Message e \<noteq> [] then ce_Message e else ce_Code e)"

definition IsCaptchaError :: "goerr option \<Rightarrow> bool" where
  "IsCaptchaError err = (case err of None \<Rightarrow> False | Some e \<Rightarrow> as_captcha e \<noteq> None)"

definition CodeOf :: "goerr option \<Rightarrow> string option" where
  "CodeOf err = (case err of None \<Rightarrow> None | Some e \<Rightarrow> map_option ce_Code (as_captcha e))"

section \<open>Verifier\<close>

record captcha_config =
  cc_Secret :: string
  cc_Enabled :: bool
  cc_MinScore :: go_float
  cc_ExpectedHost :: string
  cc_AllowedActions :: "string list"
  cc_SiteVerifyURL :: string

record recaptcha =
  rc_secret :: string
  rc_minScore :: go_float
  rc_expectedHost :: string
  rc_allowedActions :: "string list"
  rc_siteVerifyURL :: string

definition defaultSiteVerifyURL :: string where
  "defaultSiteVerifyURL = ''https://www.google.com/recaptcha/api/siteverify''"

definition NewRecaptchaV3 :: "captcha_config \<Rightarrow> goerr + recaptcha" where
  "NewRecaptchaV3 cfg =
     (if \<not> cc_Enabled cfg
      then Inl (EText ''captcha: RecaptchaV3 requires Enabled=true; use NoopVerifier when disabled'')
      else if trim_space (cc_Secret cfg) = []
      then Inl (EText ''captcha: secret is required when enabled'')
      else Inr
        \<lparr>rc_secret = cc_Secret cfg,
         rc_minScore = (if f_le (cc_MinScore cfg) (Some 0) then Some (1 / 2) else cc_MinScore cfg),
         rc_expectedHost = trim_space (cc_ExpectedHost cfg),
         rc_allowedActions = filter (\<lambda>a. a \<noteq> []) (map trim_space (cc_AllowedActions cfg)),
         rc_siteVerifyURL = (if cc_SiteVerifyURL cfg = [] then defaultSiteVerifyURL
                             else cc_SiteVerifyURL cfg)\<rparr>)"

record verify_opts =
  vo_Action :: string
  vo_RemoteIP :: string
  vo_Hostname :: string

record site_response =
  sr_Success :: bool
  sr_Score :: go_float
  sr_Action :: string
  sr_Hostname :: string
  sr_ErrorCodes :: "string list"

record 'w captcha_env =
  cv_NewRequest :: "string \<Rightarrow> goerr option"
  cv_Post :: "string \<Rightarrow> (string \<times> string) list \<Rightarrow> 'w \<Rightarrow> (goerr + http_response) \<times> 'w"
  cv_Unmarshal :: "string \<Rightarrow> goerr + site_response"

definition captcha_form :: "recaptcha \<Rightarrow> string \<Rightarrow> verify_opts \<Rightarrow> (string \<times> string) list" where
  "captcha_form r token opts =
     [(''secret'', rc_secret r), (''response'', token)]
     @ (let ip = trim_space (vo_RemoteIP opts) in if ip \<noteq> [] then [(''remoteip'', ip)] else [])"

text \<open>The checks of a decoded answer, in the order of the code.\<close>

definition check_answer :: "recaptcha \<Rightarrow> verify_opts \<Rightarrow> site_response \<Rightarrow> captcha_error option" where
  "check_answer r opts parsed =
     (let expectedAction = trim_space (vo_Action opts); host = trim_space (vo_Hostname opts);
          check = (if expectedAction = [] then sr_Action parsed else expectedAction)
      in if \<not> sr_Success parsed
         then Some (ErrInvalid (''provider rejected token: '' @ join_with '','' (sr_ErrorCodes parsed)))
         else if f_less (sr_Score parsed) (rc_minScore r) then Some (ErrInvalid ''captcha score too low'')
         else if expectedAction \<noteq> [] \<and> sr_Action parsed \<noteq> [] \<and> expectedAction \<noteq> sr_Action parsed
         then Some (ErrInvalid ''captcha action mismatch'')
         else if rc_allowedActions r \<noteq> [] \<and> \<not> List.member (rc_allowedActions r) check
         then Some (ErrInvalid ''captcha action mismatch'')
         else if rc_expectedHost r \<noteq> [] \<and> sr_Hostname parsed \<noteq> []
              \<and> \<not> equal_fold (sr_Hostname parsed) (rc_expectedHost r)
         then Some (ErrInvalid ''captcha hostname mismatch'')
         else if host \<noteq> [] \<and> sr_Hostname parsed \<noteq> [] \<and> \<not> equal_fold (sr_Hostname parsed) host
         then Some (ErrInvalid ''captcha hostname mismatch'')
         else None)"

definition recaptcha_Verify ::
    "'w captcha_env \<Rightarrow> recaptcha \<Rightarrow> string \<Rightarrow> verify_opts \<Rightarrow> 'w \<Rightarrow> captcha_error option \<times> 'w"
where
  "recaptcha_Verify env r token0 opts w =
     (let token = trim_space token0
      in if token = [] then (Some ErrRequired, w)
         else case cv_NewRequest env (rc_siteVerifyURL r) of
           Some err \<Rightarrow> (Some (ErrVerificationFailed err), w)
         | None \<Rightarrow>
             (case cv_Post env (rc_siteVerifyURL r) (captcha_form r token opts) w of
                (Inl err, w) \<Rightarrow> (Some (ErrVerificationFailed err), w)
              | (Inr resp, w) \<Rightarrow>
                  (case read_limited (2 ^ 20) resp of
                     (b, Some err) \<Rightarrow> (Some (ErrVerificationFailed err), w)
                   | (b, None) \<Rightarrow>
                       if rs_Status resp < 200 \<or> rs_Status resp \<ge> 300
                       then (Some (ErrVerificationFailed
                                    (EText (''provider status '' @ itoa (rs_Status resp)))), w)
                       else case cv_Unmarshal env b of
                              Inl err \<Rightarrow> (Some (ErrVerificationFailed err), w)
                            | Inr parsed \<Rightarrow> (check_answer r opts parsed, w))))"

definition noop_Verify :: "bool \<Rightarrow> string \<Rightarrow> captcha_error option" where
  "noop_Verify enabled token = (if enabled \<and> trim_space token = [] then Some ErrRequired else None)"

section \<open>Choice of a verifier\<close>

text \<open>The dynamic types of a \<open>Verifier\<close>: \<open>Noop b\<close> has \<open>Enabled = b\<close>.\<close>

datatype captcha_verifier = Recaptcha recaptcha | Noop bool | NoopPtr bool | OtherVerifier

definition ErrNoopCaptchaInProduction :: goerr where
  "ErrNoopCaptchaInProduction =
     EText ''captcha: NoopVerifier cannot be used in production when captcha is enabled; configure a real provider or disable captcha''"

definition EnsureProductionSafe :: "bool \<Rightarrow> bool \<Rightarrow> captcha_verifier \<Rightarrow> goerr option" where
  "EnsureProductionSafe isProduction captchaEnabled v =
     (if \<not> isProduction \<or> \<not> captchaEnabled then None
      else (case v of
              Noop b \<Rightarrow> Some ErrNoopCaptchaInProduction
            | NoopPtr b \<Rightarrow> Some ErrNoopCaptchaInProduction
            | _ \<Rightarrow> None))"

definition NewFromConfig ::
    "bool \<Rightarrow> bool \<Rightarrow> string \<Rightarrow> go_float \<Rightarrow> string \<Rightarrow> goerr + captcha_verifier"
where
  "NewFromConfig isProduction enabled secret0 minScore expectedHost =
     (if \<not> enabled then Inr (Noop False)
      else let secret = trim_space secret0
           in if secret = [] then
                (if isProduction
                 then Inl (EText ''captcha: secret is required in production when captcha is enabled'')
                 else (case EnsureProductionSafe isProduction enabled (Noop True) of
                         None \<Rightarrow> Inr (Noop True)
                       | Some err \<Rightarrow> Inl err))
              else map_sum id Recaptcha (NewRecaptchaV3
                \<lparr>cc_Secret = secret, cc_Enabled = True, cc_MinScore = minScore,
                 cc_ExpectedHost = expectedHost, cc_AllowedActions = [], cc_SiteVerifyURL = []\<rparr>))"

section \<open>Acceptance\<close>

lemma verify_cases:
  assumes "recaptcha_Verify env r token opts w = (e, w')"
  shows "(trim_space token = [] \<and> e = Some ErrRequired \<and> w' = w)
    \<or> (trim_space token \<noteq> [] \<and> (\<exists>err. e = Some (ErrVerificationFailed err)))
    \<or> (trim_space token \<noteq> [] \<and> (\<exists>resp b parsed.
         cv_Post env (rc_siteVerifyURL r) (captcha_form r (trim_space token) opts) w = (Inr resp, w')
         \<and> read_limited (2 ^ 20) resp = (b, None) \<and> 200 \<le> rs_Status resp \<and> rs_Status resp < 300
         \<and> cv_Unmarshal env b = Inr parsed \<and> e = check_answer r opts parsed))"
  using assms
  by (auto simp: recaptcha_Verify_def Let_def split: if_splits option.splits prod.splits sum.splits)

lemma failed_not_invalid:
  "ce_Code (ErrInvalid m) = ''captcha_invalid''" "ce_Code ErrRequired = ''captcha_required''"
  "ce_Code (ErrVerificationFailed err) = ''captcha_verification_failed''"
  by (simp_all add: ErrInvalid_def ErrRequired_def ErrVerificationFailed_def)

text \<open>The conditions under which an answer of the provider is good enough.\<close>

lemma check_answer_None:
  "check_answer r opts p = None \<longleftrightarrow>
     sr_Success p \<and> \<not> f_less (sr_Score p) (rc_minScore r)
     \<and> (trim_space (vo_Action opts) \<noteq> [] \<longrightarrow> sr_Action p \<in> {[], trim_space (vo_Action opts)})
     \<and> (rc_allowedActions r \<noteq> [] \<longrightarrow>
         (if trim_space (vo_Action opts) = [] then sr_Action p else trim_space (vo_Action opts))
           \<in> set (rc_allowedActions r))
     \<and> (\<forall>host \<in> {rc_expectedHost r, trim_space (vo_Hostname opts)}.
           host \<noteq> [] \<longrightarrow> sr_Hostname p = [] \<or> equal_fold (sr_Hostname p) host)"
  by (auto simp: check_answer_def Let_def)

text \<open>
  C34. A captcha is accepted only on the word of the provider, and whenever the provider's word is good
  enough: the verifier returns no error exactly if the token is not blank and the provider, asked with the secret
  and that token, answered with a status in the 200s that the token is valid, with no score below
  the minimum; with the action the caller asked for or none; with, where actions are restricted, the
  caller's action or else the answered one among the allowed; and with a host name that agrees, up to letter
  case, with the configured and the caller's, where these are given, or no host name. So an answer
  without action and host name passes the comparison with the caller's action and with both hosts.
\<close>

theorem captcha_accepts:
  "fst (recaptcha_Verify env r token opts w) = None \<longleftrightarrow>
     trim_space token \<noteq> [] \<and> cv_NewRequest env (rc_siteVerifyURL r) = None
     \<and> (\<exists>resp w1 p. cv_Post env (rc_siteVerifyURL r) (captcha_form r (trim_space token) opts) w = (Inr resp, w1)
         \<and> snd (read_limited (2 ^ 20) resp) = None \<and> 200 \<le> rs_Status resp \<and> rs_Status resp < 300
         \<and> cv_Unmarshal env (take (2 ^ 20) (rs_Body resp)) = Inr p
         \<and> sr_Success p \<and> \<not> f_less (sr_Score p) (rc_minScore r)
         \<and> (trim_space (vo_Action opts) \<noteq> [] \<longrightarrow> sr_Action p \<in> {[], trim_space (vo_Action opts)})
         \<and> (rc_allowedActions r \<noteq> [] \<longrightarrow>
             (if trim_space (vo_Action opts) = [] then sr_Action p else trim_space (vo_Action opts))
               \<in> set (rc_allowedActions r))
         \<and> (\<forall>host \<in> {rc_expectedHost r, trim_space (vo_Hostname opts)}.
               host \<noteq> [] \<longrightarrow> sr_Hostname p = [] \<or> equal_fold (sr_Hostname p) host))"
proof -
  let ?post = "cv_Post env (rc_siteVerifyURL r) (captcha_form r (trim_space token) opts) w"
  have "fst (recaptcha_Verify env r token opts w) = None \<longleftrightarrow>
     trim_space token \<noteq> [] \<and> cv_NewRequest env (rc_siteVerifyURL r) = None
     \<and> (\<exists>resp w1 p. ?post = (Inr resp, w1)
         \<and> snd (read_limited (2 ^ 20) resp) = None \<and> 200 \<le> rs_Status resp \<and> rs_Status resp < 300
         \<and> cv_Unmarshal env (take (2 ^ 20) (rs_Body resp)) = Inr p \<and> check_answer r opts p = None)"
  proof (cases "trim_space token = [] \<or> cv_NewRequest env (rc_siteVerifyURL r) \<noteq> None")
    case True
    then show ?thesis by (auto simp: recaptcha_Verify_def Let_def)
  next
    case False
    obtain q w1 where post: "?post = (q, w1)" by (cases ?post)
    show ?thesis
    proof (cases q)
      case (Inl err)
      with False post show ?thesis by (simp add: recaptcha_Verify_def Let_def)
    next
      case (Inr resp)
      obtain b e where "read_limited (2 ^ 20) resp = (b, e)" by (cases "read_limited (2 ^ 20) resp")
      moreover from this have "b = take (2 ^ 20) (rs_Body resp)" by (auto simp: read_limited_def)
      ultimately show ?thesis using False post Inr
        by (cases e; cases "cv_Unmarshal env b") (auto simp: recaptcha_Verify_def Let_def)
    qed
  qed
  then show ?thesis unfolding check_answer_None .
qed

text \<open>
  Every failure has one of the three codes, and \<open>captcha_invalid\<close>, the verdict against the user,
  comes only from an answer of the provider with a status in the 200s: a network error, an error
  status or an undecodable answer is \<open>captcha_verification_failed\<close>, with its cause.
\<close>

theorem captcha_failure_codes:
  assumes "recaptcha_Verify env r token opts w = (Some e, w')"
  shows "ce_Code e \<in> {''captcha_required'', ''captcha_invalid'', ''captcha_verification_failed''}
    \<and> CodeOf (Some (EWrap p (ECaptcha e))) = Some (ce_Code e)
    \<and> (ce_Code e = ''captcha_required'' \<longleftrightarrow> trim_space token = [])
    \<and> (ce_Code e = ''captcha_verification_failed'' \<longrightarrow> ce_Cause e \<noteq> None)
    \<and> (ce_Code e = ''captcha_invalid'' \<longrightarrow> (\<exists>resp b parsed.
         cv_Post env (rc_siteVerifyURL r) (captcha_form r (trim_space token) opts) w = (Inr resp, w')
         \<and> 200 \<le> rs_Status resp \<and> rs_Status resp < 300 \<and> cv_Unmarshal env b = Inr parsed))"
proof -
  have code: "CodeOf (Some (EWrap p (ECaptcha e))) = Some (ce_Code e)"
    unfolding CodeOf_def as_captcha_def by (simp add: find_err_next find_err_here)
  have inv: "check_answer r opts x = Some e \<Longrightarrow> ce_Code e = ''captcha_invalid''" for x
    by (auto simp: check_answer_def Let_def failed_not_invalid split: if_splits)
  from verify_cases [OF assms] show ?thesis
  proof (elim disjE exE conjE)
    assume "trim_space token = []" "Some e = Some ErrRequired"
    with code show ?thesis by (simp add: failed_not_invalid)
  next
    fix err assume "trim_space token \<noteq> []" "Some e = Some (ErrVerificationFailed err)"
    with code show ?thesis by (simp add: failed_not_invalid) (simp add: ErrVerificationFailed_def)
  next
    fix resp b parsed
    assume "trim_space token \<noteq> []" "Some e = check_answer r opts parsed"
      "cv_Post env (rc_siteVerifyURL r) (captcha_form r (trim_space token) opts) w = (Inr resp, w')"
      "200 \<le> rs_Status resp" "rs_Status resp < 300" "cv_Unmarshal env b = Inr parsed"
    with code inv [of parsed] show ?thesis by auto
  qed
qed

text \<open>
  In production with the captcha enabled the verifier from the configuration is the real one, with
  the configured secret and a positive minimum score or the configured one, and startup's
  \<open>EnsureProductionSafe\<close> accepts it; a verifier that only checks the presence of a token is refused.
\<close>

theorem production_captcha_is_real:
  assumes "NewFromConfig True True secret minScore host = Inr v"
  shows "\<exists>r. v = Recaptcha r \<and> rc_secret r = trim_space secret \<and> rc_secret r \<noteq> []
    \<and> \<not> f_le (rc_minScore r) (Some 0) \<and> EnsureProductionSafe True True v = None
    \<and> EnsureProductionSafe True True (Noop b) = Some ErrNoopCaptchaInProduction"
  using assms
  by (auto simp: NewFromConfig_def NewRecaptchaV3_def EnsureProductionSafe_def f_le_def Let_def
      split: if_splits)

definition demo_captcha_env :: "nat captcha_env" where
  "demo_captcha_env =
     \<lparr>cv_NewRequest = (\<lambda>u. None),
      cv_Post = (\<lambda>u f w. if map_of f ''response'' = Some ''tok''
        then (Inr \<lparr>rs_Status = 200, rs_ETag = [], rs_Body = ''yes'', rs_ReadErr = None\<rparr>, w + 1)
        else (Inr \<lparr>rs_Status = 200, rs_ETag = [], rs_Body = ''no'', rs_ReadErr = None\<rparr>, w + 1)),
      cv_Unmarshal = (\<lambda>b. Inr \<lparr>sr_Success = (b = ''yes''), sr_Score = Some (9 / 10), sr_Action = ''login'',
        sr_Hostname = [], sr_ErrorCodes = []\<rparr>)\<rparr>"

definition demo_recaptcha :: recaptcha where
  "demo_recaptcha =
     \<lparr>rc_secret = ''s'', rc_minScore = Some (1 / 2), rc_expectedHost = ''shop.example'',
      rc_allowedActions = [''login''], rc_siteVerifyURL = ''https://captcha''\<rparr>"

definition demo_opts :: verify_opts where
  "demo_opts = \<lparr>vo_Action = [], vo_RemoteIP = [], vo_Hostname = []\<rparr>"

lemma demo_captcha_trims: "trim_space ''tok'' = ''tok''" "trim_space ''bad'' = ''bad''"
  by code_simp+

lemmas demo_captcha_defs = recaptcha_Verify_def demo_captcha_env_def demo_recaptcha_def demo_opts_def
  captcha_form_def check_answer_def read_limited_def f_less_def Let_def demo_captcha_trims

text \<open>The example's provider answers without a host name; another action of the caller is refused.\<close>

theorem captcha_accepts_witness:
  "fst (recaptcha_Verify demo_captcha_env demo_recaptcha ''tok'' demo_opts 0) = None
   \<and> fst (recaptcha_Verify demo_captcha_env demo_recaptcha ''tok'' (demo_opts\<lparr>vo_Action := ''pay''\<rparr>) 0) \<noteq> None"
proof -
  have p: "trim_space ''pay'' = ''pay''" by code_simp
  show ?thesis unfolding captcha_accepts by (simp add: demo_captcha_defs p)
qed

theorem captcha_failure_codes_witness:
  "\<exists>e. recaptcha_Verify demo_captcha_env demo_recaptcha ''bad'' demo_opts 0 = (Some e, 1)
     \<and> ce_Code e \<in> {''captcha_required'', ''captcha_invalid'', ''captcha_verification_failed''}"
proof -
  have v: "recaptcha_Verify demo_captcha_env demo_recaptcha ''bad'' demo_opts 0
      = (Some (ErrInvalid ''provider rejected token: ''), 1)"
    by (simp add: demo_captcha_defs)
  from captcha_failure_codes [OF v] v show ?thesis by blast
qed

theorem production_captcha_is_real_witness:
  "\<exists>v r. NewFromConfig True True ''s3'' (Some 0) [] = Inr v \<and> v = Recaptcha r \<and> rc_secret r = ''s3''"
proof -
  have t: "trim_space ''s3'' = ''s3''" by code_simp
  then obtain v where v: "NewFromConfig True True ''s3'' (Some 0) [] = Inr v"
    by (simp add: NewFromConfig_def NewRecaptchaV3_def Let_def)
  from production_captcha_is_real [OF v] v t show ?thesis by auto
qed

end
