(* ===== verification/Tracing.thy ===== *)
theory Tracing
  imports Go_Errors Retry_Policy "HOL-Library.AList"
begin

text \<open>
  Trace contexts in maps, JSON bodies, HTTP headers and AMQP headers: \<open>observability/tracing\<close>
  (\<open>carrier.go\<close>, \<open>envelope.go\<close>, \<open>http.go\<close>, \<open>span.go\<close>) and \<open>messaging/rabbitmq/tracing.go\<close>.

  The global propagator of OpenTelemetry is a record: the keys it reads, the fields it sets in a
  carrier for a context, and the context it makes of a parent and what it reads. A carrier is what its
  \<open>Get\<close> and \<open>Set\<close> make of it; the locale \<open>carrier\<close> is their contract.
\<close>

section \<open>Carriers\<close>

type_synonym map_carrier = "(string \<times> string) list option"

definition MapCarrier_Get :: "map_carrier \<Rightarrow> string \<Rightarrow> string" where
  "MapCarrier_Get c key =
     (case c of None \<Rightarrow> [] | Some m \<Rightarrow> (case map_of m key of None \<Rightarrow> [] | Some v \<Rightarrow> v))"

definition MapCarrier_Set :: "string \<Rightarrow> string \<Rightarrow> map_carrier \<Rightarrow> map_carrier" where
  "MapCarrier_Set key value c = map_option (AList.update key value) c"

definition MapCarrier_Keys :: "map_carrier \<Rightarrow> string list" where
  "MapCarrier_Keys c = (case c of None \<Rightarrow> [] | Some m \<Rightarrow> map fst m)"

text \<open>AMQP headers; \<open>fmt_float\<close> is what \<open>fmt.Sprint\<close> prints for a \<open>float64\<close>.\<close>

definition headerCarrier_Get :: "(float64 \<Rightarrow> string) \<Rightarrow> table \<Rightarrow> string \<Rightarrow> string" where
  "headerCarrier_Get fmt_float c key =
     (case header_value c key of
        None \<Rightarrow> []
      | Some v \<Rightarrow>
          (case v of
             VNil \<Rightarrow> []
           | VString s \<Rightarrow> s
           | VBytes s \<Rightarrow> s
           | VInt n \<Rightarrow> itoa n
           | VInt32 n \<Rightarrow> itoa n
           | VInt64 n \<Rightarrow> itoa n
           | VFloat64 f \<Rightarrow> fmt_float f
           | VOther s \<Rightarrow> s))"

text \<open>\<open>None\<close>, the nil table, panics; \<open>InjectTrace\<close> never sets one.\<close>

definition headerCarrier_Set :: "string \<Rightarrow> string \<Rightarrow> table \<Rightarrow> table" where
  "headerCarrier_Set key value c = map_option (\<lambda>h. h(key \<mapsto> VString value)) c"

definition headerCarrier_Keys :: "table \<Rightarrow> string set" where
  "headerCarrier_Keys c = (case c of None \<Rightarrow> {} | Some h \<Rightarrow> dom h)"

text \<open>
  HTTP headers, under canonical keys: \<open>textproto.CanonicalMIMEHeaderKey\<close> of a valid key has an upper
  case letter at the start and after each hyphen and lower case letters elsewhere.
\<close>

fun canonical_from :: "bool \<Rightarrow> string \<Rightarrow> string" where
  "canonical_from up [] = []"
| "canonical_from up (c # cs) =
     (if up then ascii_upper c else ascii_lower c) # canonical_from (c = CHR ''-'') cs"

definition canonical_key :: "string \<Rightarrow> string" where
  "canonical_key k = canonical_from True k"

type_synonym http_header = "(string \<times> string list) list"

definition HeaderCarrier_Get :: "http_header \<Rightarrow> string \<Rightarrow> string" where
  "HeaderCarrier_Get h key = (case map_of h (canonical_key key) of Some (v # vs) \<Rightarrow> v | _ \<Rightarrow> [])"

definition HeaderCarrier_Set :: "string \<Rightarrow> string \<Rightarrow> http_header \<Rightarrow> http_header" where
  "HeaderCarrier_Set key value h = AList.update (canonical_key key) [value] h"

section \<open>Propagation\<close>

record 'c propagator =
  pr_Keys :: "string list"
  pr_Fields :: "'c \<Rightarrow> (string \<times> string) list"
  pr_Extract :: "'c \<Rightarrow> (string \<Rightarrow> string) \<Rightarrow> 'c"

fun inject :: "(string \<Rightarrow> string \<Rightarrow> 'm \<Rightarrow> 'm) \<Rightarrow> (string \<times> string) list \<Rightarrow> 'm \<Rightarrow> 'm" where
  "inject put [] m = m"
| "inject put ((k, v) # fs) m = inject put fs (put k v m)"

definition InjectMap :: "'c propagator \<Rightarrow> 'c \<Rightarrow> map_carrier" where
  "InjectMap p ctx = inject MapCarrier_Set (pr_Fields p ctx) (Some [])"

definition ExtractMap :: "'c propagator \<Rightarrow> 'c \<Rightarrow> map_carrier \<Rightarrow> 'c" where
  "ExtractMap p ctx c =
     (if c = None \<or> c = Some [] then ctx else pr_Extract p ctx (MapCarrier_Get c))"

definition InjectHTTP :: "'c propagator \<Rightarrow> 'c \<Rightarrow> http_header \<Rightarrow> http_header" where
  "InjectHTTP p ctx h = inject HeaderCarrier_Set (pr_Fields p ctx) h"

definition ExtractHTTP :: "'c propagator \<Rightarrow> 'c \<Rightarrow> http_header \<Rightarrow> 'c" where
  "ExtractHTTP p ctx h = pr_Extract p ctx (HeaderCarrier_Get h)"

definition InjectTrace :: "'c propagator \<Rightarrow> 'c \<Rightarrow> table \<Rightarrow> table" where
  "InjectTrace p ctx headers =
     inject headerCarrier_Set (pr_Fields p ctx)
       (case headers of None \<Rightarrow> Some Map.empty | Some h \<Rightarrow> Some h)"

definition ExtractTrace :: "(float64 \<Rightarrow> string) \<Rightarrow> 'c propagator \<Rightarrow> 'c \<Rightarrow> table \<Rightarrow> 'c" where
  "ExtractTrace fmt_float p ctx headers =
     (case headers of None \<Rightarrow> ctx | Some h \<Rightarrow> pr_Extract p ctx (headerCarrier_Get fmt_float (Some h)))"

text \<open>\<open>TraceIDHex\<close>: the span context of a context is \<open>Some\<close> when it is valid.\<close>

definition TraceIDHex :: "('c \<Rightarrow> (string \<times> string) option) \<Rightarrow> 'c \<Rightarrow> string" where
  "TraceIDHex span_of ctx = (case span_of ctx of None \<Rightarrow> [] | Some (trace, span) \<Rightarrow> trace)"

section \<open>Spans\<close>

datatype span_kind = SpanInternal | SpanProducer | SpanConsumer

type_synonym ('c, 'span) tracer =
  "string \<Rightarrow> 'c \<Rightarrow> string \<Rightarrow> span_kind list \<Rightarrow> (string \<times> string) list \<Rightarrow> 'c \<times> 'span"

definition instrumentationName :: string where
  "instrumentationName = ''github.com/mehrdad-masoumi/go-packages/observability/tracing''"

definition Tracer_name :: "string \<Rightarrow> string" where
  "Tracer_name name = (if name = [] then instrumentationName else name)"

definition StartBusiness ::
    "('c, 'span) tracer \<Rightarrow> 'c \<Rightarrow> string \<Rightarrow> span_kind list \<Rightarrow> (string \<times> string) list \<Rightarrow> 'c \<times> 'span"
where
  "StartBusiness start ctx name kinds attrs =
     start (Tracer_name instrumentationName) ctx name (SpanInternal # kinds) attrs"

definition Start ::
    "('c, 'span) tracer \<Rightarrow> 'c \<Rightarrow> string \<Rightarrow> span_kind list \<Rightarrow> (string \<times> string) list \<Rightarrow> 'c \<times> 'span"
where
  "Start start ctx name kinds attrs = start (Tracer_name instrumentationName) ctx name kinds attrs"

datatype span_call = SpanRecordError goerr | SpanSetError string | SpanEnd

definition RecordError :: "'span option \<Rightarrow> goerr option \<Rightarrow> span_call list" where
  "RecordError span err =
     (case (span, err) of
        (Some s, Some e) \<Rightarrow> [SpanRecordError e, SpanSetError (err_text e)]
      | _ \<Rightarrow> [])"

definition endSpan :: "'span option \<Rightarrow> goerr option \<Rightarrow> span_call list" where
  "endSpan span err =
     (case span of
        None \<Rightarrow> []
      | Some s \<Rightarrow>
          (case err of None \<Rightarrow> [] | Some e \<Rightarrow> [SpanRecordError e, SpanSetError (err_text e)]) @ [SpanEnd])"

definition messageAttrs :: "string \<Rightarrow> string \<Rightarrow> string \<Rightarrow> (string \<times> string) list" where
  "messageAttrs exchange routingKey ope =
     [(''messaging.system'', ''rabbitmq''), (''messaging.operation'', ope)]
     @ (if exchange \<noteq> [] then [(''messaging.destination.name'', exchange)] else [])
     @ (if routingKey \<noteq> [] then [(''messaging.rabbitmq.destination.routing_key'', routingKey)] else [])"

definition producerSpanName :: "string \<Rightarrow> string \<Rightarrow> string" where
  "producerSpanName exchange routingKey =
     (if routingKey \<noteq> [] then ''publish '' @ routingKey
      else if exchange \<noteq> [] then ''publish '' @ exchange else ''publish'')"

definition consumerSpanName :: "string \<Rightarrow> string \<Rightarrow> string" where
  "consumerSpanName exchange routingKey =
     (if routingKey \<noteq> [] then ''process '' @ routingKey
      else if exchange \<noteq> [] then ''process '' @ exchange else ''process'')"

definition rabbit_tracer :: string where
  "rabbit_tracer = ''github.com/mehrdad-masoumi/go-packages/messaging/rabbitmq''"

definition startProducerSpan ::
    "('c, 'span) tracer \<Rightarrow> 'c propagator \<Rightarrow> 'c \<Rightarrow> string \<Rightarrow> string \<Rightarrow> table \<Rightarrow> 'c \<times> 'span \<times> table"
where
  "startProducerSpan start p ctx exchange routingKey headers =
     (case start (Tracer_name rabbit_tracer) ctx (producerSpanName exchange routingKey) [SpanProducer]
             (messageAttrs exchange routingKey ''publish'') of
        (ctx', span) \<Rightarrow> (ctx', span, InjectTrace p ctx' headers))"

definition StartConsumerSpan ::
    "('c, 'span) tracer \<Rightarrow> (float64 \<Rightarrow> string) \<Rightarrow> 'c propagator \<Rightarrow> 'c \<Rightarrow> string \<Rightarrow> string \<Rightarrow> string \<Rightarrow> table
       \<Rightarrow> 'c \<times> 'span"
where
  "StartConsumerSpan start fmt_float p ctx exchange routingKey queue headers =
     (let ctx = ExtractTrace fmt_float p ctx headers;
          attrs = messageAttrs exchange routingKey ''process''
            @ (if queue \<noteq> [] then [(''messaging.destination.name'', queue)] else [])
      in start (Tracer_name rabbit_tracer) ctx (consumerSpanName exchange routingKey) [SpanConsumer] attrs)"

section \<open>JSON bodies\<close>

text \<open>
  \<open>encoding/json\<close>: a body as a map of raw values (\<open>None\<close>: an error; \<open>Some None\<close>: the nil map of a
  body \<open>null\<close>), a body as an \<open>envelopeTrace\<close>, the raw value of a string, and the text of a map.
\<close>

record 'raw json_lib =
  jn_Object :: "string \<Rightarrow> (string \<times> 'raw) list option option"
  jn_Trace :: "string \<Rightarrow> (string \<times> string) option"
  jn_String :: "string \<Rightarrow> 'raw"
  jn_Marshal :: "(string \<times> 'raw) list \<Rightarrow> string option"

definition ExtractFromJSONCarrier :: "'raw json_lib \<Rightarrow> 'c propagator \<Rightarrow> 'c \<Rightarrow> string \<Rightarrow> 'c" where
  "ExtractFromJSONCarrier json p ctx b =
     (if b = [] then ctx
      else case jn_Trace json b of
             None \<Rightarrow> ctx
           | Some (tp, ts) \<Rightarrow>
               if tp = [] then ctx
               else ExtractMap p ctx (Some [(''traceparent'', tp), (''tracestate'', ts)]))"

text \<open>A write to the nil map is a panic: \<open>None\<close>.\<close>

definition put_raw :: "'raw json_lib \<Rightarrow> string \<Rightarrow> string \<Rightarrow> (string \<times> 'raw) list option
    \<Rightarrow> (string \<times> 'raw) list option option" where
  "put_raw json key value obj =
     (if value = [] then Some obj
      else case obj of
             None \<Rightarrow> None
           | Some m \<Rightarrow> Some (Some (AList.update key (jn_String json value) m)))"

definition InjectIntoJSONCarrier :: "'raw json_lib \<Rightarrow> 'c propagator \<Rightarrow> 'c \<Rightarrow> string \<Rightarrow> string option" where
  "InjectIntoJSONCarrier json p ctx b =
     (if b = [] then Some b
      else case jn_Object json b of
             None \<Rightarrow> Some b
           | Some obj \<Rightarrow>
               let c = InjectMap p ctx
               in (case put_raw json ''traceparent'' (MapCarrier_Get c ''traceparent'') obj of
                     None \<Rightarrow> None
                   | Some obj \<Rightarrow>
                       (case put_raw json ''tracestate'' (MapCarrier_Get c ''tracestate'') obj of
                          None \<Rightarrow> None
                        | Some obj \<Rightarrow>
                            Some (case obj of
                                    None \<Rightarrow> ''null''
                                  | Some m \<Rightarrow> (case jn_Marshal json m of None \<Rightarrow> b | Some out \<Rightarrow> out)))))"

section \<open>The contract of a carrier\<close>

text \<open>
  \<open>same k k'\<close> are keys the carrier does not tell apart; \<open>ok\<close> is a carrier that can be set.
\<close>

locale carrier =
  fixes get :: "'m \<Rightarrow> string \<Rightarrow> string" and put :: "string \<Rightarrow> string \<Rightarrow> 'm \<Rightarrow> 'm"
    and ok :: "'m \<Rightarrow> bool" and same :: "string \<Rightarrow> string \<Rightarrow> bool"
  assumes get_put: "ok m \<Longrightarrow> get (put k v m) k = v"
    and get_other: "ok m \<Longrightarrow> \<not> same k k' \<Longrightarrow> get (put k v m) k' = get m k'"
    and ok_put: "ok m \<Longrightarrow> ok (put k v m)"
begin

lemma ok_inject: "ok m \<Longrightarrow> ok (inject put fs m)"
  by (induction fs arbitrary: m) (auto simp: ok_put)

lemma inject_other: "ok m \<Longrightarrow> \<forall>(k', v)\<in>set fs. \<not> same k' k \<Longrightarrow> get (inject put fs m) k = get m k"
  by (induction fs arbitrary: m) (auto simp: ok_put get_other)

text \<open>A field that was set is read back, whatever was there before.\<close>

lemma inject_get:
  "ok m \<Longrightarrow> distinct (map fst fs) \<Longrightarrow> (k, v) \<in> set fs
    \<Longrightarrow> \<forall>(k', v')\<in>set fs. same k' k \<longrightarrow> k' = k \<Longrightarrow> get (inject put fs m) k = v"
proof (induction fs arbitrary: m)
  case (Cons f fs)
  obtain k1 v1 where f: "f = (k1, v1)" by (cases f)
  show ?case
  proof (cases "k1 = k")
    case True
    then have "v1 = v" using Cons.prems f by (auto simp: image_iff)
    moreover have "\<forall>(k', v')\<in>set fs. \<not> same k' k"
      using Cons.prems f True by force
    ultimately show ?thesis using f True Cons.prems(1) by (simp add: inject_other ok_put get_put)
  next
    case False
    then show ?thesis using Cons f by (auto simp: ok_put)
  qed
qed simp

end

text \<open>The fields a context sets in a carrier, empty for those it does not set.\<close>

definition field :: "'c propagator \<Rightarrow> 'c \<Rightarrow> string \<Rightarrow> string" where
  "field p ctx k = (case map_of (pr_Fields p ctx) k of None \<Rightarrow> [] | Some v \<Rightarrow> v)"

text \<open>
  What OpenTelemetry documents of a propagator: the fields it sets are among its keys, each once, and
  what it extracts depends only on what it reads at its keys, so that the fields of \<open>ctx\<close> give
  \<open>remote ctx0 ctx\<close>: the parent with the remote span context of \<open>ctx\<close>.
\<close>

definition propagates :: "('c \<Rightarrow> 'c \<Rightarrow> 'c) \<Rightarrow> 'c propagator \<Rightarrow> bool" where
  "propagates remote p \<longleftrightarrow>
     (\<forall>ctx. distinct (map fst (pr_Fields p ctx)) \<and> set (map fst (pr_Fields p ctx)) \<subseteq> set (pr_Keys p))
     \<and> (\<forall>ctx ctx0 get. (\<forall>k\<in>set (pr_Keys p). get k = field p ctx k)
          \<longrightarrow> pr_Extract p ctx0 get = remote ctx0 ctx)"

context carrier
begin

text \<open>After an injection the carrier reads as the fields, if it had none of the keys before.\<close>

lemma read_inject:
  assumes "propagates remote p" and "ok m" and "\<forall>k\<in>set (pr_Keys p). get m k = []"
    and "\<forall>k\<in>set (pr_Keys p). \<forall>k'\<in>set (pr_Keys p). same k k' \<longrightarrow> k = k'"
    and "k \<in> set (pr_Keys p)"
  shows "get (inject put (pr_Fields p ctx) m) k = field p ctx k"
proof -
  have d: "distinct (map fst (pr_Fields p ctx))" and sub: "set (map fst (pr_Fields p ctx)) \<subseteq> set (pr_Keys p)"
    using assms(1) by (auto simp: propagates_def)
  show ?thesis
  proof (cases "map_of (pr_Fields p ctx) k")
    case None
    then have "k \<notin> set (map fst (pr_Fields p ctx))" by (simp add: map_of_eq_None_iff)
    then have "\<forall>(k', v)\<in>set (pr_Fields p ctx). \<not> same k' k"
      using assms(4,5) sub by force
    then show ?thesis using inject_other [OF assms(2)] None assms(3,5) by (simp add: field_def)
  next
    case (Some v)
    then have "(k, v) \<in> set (pr_Fields p ctx)" by (rule map_of_SomeD)
    moreover have "\<forall>(k', v')\<in>set (pr_Fields p ctx). same k' k \<longrightarrow> k' = k"
      using assms(4,5) sub by force
    ultimately show ?thesis using inject_get [OF assms(2) d] Some by (simp add: field_def)
  qed
qed

end

interpretation map_carrier: carrier MapCarrier_Get MapCarrier_Set "\<lambda>m. m \<noteq> None" "(=)"
  by unfold_locales (auto simp: MapCarrier_Get_def MapCarrier_Set_def update_conv')

interpretation amqp: carrier "headerCarrier_Get fmt_float" headerCarrier_Set "\<lambda>m. m \<noteq> None" "(=)"
  for fmt_float
  by unfold_locales (auto simp: headerCarrier_Get_def headerCarrier_Set_def header_value_def)

interpretation http: carrier HeaderCarrier_Get HeaderCarrier_Set "\<lambda>m. True"
    "\<lambda>k k'. canonical_key k = canonical_key k'"
  by unfold_locales (auto simp: HeaderCarrier_Get_def HeaderCarrier_Set_def update_conv')

section \<open>Traces across processes\<close>

lemma inject_keeps:
  "k \<notin> set (map fst fs) \<Longrightarrow> m \<noteq> None
     \<Longrightarrow> header_value (inject headerCarrier_Set fs m) k = header_value m k"
proof (induction fs arbitrary: m)
  case (Cons f fs)
  obtain k1 v1 where f: "f = (k1, v1)" by (cases f)
  have "headerCarrier_Set k1 v1 m \<noteq> None" using Cons.prems by (simp add: headerCarrier_Set_def)
  moreover have "header_value (headerCarrier_Set k1 v1 m) k = header_value m k"
    using Cons.prems f by (auto simp: headerCarrier_Set_def header_value_def)
  ultimately show ?case using Cons f by simp
qed simp

text \<open>The table \<open>InjectTrace\<close> works on.\<close>

definition non_nil :: "table \<Rightarrow> table" where
  "non_nil h = (case h of None \<Rightarrow> Some Map.empty | Some m \<Rightarrow> Some m)"

lemma non_nil_some: "non_nil h \<noteq> None"
  by (simp add: non_nil_def split: option.split)

lemma InjectTrace_alt: "InjectTrace p ctx h = inject headerCarrier_Set (pr_Fields p ctx) (non_nil h)"
  by (simp add: InjectTrace_def non_nil_def)

lemma injected_some: "InjectTrace p ctx h \<noteq> None"
  using amqp.ok_inject [OF non_nil_some] by (simp add: InjectTrace_alt)

lemma injected_read:
  assumes "propagates remote p" and "\<forall>k\<in>set (pr_Keys p). header_value h k = None"
    and "k \<in> set (pr_Keys p)"
  shows "headerCarrier_Get fmt_float (InjectTrace p ctx h) k = field p ctx k"
proof -
  have "\<forall>k\<in>set (pr_Keys p). headerCarrier_Get fmt_float (non_nil h) k = []"
    using assms(2) by (auto simp: headerCarrier_Get_def header_value_def non_nil_def split: option.splits)
  from amqp.read_inject [OF assms(1) non_nil_some this _ assms(3)] show ?thesis
    by (simp add: InjectTrace_alt)
qed

lemma trace_read:
  assumes "propagates remote p" and "h \<noteq> None"
    and "\<And>k. k \<in> set (pr_Keys p) \<Longrightarrow> headerCarrier_Get fmt_float h k = field p ctx k"
  shows "ExtractTrace fmt_float p ctx0 h = remote ctx0 ctx"
  using assms by (auto simp: propagates_def ExtractTrace_def)

lemma retry_some: "WithAttempt h n \<noteq> None"
  by (simp add: WithAttempt_def)

lemma retry_read: "k \<noteq> Header \<Longrightarrow> headerCarrier_Get fmt_float (WithAttempt h n) k = headerCarrier_Get fmt_float h k"
  by (simp add: headerCarrier_Get_def header_WithAttempt)

text \<open>
  C21. A trace crosses the queue, and survives a retry: what the consumer extracts from the headers the
  producer injected, also after the retry policy has stored a count in them, is the parent context with
  the producer's span as its remote span; every other header is as it was.
\<close>

theorem trace_crosses_queue:
  assumes "propagates remote p" and "\<forall>k\<in>set (pr_Keys p). header_value headers k = None"
    and "Header \<notin> set (pr_Keys p)"
  shows "ExtractTrace fmt_float p ctx0 (WithAttempt (InjectTrace p ctx headers) n) = remote ctx0 ctx
    \<and> ExtractTrace fmt_float p ctx0 (InjectTrace p ctx headers) = remote ctx0 ctx
    \<and> (\<forall>k. k \<notin> set (pr_Keys p) \<longrightarrow> header_value (InjectTrace p ctx headers) k = header_value headers k)"
proof (intro conjI allI impI)
  note read = injected_read [OF assms(1,2)]
  show "ExtractTrace fmt_float p ctx0 (InjectTrace p ctx headers) = remote ctx0 ctx"
    using trace_read [OF assms(1) injected_some read] .
  have "headerCarrier_Get fmt_float (WithAttempt (InjectTrace p ctx headers) n) k = field p ctx k"
    if "k \<in> set (pr_Keys p)" for k
    using that assms(3) read [OF that] retry_read [of k] by metis
  then show "ExtractTrace fmt_float p ctx0 (WithAttempt (InjectTrace p ctx headers) n) = remote ctx0 ctx"
    using trace_read [OF assms(1) retry_some] by blast
next
  fix k assume "k \<notin> set (pr_Keys p)"
  then have "k \<notin> set (map fst (pr_Fields p ctx))" using assms(1) by (auto simp: propagates_def)
  then show "header_value (InjectTrace p ctx headers) k = header_value headers k"
    by (simp add: InjectTrace_alt inject_keeps non_nil_some)
      (simp add: non_nil_def header_value_def split: option.split)
qed

definition demo_propagator :: "string propagator" where
  "demo_propagator =
     \<lparr>pr_Keys = [''traceparent'', ''tracestate''],
      pr_Fields = (\<lambda>ctx. if ctx = [] then [] else [(''traceparent'', ctx)]),
      pr_Extract = (\<lambda>ctx0 get. get ''traceparent'')\<rparr>"

lemma demo_propagates: "propagates (\<lambda>ctx0 ctx. ctx) demo_propagator"
  by (auto simp: propagates_def demo_propagator_def field_def)

theorem trace_crosses_queue_witness:
  "ExtractTrace (\<lambda>x. []) demo_propagator [] (WithAttempt (InjectTrace demo_propagator ''00-ab-cd-01'' None) 1)
     = ''00-ab-cd-01''"
proof -
  have "\<forall>k\<in>set (pr_Keys demo_propagator). header_value None k = None" by (simp add: header_value_def)
  moreover have "Header \<notin> set (pr_Keys demo_propagator)" by (simp add: demo_propagator_def Header_def)
  ultimately show ?thesis using trace_crosses_queue [OF demo_propagates] by blast
qed

text \<open>
  What \<open>encoding/json\<close> promises: a map without case variants of the two names, written as text and read
  as an \<open>envelopeTrace\<close>, gives the strings stored under them (empty for a missing \<open>tracestate\<close>).
\<close>

definition trace_variant :: "string \<Rightarrow> bool" where
  "trace_variant k \<longleftrightarrow> equal_fold k ''traceparent'' \<or> equal_fold k ''tracestate''"

definition json_ok :: "'raw json_lib \<Rightarrow> bool" where
  "json_ok json \<longleftrightarrow>
     (\<forall>m out tp ts. jn_Marshal json m = Some out
        \<and> (\<forall>k\<in>fst ` set m. trace_variant k \<longrightarrow> k \<in> {''traceparent'', ''tracestate''})
        \<and> map_of m ''traceparent'' = Some (jn_String json tp)
        \<and> map_of m ''tracestate'' = (if ts = [] then None else Some (jn_String json ts))
        \<longrightarrow> out \<noteq> [] \<and> jn_Trace json out = Some (tp, ts))"

definition stored :: "'raw json_lib \<Rightarrow> 'c propagator \<Rightarrow> 'c \<Rightarrow> (string \<times> 'raw) list \<Rightarrow> (string \<times> 'raw) list" where
  "stored json p ctx m =
     (let m = AList.update ''traceparent'' (jn_String json (field p ctx ''traceparent'')) m
      in if field p ctx ''tracestate'' = [] then m
         else AList.update ''tracestate'' (jn_String json (field p ctx ''tracestate'')) m)"

lemma map_read:
  assumes "propagates remote p" and "k \<in> set (pr_Keys p)"
  shows "MapCarrier_Get (InjectMap p ctx) k = field p ctx k"
  unfolding InjectMap_def
  by (rule map_carrier.read_inject [OF assms(1) _ _ _ assms(2)]) (simp_all add: MapCarrier_Get_def)

lemma inject_json:
  assumes "propagates remote p" and "{''traceparent'', ''tracestate''} \<subseteq> set (pr_Keys p)"
    and "b \<noteq> []" and "jn_Object json b = Some obj" and "field p ctx ''traceparent'' \<noteq> []"
  shows "InjectIntoJSONCarrier json p ctx b =
    (case obj of
       None \<Rightarrow> None
     | Some m \<Rightarrow> Some (case jn_Marshal json (stored json p ctx m) of None \<Rightarrow> b | Some out \<Rightarrow> out))"
  using assms map_read [OF assms(1), of _ ctx]
  by (auto simp: InjectIntoJSONCarrier_def put_raw_def stored_def Let_def split: option.split)

text \<open>
  A trace travels in an event's JSON body: what is extracted from a JSON object into which the
  context was injected is the parent context with the producer's span as remote span, for a context
  that sets no other field, such as baggage, and an object without trace fields of its own.
\<close>

theorem json_trace_roundtrip:
  assumes "propagates remote p" and "{''traceparent'', ''tracestate''} \<subseteq> set (pr_Keys p)"
    and "\<forall>k\<in>set (pr_Keys p). k \<notin> {''traceparent'', ''tracestate''} \<longrightarrow> field p ctx k = []"
    and "json_ok json" and "b \<noteq> []" and "jn_Object json b = Some (Some m)"
    and "field p ctx ''traceparent'' \<noteq> []"
    and "\<forall>k\<in>fst ` set m. \<not> trace_variant k" and "jn_Marshal json (stored json p ctx m) = Some out"
  shows "InjectIntoJSONCarrier json p ctx b = Some out
    \<and> ExtractFromJSONCarrier json p ctx0 out = remote ctx0 ctx"
proof
  show "InjectIntoJSONCarrier json p ctx b = Some out"
    using inject_json [OF assms(1,2,5,6,7)] assms(9) by simp
  have none: "map_of m ''tracestate'' = None" "map_of m ''traceparent'' = None"
    using assms(8) by (auto simp: trace_variant_def map_of_eq_None_iff)
  let ?m = "stored json p ctx m"
  have "fst ` set ?m \<subseteq> fst ` set m \<union> {''traceparent'', ''tracestate''}"
    by (auto simp: stored_def Let_def update_conv' simp flip: dom_map_of_conv_image_fst split: if_splits)
  then have var: "\<forall>k\<in>fst ` set ?m. trace_variant k \<longrightarrow> k \<in> {''traceparent'', ''tracestate''}"
    using assms(8) by blast
  have "map_of ?m ''traceparent'' = Some (jn_String json (field p ctx ''traceparent''))"
    "map_of ?m ''tracestate'' = (if field p ctx ''tracestate'' = [] then None
        else Some (jn_String json (field p ctx ''tracestate'')))"
    using none by (simp_all add: stored_def Let_def update_conv')
  with assms(4,9) var have out: "out \<noteq> []"
    "jn_Trace json out = Some (field p ctx ''traceparent'', field p ctx ''tracestate'')"
    unfolding json_ok_def by blast+
  let ?c = "Some [(''traceparent'', field p ctx ''traceparent''), (''tracestate'', field p ctx ''tracestate'')]"
  have "\<forall>k\<in>set (pr_Keys p). MapCarrier_Get ?c k = field p ctx k"
    using assms(3) by (auto simp: MapCarrier_Get_def)
  then have "ExtractMap p ctx0 ?c = remote ctx0 ctx"
    using assms(1) by (simp add: ExtractMap_def propagates_def)
  with out assms(7) show "ExtractFromJSONCarrier json p ctx0 out = remote ctx0 ctx"
    by (simp add: ExtractFromJSONCarrier_def)
qed

text \<open>A toy JSON whose objects hold nothing but strings, for examples.\<close>

definition demo_json :: "string json_lib" where
  "demo_json =
     \<lparr>jn_Object = (\<lambda>b. if b = ''null'' then Some None else if b = ''{}'' then Some (Some []) else None),
      jn_Trace = (\<lambda>b. if b = [] then None else Some (tl b, [])), jn_String = id,
      jn_Marshal = (\<lambda>m. case map_of m ''traceparent'' of
         Some v \<Rightarrow> (if map_of m ''tracestate'' = None then Some (CHR ''t'' # v) else None) | None \<Rightarrow> None)\<rparr>"

lemma demo_json_ok: "json_ok demo_json"
  by (auto simp: json_ok_def demo_json_def split: option.splits if_splits)

theorem json_trace_roundtrip_witness:
  "InjectIntoJSONCarrier demo_json demo_propagator ''00-ab'' ''{}'' = Some ''t00-ab''
   \<and> ExtractFromJSONCarrier demo_json demo_propagator [] ''t00-ab'' = ''00-ab''"
proof (rule json_trace_roundtrip [OF demo_propagates _ _ demo_json_ok, where m = "[]"])
  show "jn_Marshal demo_json (stored demo_json demo_propagator ''00-ab'' []) = Some ''t00-ab''"
    by (simp add: demo_json_def stored_def field_def demo_propagator_def)
qed (simp_all add: demo_json_def field_def demo_propagator_def)

text \<open>
  A body that is the JSON \<open>null\<close> brings the process down: it decodes into a nil map without an error,
  and injecting an active span writes to that map.
\<close>

theorem null_body_panics:
  assumes "propagates remote p" and "{''traceparent'', ''tracestate''} \<subseteq> set (pr_Keys p)"
    and "jn_Object json ''null'' = Some None" and "field p ctx ''traceparent'' \<noteq> []"
  shows "InjectIntoJSONCarrier json p ctx ''null'' = None"
  using inject_json [OF assms(1,2) _ assms(3,4)] by simp

theorem null_body_panics_witness:
  "InjectIntoJSONCarrier demo_json demo_propagator ''00-ab'' ''null'' = None"
  by (rule null_body_panics [OF demo_propagates]) (simp_all add: demo_json_def field_def demo_propagator_def)

end
