(* ===== verification/Tracer.thy ===== *)
theory Tracer
  imports Go_Errors Go_Float
begin

text \<open>
  \<open>observability/tracing/tracer.go\<close>: the process-wide tracer provider.

  The state is what the package and OpenTelemetry keep: the variable \<open>provider\<close>, the installed global
  provider, whether the propagator is set, the open gRPC connections and the providers that were shut
  down. A provider has the number of the connection its exporter writes to. The environment, the host
  name, \<open>fmt.Sscanf\<close> and the constructors of the libraries are the record \<open>tracer_env\<close>.
\<close>

section \<open>Configuration\<close>

record tracer_config =
  tg_Enabled :: "bool option"
  tg_ServiceName :: string
  tg_Endpoint :: string
  tg_Environment :: string
  tg_ServiceVersion :: string
  tg_InstanceID :: string
  tg_SampleRatio :: "go_float option"

record tracer_env =
  tn_Getenv :: "string \<Rightarrow> string"
  tn_Hostname :: string
  tn_Sscanf :: "string \<Rightarrow> go_float option"
  tn_Resource :: "(string \<times> string) list \<Rightarrow> goerr option"
  tn_Dial :: "string \<Rightarrow> goerr option"
  tn_Exporter :: "string \<Rightarrow> goerr option"
  tn_Shutdown :: "nat \<Rightarrow> goerr option"

definition isEnabled :: "tracer_env \<Rightarrow> tracer_config \<Rightarrow> bool" where
  "isEnabled env cfg =
     (case tg_Enabled cfg of
        Some b \<Rightarrow> b
      | None \<Rightarrow> \<not> equal_fold (trim_space (tn_Getenv env ''OTEL_SDK_DISABLED'')) ''true'')"

definition stripOTLPScheme :: "string \<Rightarrow> string" where
  "stripOTLPScheme endpoint =
     trim_prefix (trim_prefix (trim_prefix (trim_space endpoint) ''http://'') ''https://'') ''grpc://''"

fun firstNonEmpty :: "string list \<Rightarrow> string" where
  "firstNonEmpty [] = []"
| "firstNonEmpty (v # vs) = (if trim_space v \<noteq> [] then trim_space v else firstNonEmpty vs)"

definition resource_attribute :: "string \<Rightarrow> (string \<times> string) option" where
  "resource_attribute part0 =
     (let part = trim_space part0
      in if part = [] then None
         else case cut_at CHR ''='' part of
                None \<Rightarrow> None
              | Some (k, v) \<Rightarrow>
                  if trim_space k = [] then None else Some (trim_space k, trim_space v))"

definition parseResourceAttributes :: "string \<Rightarrow> (string \<times> string) list" where
  "parseResourceAttributes raw0 =
     (let raw = trim_space raw0
      in if raw = [] then [] else List.map_filter resource_attribute (split_on CHR '','' raw))"

definition sample_ratio :: "tracer_env \<Rightarrow> tracer_config \<Rightarrow> go_float" where
  "sample_ratio env cfg =
     (let v = trim_space (tn_Getenv env ''OTEL_TRACES_SAMPLER_ARG'');
          ratio = (case tg_SampleRatio cfg of
                     Some r \<Rightarrow> r
                   | None \<Rightarrow>
                       if v \<noteq> [] then (case tn_Sscanf env v of Some r \<Rightarrow> r | None \<Rightarrow> Some 1) else Some 1);
          ratio = (if f_less ratio (Some 0) then Some 0 else ratio)
      in if f_less (Some 1) ratio then Some 1 else ratio)"

definition init_endpoint :: "tracer_env \<Rightarrow> tracer_config \<Rightarrow> string" where
  "init_endpoint env cfg =
     stripOTLPScheme
       (firstNonEmpty [tg_Endpoint cfg, tn_Getenv env ''OTEL_EXPORTER_OTLP_ENDPOINT'', ''infra-jaeger:4317''])"

definition init_attributes :: "tracer_env \<Rightarrow> tracer_config \<Rightarrow> (string \<times> string) list" where
  "init_attributes env cfg =
     (let serviceName = firstNonEmpty [tg_ServiceName cfg, tn_Getenv env ''OTEL_SERVICE_NAME'',
                          tn_Getenv env ''SERVICE_NAME'', ''unknown-service''];
          environment = firstNonEmpty [tg_Environment cfg, tn_Getenv env ''ENVIRONMENT'',
                          tn_Getenv env ''APP_ENV'', ''development''];
          version = firstNonEmpty [tg_ServiceVersion cfg, tn_Getenv env ''SERVICE_VERSION'',
                      tn_Getenv env ''OTEL_SERVICE_VERSION''];
          instanceID = firstNonEmpty [tg_InstanceID cfg, tn_Getenv env ''HOSTNAME''];
          instanceID = (if instanceID = [] then tn_Hostname env else instanceID)
      in [(''service.name'', serviceName), (''deployment.environment'', environment)]
         @ (if version \<noteq> [] then [(''service.version'', version)] else [])
         @ (if instanceID \<noteq> [] then [(''service.instance.id'', instanceID)] else [])
         @ parseResourceAttributes (tn_Getenv env ''OTEL_RESOURCE_ATTRIBUTES''))"

section \<open>Initialization and shutdown\<close>

record tracer_state =
  tp_next :: nat
  tp_provider :: "nat option"
  tp_global :: "nat option"
  tp_propagator :: bool
  tp_conns :: "nat list"
  tp_shut :: "nat list"
  tp_ratios :: "(nat \<times> go_float) list"

datatype shutdown = NoShutdown | ShutdownProvider

definition tracer_Init ::
    "tracer_env \<Rightarrow> tracer_config \<Rightarrow> tracer_state \<Rightarrow> (goerr + shutdown) \<times> tracer_state"
where
  "tracer_Init env cfg s =
     (if \<not> isEnabled env cfg then (Inr NoShutdown, s\<lparr>tp_propagator := True\<rparr>)
      else let endpoint = init_endpoint env cfg; n = tp_next s
      in case tn_Resource env (init_attributes env cfg) of
           Some err \<Rightarrow> (Inl (EWrap ''tracing resource: '' err), s)
         | None \<Rightarrow>
      (case tn_Dial env endpoint of
           Some err \<Rightarrow> (Inl (EWrap (''tracing otlp dial '' @ endpoint @ '': '') err), s)
         | None \<Rightarrow>
             let s = s\<lparr>tp_next := n + 1, tp_conns := n # tp_conns s\<rparr>
             in (case tn_Exporter env endpoint of
                   Some err \<Rightarrow>
                     (Inl (EWrap ''tracing otlp exporter: '' err), s\<lparr>tp_conns := remove1 n (tp_conns s)\<rparr>)
                 | None \<Rightarrow>
                     let s = s\<lparr>tp_ratios := (n, sample_ratio env cfg) # tp_ratios s\<rparr>
                     in if tp_provider s \<noteq> None
                        then (Inl (EText ''tracing already initialized''),
                              s\<lparr>tp_shut := n # tp_shut s, tp_conns := remove1 n (tp_conns s)\<rparr>)
                        else (Inr ShutdownProvider,
                              s\<lparr>tp_provider := Some n, tp_global := Some n, tp_propagator := True\<rparr>))))"

definition tracer_shutdown ::
    "tracer_env \<Rightarrow> shutdown \<Rightarrow> tracer_state \<Rightarrow> goerr option \<times> tracer_state"
where
  "tracer_shutdown env f s =
     (case f of
        NoShutdown \<Rightarrow> (None, s)
      | ShutdownProvider \<Rightarrow>
          let p = tp_provider s; s = s\<lparr>tp_provider := None\<rparr>
          in (case p of
                None \<Rightarrow> (None, s)
              | Some n \<Rightarrow> (tn_Shutdown env n, s\<lparr>tp_shut := n # tp_shut s\<rparr>)))"

section \<open>One provider\<close>

inductive tracer_step :: "tracer_env \<Rightarrow> tracer_state \<Rightarrow> tracer_state \<Rightarrow> bool" for env where
  initialized: "tracer_Init env cfg s = (r, s') \<Longrightarrow> tracer_step env s s'"
| shut_down: "tracer_shutdown env f s = (e, s') \<Longrightarrow> tracer_step env s s'"

definition tracer_start :: tracer_state where
  "tracer_start =
     \<lparr>tp_next = 0, tp_provider = None, tp_global = None, tp_propagator = False, tp_conns = [],
      tp_shut = [], tp_ratios = []\<rparr>"

definition good_ratio :: "go_float \<Rightarrow> bool" where
  "good_ratio r = (case r of None \<Rightarrow> True | Some x \<Rightarrow> 0 \<le> x \<and> x \<le> 1)"

lemma sample_ratio_good: "good_ratio (sample_ratio env cfg)"
  by (auto simp: sample_ratio_def good_ratio_def f_less_def Let_def split: option.split)

definition tracer_inv :: "tracer_state \<Rightarrow> bool" where
  "tracer_inv s \<longleftrightarrow>
     pred_option (\<lambda>p. tp_global s = Some p \<and> p \<notin> set (tp_shut s) \<and> p \<in> set (tp_conns s)
                    \<and> tp_propagator s) (tp_provider s)
     \<and> (\<forall>n\<in>set (tp_conns s) \<union> set (tp_shut s). n < tp_next s)
     \<and> distinct (tp_conns s) \<and> list_all (\<lambda>(n, r). good_ratio r) (tp_ratios s)"

lemma Init_cases:
  assumes "tracer_Init env cfg s = (r, s')"
  shows "(r = Inr NoShutdown \<and> \<not> isEnabled env cfg \<and> s' = s\<lparr>tp_propagator := True\<rparr>)
    \<or> (\<exists>e. r = Inl e \<and> (s' = s \<or> s' = s\<lparr>tp_next := tp_next s + 1\<rparr>
         \<or> (tp_provider s \<noteq> None \<and> e = EText ''tracing already initialized''
            \<and> s' = s\<lparr>tp_next := tp_next s + 1, tp_ratios := (tp_next s, sample_ratio env cfg) # tp_ratios s,
                    tp_shut := tp_next s # tp_shut s\<rparr>)))
    \<or> (r = Inr ShutdownProvider \<and> tp_provider s = None
       \<and> s' = s\<lparr>tp_next := tp_next s + 1, tp_ratios := (tp_next s, sample_ratio env cfg) # tp_ratios s,
               tp_conns := tp_next s # tp_conns s, tp_provider := Some (tp_next s),
               tp_global := Some (tp_next s), tp_propagator := True\<rparr>)"
  using assms by (auto simp: tracer_Init_def Let_def split: if_splits option.splits)

text \<open>What each outcome of \<open>Init\<close> does to the state keeps the invariant.\<close>

lemma inv_next: "tracer_inv s \<Longrightarrow> tracer_inv (s\<lparr>tp_next := tp_next s + 1\<rparr>)"
  by (cases "tp_provider s") (auto simp: tracer_inv_def intro: less_SucI)

lemma inv_refused:
  "tracer_inv s \<Longrightarrow> good_ratio x \<Longrightarrow>
     tracer_inv (s\<lparr>tp_next := tp_next s + 1, tp_ratios := (tp_next s, x) # tp_ratios s,
                  tp_shut := tp_next s # tp_shut s\<rparr>)"
  by (cases "tp_provider s") (auto simp: tracer_inv_def intro: less_SucI)

lemma inv_installed:
  "tracer_inv s \<Longrightarrow> good_ratio x \<Longrightarrow>
     tracer_inv (s\<lparr>tp_next := tp_next s + 1, tp_ratios := (tp_next s, x) # tp_ratios s,
                  tp_conns := tp_next s # tp_conns s, tp_provider := Some (tp_next s),
                  tp_global := Some (tp_next s), tp_propagator := True\<rparr>)"
  by (auto simp: tracer_inv_def intro: less_SucI)

lemma inv_propagator: "tracer_inv s \<Longrightarrow> tracer_inv (s\<lparr>tp_propagator := True\<rparr>)"
  by (cases "tp_provider s") (auto simp: tracer_inv_def)

lemma step_inv: "tracer_step env s s' \<Longrightarrow> tracer_inv s \<Longrightarrow> tracer_inv s'"
proof (induction rule: tracer_step.induct)
  case (initialized cfg s r s')
  from Init_cases [OF this(1)] show ?case
    using initialized(2) sample_ratio_good [of env cfg]
    by (elim disjE exE conjE) (auto simp only: inv_next inv_refused inv_installed inv_propagator)
next
  case (shut_down f s e s')
  then show ?case
    by (cases f; cases "tp_provider s") (auto simp: tracer_shutdown_def tracer_inv_def Let_def)
qed

lemma reach_inv: "(tracer_step env)\<^sup>*\<^sup>* tracer_start s \<Longrightarrow> tracer_inv s"
proof (induction rule: rtranclp_induct)
  case base
  show ?case by (simp add: tracer_start_def tracer_inv_def)
qed (rule step_inv)

text \<open>
  C28. After any sequence of \<open>Init\<close> and shutdown calls the package's provider, if there is one, is the
  installed global one, has not been shut down and has an open connection; the sampling ratio of every
  provider ever built is between 0 and 1 unless it was configured as not a number; and an \<open>Init\<close> that
  fails leaves the provider, the global provider and the open connections as they were.
\<close>

theorem one_live_provider:
  assumes "(tracer_step env)\<^sup>*\<^sup>* tracer_start s" and "tracer_Init env cfg s = (r, s')"
  shows "(case tp_provider s' of
            None \<Rightarrow> True
          | Some p \<Rightarrow> tp_global s' = Some p \<and> p \<notin> set (tp_shut s') \<and> p \<in> set (tp_conns s'))
    \<and> (\<forall>(n, x)\<in>set (tp_ratios s'). good_ratio x)
    \<and> (case r of
         Inl e \<Rightarrow> tp_provider s' = tp_provider s \<and> tp_global s' = tp_global s \<and> tp_conns s' = tp_conns s
       | Inr f \<Rightarrow> f = ShutdownProvider \<longrightarrow> tp_provider s = None \<and> tp_provider s' \<noteq> None)"
proof -
  have "tracer_inv s'" using step_inv [OF initialized [OF assms(2)] reach_inv [OF assms(1)]] .
  then have "case tp_provider s' of
            None \<Rightarrow> True
          | Some p \<Rightarrow> tp_global s' = Some p \<and> p \<notin> set (tp_shut s') \<and> p \<in> set (tp_conns s')"
    and "\<forall>(n, x)\<in>set (tp_ratios s'). good_ratio x"
    by (auto simp: tracer_inv_def list_all_iff split: option.split)
  moreover have "case r of
         Inl e \<Rightarrow> tp_provider s' = tp_provider s \<and> tp_global s' = tp_global s \<and> tp_conns s' = tp_conns s
       | Inr f \<Rightarrow> f = ShutdownProvider \<longrightarrow> tp_provider s = None \<and> tp_provider s' \<noteq> None"
    using Init_cases [OF assms(2)] by auto
  ultimately show ?thesis by blast
qed

definition demo_tracer_env :: tracer_env where
  "demo_tracer_env =
     \<lparr>tn_Getenv = (\<lambda>k. []), tn_Hostname = ''h'', tn_Sscanf = (\<lambda>s. None), tn_Resource = (\<lambda>a. None),
      tn_Dial = (\<lambda>e. None), tn_Exporter = (\<lambda>e. None), tn_Shutdown = (\<lambda>n. None)\<rparr>"

definition demo_tracer_cfg :: tracer_config where
  "demo_tracer_cfg =
     \<lparr>tg_Enabled = Some True, tg_ServiceName = ''svc'', tg_Endpoint = [], tg_Environment = [],
      tg_ServiceVersion = [], tg_InstanceID = [], tg_SampleRatio = Some (Some 2)\<rparr>"

lemma demo_init:
  "\<exists>s. tracer_Init demo_tracer_env demo_tracer_cfg tracer_start = (Inr ShutdownProvider, s)
     \<and> tp_provider s = Some 0 \<and> tp_conns s = [0]"
  by (simp add: tracer_Init_def isEnabled_def demo_tracer_env_def demo_tracer_cfg_def tracer_start_def Let_def)

theorem one_live_provider_witness:
  "\<exists>s. tracer_Init demo_tracer_env demo_tracer_cfg tracer_start = (Inr ShutdownProvider, s)
     \<and> tp_global s = Some 0 \<and> (\<forall>(n, x)\<in>set (tp_ratios s). good_ratio x)"
proof -
  obtain s where i: "tracer_Init demo_tracer_env demo_tracer_cfg tracer_start = (Inr ShutdownProvider, s)"
    and p: "tp_provider s = Some 0" using demo_init by blast
  from one_live_provider [OF rtranclp.rtrancl_refl i] p i show ?thesis by auto
qed

text \<open>
  Shutting down does not close the connection of the exporter: after an \<open>Init\<close> that installed a
  provider and its shutdown, one more connection is open than before, however often this is repeated.
\<close>

theorem shutdown_leaks_connection:
  assumes "tracer_Init env cfg s = (Inr ShutdownProvider, s1)"
    and "tracer_shutdown env ShutdownProvider s1 = (e, s2)"
  shows "tp_provider s2 = None \<and> tp_conns s2 = tp_next s # tp_conns s"
  using assms Init_cases [OF assms(1)] by (auto simp: tracer_shutdown_def Let_def)

theorem shutdown_leaks_connection_witness:
  "\<exists>s1 e s2. tracer_Init demo_tracer_env demo_tracer_cfg tracer_start = (Inr ShutdownProvider, s1)
     \<and> tracer_shutdown demo_tracer_env ShutdownProvider s1 = (e, s2) \<and> tp_conns s2 = [0]"
proof -
  obtain s1 where i: "tracer_Init demo_tracer_env demo_tracer_cfg tracer_start = (Inr ShutdownProvider, s1)"
    using demo_init by blast
  obtain e s2 where d: "tracer_shutdown demo_tracer_env ShutdownProvider s1 = (e, s2)" by fastforce
  from shutdown_leaks_connection [OF i d] i d show ?thesis by (auto simp: tracer_start_def)
qed

end
