(* ===== verification/Postgres.thy ===== *)
theory Postgres
  imports Go_Errors
begin

text \<open>
  \<open>postgres/connection/connection.go\<close> and \<open>postgres/migration/migration.go\<close>: opening a pool,
  creating the database of a DSN, running migrations.

  \<open>database/sql\<close>, the drivers and the server are functions of the record \<open>pg_env\<close> on a world; the
  package's \<open>registerOnce\<close> and \<open>driverName\<close>, and the number of pools open, are \<open>pg_state\<close>.
\<close>

section \<open>DSN fields\<close>

definition is_dbname :: "string \<Rightarrow> bool" where
  "is_dbname part = has_prefix part ''dbname=''"

fun first_dbname :: "string list \<Rightarrow> string" where
  "first_dbname [] = []"
| "first_dbname (p # ps) = (if is_dbname p then trim_prefix p ''dbname='' else first_dbname ps)"

definition extractDBName :: "string \<Rightarrow> string" where
  "extractDBName dsn = first_dbname (Go_Prelude.fields dsn)"

definition replaceDBName :: "string \<Rightarrow> string \<Rightarrow> string" where
  "replaceDBName dsn name =
     join_with '' '' (map (\<lambda>p. if is_dbname p then ''dbname='' @ name else p) (Go_Prelude.fields dsn))"

section \<open>Pools\<close>

record pg_config =
  pc_DSN :: string
  pc_MaxOpenConns :: int
  pc_MaxIdleConns :: int
  pc_ConnMaxLifetime :: int
  pc_ConnMaxIdleTime :: int
  pc_PingTimeout :: int

record pg_db =
  db_driver :: string
  db_dsn :: string
  db_maxOpen :: int
  db_maxIdle :: int
  db_maxLifetime :: "int option"
  db_maxIdleTime :: "int option"

record pg_state =
  ps_registered :: bool
  ps_driverName :: string
  ps_open :: nat

record 'w pg_env =
  pe_Register :: "goerr + string"
  pe_Open :: "string \<Rightarrow> string \<Rightarrow> goerr option"
  pe_Ping :: "string \<Rightarrow> int \<Rightarrow> goerr option"
  pe_Exists :: "string \<Rightarrow> string \<Rightarrow> 'w \<Rightarrow> (goerr + bool) \<times> 'w"
  pe_Exec :: "string \<Rightarrow> string \<Rightarrow> 'w \<Rightarrow> goerr option \<times> 'w"
  pe_QuoteIdentifier :: "string \<Rightarrow> string"

definition pg_start :: pg_state where
  "pg_start = \<lparr>ps_registered = False, ps_driverName = ''postgres'', ps_open = 0\<rparr>"

text \<open>The error it returns is always nil.\<close>

definition instrumentedDriver :: "'w pg_env \<Rightarrow> pg_state \<Rightarrow> string \<times> pg_state" where
  "instrumentedDriver env s =
     (let s = (if ps_registered s then s
               else (case pe_Register env of
                       Inl err \<Rightarrow> s\<lparr>ps_registered := True, ps_driverName := ''postgres''\<rparr>
                     | Inr name \<Rightarrow> s\<lparr>ps_registered := True, ps_driverName := name\<rparr>))
      in (ps_driverName s, s))"

definition pg_Open :: "'w pg_env \<Rightarrow> pg_config \<Rightarrow> pg_state \<Rightarrow> (goerr + pg_db) \<times> pg_state" where
  "pg_Open env cfg s =
     (if trim_space (pc_DSN cfg) = [] then (Inl (EText ''postgres: DSN is required''), s)
      else case instrumentedDriver env s of (driver, s) \<Rightarrow>
        (case pe_Open env driver (pc_DSN cfg) of
           Some err \<Rightarrow> (Inl (EWrap ''postgres open: '' err), s)
         | None \<Rightarrow>
             let s = s\<lparr>ps_open := ps_open s + 1\<rparr>;
                 db = \<lparr>db_driver = driver, db_dsn = pc_DSN cfg,
                       db_maxOpen = (if pc_MaxOpenConns cfg \<le> 0 then 25 else pc_MaxOpenConns cfg),
                       db_maxIdle = (if pc_MaxIdleConns cfg \<le> 0 then 5 else pc_MaxIdleConns cfg),
                       db_maxLifetime = (if pc_ConnMaxLifetime cfg > 0 then Some (pc_ConnMaxLifetime cfg) else None),
                       db_maxIdleTime = (if pc_ConnMaxIdleTime cfg > 0 then Some (pc_ConnMaxIdleTime cfg) else None)\<rparr>;
                 timeout = (if pc_PingTimeout cfg \<le> 0 then 5 * second else pc_PingTimeout cfg)
             in (case pe_Ping env (pc_DSN cfg) timeout of
                   Some err \<Rightarrow> (Inl (EWrap ''postgres ping: '' err), s\<lparr>ps_open := ps_open s - 1\<rparr>)
                 | None \<Rightarrow> (Inr db, s))))"


text \<open>\<open>migrate.Exec\<close> is the argument \<open>exec\<close>; \<open>None\<close> is a nil database.\<close>

definition migration_Run ::
    "('d \<Rightarrow> string \<Rightarrow> 'w \<Rightarrow> (int \<times> goerr option) \<times> 'w) \<Rightarrow> 'd option \<Rightarrow> string \<Rightarrow> 'w
       \<Rightarrow> (int \<times> goerr option) \<times> 'w"
where
  "migration_Run exec db dir w =
     (case db of
        None \<Rightarrow> ((0, Some (EText ''migration: db is nil'')), w)
      | Some d \<Rightarrow>
          (case exec d dir w of
             ((n, Some err), w) \<Rightarrow> ((0, Some (EWrap ''migration: '' err)), w)
           | ((n, None), w) \<Rightarrow> ((n, None), w)))"

section \<open>Words\<close>

text \<open>A word is a text that \<open>strings.Fields\<close> does not cut: no white space begins anywhere in it.\<close>

definition word_text :: "string \<Rightarrow> bool" where
  "word_text w \<longleftrightarrow> w \<noteq> [] \<and> (\<forall>a b. w = a @ b \<and> b \<noteq> [] \<longrightarrow> rune_at space_runes b = 0)"

lemma rune_before_space:
  assumes "b \<noteq> []" and "rune_at space_runes b = 0"
  shows "rune_at space_runes (b @ CHR '' '' # s) = 0"
proof -
  have sp: "CHR '' '' \<in> set r \<Longrightarrow> r = '' ''" if "r \<in> set space_runes" for r
    using that by (auto simp: space_runes_def)
  have "\<not> has_prefix (b @ CHR '' '' # s) r" if r: "r \<in> set space_runes" "r \<noteq> []" for r
  proof
    assume "has_prefix (b @ CHR '' '' # s) r"
    then obtain t where t: "b @ CHR '' '' # s = r @ t" by (auto simp: has_prefix_iff)
    show False
    proof (cases "length r \<le> length b")
      case True
      with t have "has_prefix b r"
        by (auto simp: has_prefix_iff append_eq_append_conv2)
      with r assms(2) show False by (auto simp: rune_at_0_iff)
    next
      case False
      with t have "CHR '' '' \<in> set r" by (auto simp: append_eq_append_conv2 Cons_eq_append_conv)
      with sp [OF r(1)] False assms(1) show False by (cases b) auto
    qed
  qed
  then show ?thesis by (auto simp: rune_at_0_iff)
qed

lemma word_tail: "word_text (c # w) \<Longrightarrow> w \<noteq> [] \<Longrightarrow> word_text w"
  unfolding word_text_def by (metis append_Cons)

lemma word_head: "word_text w \<Longrightarrow> rune_at space_runes w = 0"
  by (auto simp: word_text_def)

lemma fields_from_end: "fields_from acc [] = (if acc = [] then [] else [acc])"
  by (subst fields_from.simps) simp

lemma fields_from_char: "rune_at space_runes (c # s) = 0 \<Longrightarrow> fields_from acc (c # s) = fields_from (acc @ [c]) s"
  by (subst fields_from.simps) simp

lemma fields_word_end: "word_text w \<Longrightarrow> fields_from acc w = [acc @ w]"
proof (induction w arbitrary: acc)
  case (Cons c w)
  then have "fields_from acc (c # w) = fields_from (acc @ [c]) w"
    using word_head by (simp add: fields_from.simps [of acc "c # w"])
  with Cons word_tail [of c w] show ?case
    by (cases "w = []") (simp_all add: fields_from.simps [of "acc @ [c]" "[]"])
qed (simp add: word_text_def)

lemma fields_word: "word_text w \<Longrightarrow> fields_from acc (w @ CHR '' '' # s) = (acc @ w) # fields_from [] s"
proof (induction w arbitrary: acc)
  case (Cons c w)
  have "rune_at space_runes ((c # w) @ CHR '' '' # s) = 0"
    using Cons.prems word_head by (intro rune_before_space) auto
  then have step: "fields_from acc ((c # w) @ CHR '' '' # s) = fields_from (acc @ [c]) (w @ CHR '' '' # s)"
    by (simp add: fields_from_char)
  show ?case
  proof (cases "w = []")
    case True
    have "rune_at space_runes (CHR '' '' # s) = 1" by (simp add: space_runes_def)
    with True step show ?thesis by (simp add: fields_from.simps [of "acc @ [c]" "CHR '' '' # s"])
  next
    case False
    with Cons word_tail [of c w] step show ?thesis by simp
  qed
qed (simp add: word_text_def)

lemma fields_join: "\<forall>w\<in>set ws. word_text w \<Longrightarrow> Go_Prelude.fields (join_with '' '' ws) = ws"
  unfolding Go_Prelude.fields_def
proof (induction ws rule: induct_list012)
  case 1
  show ?case by (simp add: fields_from.simps [of "[]" "[]"])
next
  case (2 w)
  then show ?case by (simp add: fields_word_end)
next
  case (3 w v ws)
  then show ?case by (simp add: fields_word)
qed

lemma fields_from_words:
  "(\<forall>a b. acc = a @ b \<and> b \<noteq> [] \<longrightarrow> rune_at space_runes (b @ s) = 0)
     \<Longrightarrow> w \<in> set (fields_from acc s) \<Longrightarrow> word_text w"
proof (induction acc s rule: fields_from.induct)
  case (1 acc s)
  have acc_word: "word_text acc" if "acc \<noteq> []"
    using that "1.prems"(1) rune_at_append_0 unfolding word_text_def by blast
  consider "s = []" | "s \<noteq> []" "rune_at space_runes s = 0" | "s \<noteq> []" "rune_at space_runes s \<noteq> 0"
    by blast
  then show ?case
  proof cases
    case 1
    with "1.prems"(2) acc_word show ?thesis by (simp add: fields_from_end split: if_splits)
  next
    case 2
    have "rune_at space_runes (b @ tl s) = 0" if ab: "acc @ [hd s] = a @ b" "b \<noteq> []" for a b
    proof -
      obtain b' where b: "b = b' @ [hd s]" "acc = a @ b'"
        using ab by (cases b rule: rev_cases) auto
      then have "b @ tl s = b' @ s" using 2 by simp
      then show ?thesis using "1.prems"(1) b 2 by (cases "b' = []") auto
    qed
    with "1.IH"(1) [OF 2] 2 "1.prems"(2) show ?thesis by (simp add: fields_from.simps [of acc s])
  next
    case 3
    with "1.IH"(2) [OF 3] "1.prems"(2) acc_word show ?thesis
      by (auto simp: fields_from.simps [of acc s] split: if_splits)
  qed
qed

lemma fields_words: "w \<in> set (Go_Prelude.fields dsn) \<Longrightarrow> word_text w"
  unfolding Go_Prelude.fields_def by (rule fields_from_words [of "[]" dsn]) auto

section \<open>The maintenance connection\<close>

lemma word_cons: "plain_char c \<Longrightarrow> word_text w \<Longrightarrow> word_text (c # w)"
  by (auto simp: word_text_def Cons_eq_append_conv rune_at_plain)

lemma dbname_word: "word_text name \<Longrightarrow> word_text (''dbname='' @ name)"
proof -
  assume w: "word_text name"
  have p: "list_all plain_char ''dbname=''" by code_simp
  then show ?thesis using w word_cons by simp
qed

lemma replaced_fields:
  assumes "word_text name"
  shows "Go_Prelude.fields (replaceDBName dsn name)
    = map (\<lambda>p. if is_dbname p then ''dbname='' @ name else p) (Go_Prelude.fields dsn)"
  unfolding replaceDBName_def
  using dbname_word [OF assms] by (intro fields_join) (auto intro: fields_words)

lemma first_replaced:
  "\<exists>p\<in>set ps. is_dbname p
     \<Longrightarrow> first_dbname (map (\<lambda>p. if is_dbname p then ''dbname='' @ name else p) ps) = name"
proof (induction ps)
  case (Cons p ps)
  have "is_dbname (''dbname='' @ name)" "trim_prefix (''dbname='' @ name) ''dbname='' = name"
    unfolding is_dbname_def by (simp, rule trim_prefix_append)
  with Cons show ?case by auto
qed simp

lemma extract_some: "extractDBName dsn \<noteq> [] \<Longrightarrow> \<exists>p\<in>set (Go_Prelude.fields dsn). is_dbname p"
proof -
  have "first_dbname ps \<noteq> [] \<Longrightarrow> \<exists>p\<in>set ps. is_dbname p" for ps
    by (induction ps) (auto split: if_splits)
  then show "extractDBName dsn \<noteq> [] \<Longrightarrow> ?thesis" by (simp add: extractDBName_def)
qed

lemma replaced_name:
  assumes "extractDBName dsn \<noteq> []" and "word_text name"
  shows "extractDBName (replaceDBName dsn name) = name
    \<and> filter (\<lambda>p. \<not> is_dbname p) (Go_Prelude.fields (replaceDBName dsn name))
      = filter (\<lambda>p. \<not> is_dbname p) (Go_Prelude.fields dsn)"
proof -
  have "is_dbname (''dbname='' @ name)" by (simp add: is_dbname_def)
  then have "filter (\<lambda>p. \<not> is_dbname p) (map (\<lambda>p. if is_dbname p then ''dbname='' @ name else p) ps)
      = filter (\<lambda>p. \<not> is_dbname p) ps" for ps
    by (induction ps) auto
  then show ?thesis
    using first_replaced [OF extract_some [OF assms(1)]] replaced_fields [OF assms(2)]
    by (simp add: extractDBName_def)
qed

text \<open>
  \<open>replaceDBName\<close> names the new database and nothing else: for a DSN with a database name and a new
  name without white space, \<open>extractDBName\<close> reads the new name back, and every other parameter of the
  DSN is kept, in its order.
\<close>

theorem dsn_roundtrip:
  assumes "extractDBName dsn \<noteq> []" and "word_text name"
  shows "extractDBName (replaceDBName dsn name) = name
    \<and> filter (\<lambda>p. \<not> is_dbname p) (Go_Prelude.fields (replaceDBName dsn name))
      = filter (\<lambda>p. \<not> is_dbname p) (Go_Prelude.fields dsn)"
  using assms by (rule replaced_name)

lemma word_plain: "s \<noteq> [] \<Longrightarrow> list_all plain_char s \<Longrightarrow> word_text s"
proof (induction s)
  case (Cons c s)
  show ?case
  proof (cases "s = []")
    case True
    with Cons.prems show ?thesis
      by (auto simp: word_text_def Cons_eq_append_conv rune_at_plain)
  qed (use Cons word_cons in auto)
qed simp

lemma demo_dsn: "Go_Prelude.fields ''host=pg dbname=app'' = [''host=pg'', ''dbname=app'']"
proof -
  have "list_all plain_char ''host=pg''" "list_all plain_char ''dbname=app''" by code_simp+
  then have "\<forall>w\<in>set [''host=pg'', ''dbname=app'']. word_text w"
    using word_plain by simp
  from fields_join [OF this] show ?thesis by simp
qed

lemma demo_dbname: "extractDBName ''host=pg dbname=app'' = ''app''"
  by (simp add: extractDBName_def demo_dsn is_dbname_def trim_prefix_def)

lemma postgres_word: "word_text ''postgres''"
proof (rule word_plain)
  show "list_all plain_char ''postgres''" by code_simp
qed simp

theorem dsn_roundtrip_witness:
  "extractDBName (replaceDBName ''host=pg dbname=app'' ''postgres'') = ''postgres''"
  using dsn_roundtrip [OF _ postgres_word] demo_dbname by simp

section \<open>Creating a database\<close>

text \<open>
  The statements sent to a server: the question whether a database exists, and statements to execute, each
  with the DSN of its connection.
\<close>

datatype pg_call = AskExists string string | Execute string string








text \<open>A server for examples: its databases and the statements it got.\<close>

definition demo_pg :: "(string list \<times> pg_call list) pg_env" where
  "demo_pg =
     \<lparr>pe_Register = Inr ''otel-postgres'', pe_Open = (\<lambda>d s. None), pe_Ping = (\<lambda>s t. None),
      pe_Exists = (\<lambda>s n w. (Inr (List.member (fst w) n), (fst w, snd w @ [AskExists s n]))),
      pe_Exec = (\<lambda>s q w. (None, (take 63 (drop 16 q) # fst w, snd w @ [Execute s q]))),
      pe_QuoteIdentifier = id\<rparr>"



text \<open>
  \<open>Open\<close> returns a pool only after a successful ping with a positive time limit, with positive limits
  of connections; an error leaves no pool open; and the instrumented driver is registered at most once,
  with the plain driver if that fails.
\<close>

theorem open_pool_or_none:
  assumes "pg_Open env cfg s = (r, s')" and "ps_registered s \<longrightarrow> ps_driverName s = d"
    and "\<not> ps_registered s \<longrightarrow> d = (case pe_Register env of Inl e \<Rightarrow> ''postgres'' | Inr n \<Rightarrow> n)"
  shows "(case r of
      Inl e \<Rightarrow> ps_open s' = ps_open s
    | Inr db \<Rightarrow> ps_open s' = ps_open s + 1 \<and> db_driver db = d \<and> 0 < db_maxOpen db \<and> 0 < db_maxIdle db
        \<and> ps_registered s' \<and> ps_driverName s' = d
        \<and> (\<exists>t>0. pe_Ping env (pc_DSN cfg) t = None))"
proof (cases "trim_space (pc_DSN cfg) = []")
  case True
  with assms(1) show ?thesis by (auto simp: pg_Open_def)
next
  case False
  define s1 where "s1 = snd (instrumentedDriver env s)"
  have "fst (instrumentedDriver env s) = d" and s1: "ps_registered s1" "ps_driverName s1 = d" "ps_open s1 = ps_open s"
    using assms(2,3) by (auto simp: s1_def instrumentedDriver_def split: sum.splits)
  then have i: "instrumentedDriver env s = (d, s1)" by (simp add: s1_def prod_eq_iff)
  show ?thesis
  proof (cases "pe_Open env d (pc_DSN cfg)")
    case (Some err)
    with False assms(1) i s1 show ?thesis by (auto simp: pg_Open_def)
  next
    case None
    let ?t = "if pc_PingTimeout cfg \<le> 0 then 5 * second else pc_PingTimeout cfg"
    have "0 < ?t" by (simp add: second_def)
    then show ?thesis
      using assms(1) False i s1 None by (cases "pe_Ping env (pc_DSN cfg) ?t") (auto simp: pg_Open_def)
  qed
qed

theorem open_pool_or_none_witness:
  "\<exists>db s. pg_Open demo_pg \<lparr>pc_DSN = ''host=pg'', pc_MaxOpenConns = 0, pc_MaxIdleConns = 0,
      pc_ConnMaxLifetime = 0, pc_ConnMaxIdleTime = 0, pc_PingTimeout = 0\<rparr> pg_start = (Inr db, s)
     \<and> ps_open s = 1 \<and> db_driver db = ''otel-postgres''"
proof -
  let ?cfg = "\<lparr>pc_DSN = ''host=pg'', pc_MaxOpenConns = 0, pc_MaxIdleConns = 0, pc_ConnMaxLifetime = 0,
    pc_ConnMaxIdleTime = 0, pc_PingTimeout = 0\<rparr>"
  have t: "trim_space ''host=pg'' = ''host=pg''" by code_simp
  obtain db s where o: "pg_Open demo_pg ?cfg pg_start = (Inr db, s)"
    using t by (simp add: pg_Open_def instrumentedDriver_def pg_start_def demo_pg_def Let_def)
  have "ps_registered pg_start \<longrightarrow> ps_driverName pg_start = ''otel-postgres''"
    "\<not> ps_registered pg_start \<longrightarrow>
       ''otel-postgres'' = (case pe_Register demo_pg of Inl e \<Rightarrow> ''postgres'' | Inr n \<Rightarrow> n)"
    "ps_open pg_start = 0"
    by (simp_all add: pg_start_def demo_pg_def)
  with open_pool_or_none [OF o, of "''otel-postgres''"]
  have "ps_open s = 1" "db_driver db = ''otel-postgres''" by auto
  with o show ?thesis by blast
qed

end
