(* ===== verification/Metrics_Contract.thy ===== *)
theory Metrics_Contract
  imports Metrics_Labels
begin

text \<open>
  \<open>observability/metrics/contract.go\<close>: the names of the metrics and labels and the values a label may
  take, one list per block of constants, and that the rest of the package keeps to them.
\<close>

section \<open>The constants\<close>

definition metric_names :: "string list" where
  "metric_names =
     [''service_client_requests_total'', ''service_client_request_duration_seconds'',
      ''s2s_auth_requests_total'', ''s2s_auth_failures_total'', ''s2s_token_requests_total'',
      ''s2s_token_request_failures_total'', ''s2s_token_cache_hits_total'',
      ''messaging_publish_total'', ''messaging_publish_failures_total'',
      ''messaging_publish_duration_seconds'', ''messaging_consume_total'',
      ''messaging_consume_failures_total'', ''messaging_processing_duration_seconds'',
      ''messaging_retry_total'', ''messaging_dlq_total'',
      ''messaging_oldest_message_age_seconds'', ''messaging_unroutable_total'',
      ''messaging_confirm_timeout_total'', ''outbox_pending_total'', ''outbox_failed_total'',
      ''outbox_exhausted_total'', ''outbox_oldest_pending_seconds'', ''outbox_dispatch_total'',
      ''outbox_dispatch_failures_total'', ''outbox_dispatch_duration_seconds'',
      ''consumer_duplicate_total'', ''reconciliation_mismatch_total'',
      ''reconciliation_repaired_total'', ''reconciliation_scanned_total'',
      ''reconciliation_failed_total'', ''ambiguous_operations_total'',
      ''circuit_breaker_state'', ''circuit_breaker_transitions_total'',
      ''service_client_failures_total'', ''service_client_retries_total'',
      ''service_client_timeouts_total'', ''service_client_give_up_total'',
      ''business_operation_total'', ''business_operation_failures_total'']"

definition label_names :: "string list" where
  "label_names =
     [''source'', ''destination'', ''protocol'', ''operation'', ''status'', ''error_type'',
      ''reason'', ''service'', ''event_type'', ''exchange'', ''result'']"

definition protocols :: "string list" where
  "protocols =
     [''http'', ''grpc'']"

definition statuses :: "string list" where
  "statuses =
     [''success'', ''error'']"

definition error_types :: "string list" where
  "error_types =
     [''none'', ''unauthenticated'', ''forbidden'', ''not_found'', ''invalid'', ''conflict'',
      ''rate_limited'', ''timeout'', ''canceled'', ''unavailable'', ''server_error'',
      ''unknown'']"

definition auth_reasons :: "string list" where
  "auth_reasons =
     [''none'', ''missing_token'', ''expired'', ''invalid_signature'', ''invalid_audience'',
      ''invalid_issuer'', ''missing_scope'', ''unknown_service'', ''token_fetch_failed'']"

definition message_results :: "string list" where
  "message_results =
     [''success'', ''error'', ''retry'', ''dlq'', ''abandoned'', ''timeout'', ''canceled'',
      ''claimed'', ''dispatched'', ''failed'', ''retried'', ''unroutable'', ''duplicate'',
      ''exhausted'', ''open'', ''half_open'', ''closed'']"

definition business_results :: "string list" where
  "business_results =
     [''success'', ''business_rejected'', ''system_failure'']"

definition business_ops :: "string list" where
  "business_ops =
     [''wallet_credit'', ''wallet_debit'', ''deposit_complete'', ''withdrawal_complete'',
      ''trade_opened'', ''trade_closed'', ''kyc_approved'', ''kyc_rejected'',
      ''ticket_created'']"

section \<open>Keeping the contract\<close>

text \<open>
  The collectors follow the contract: exactly the metrics of the contract are registered, each once,
  with labels of the contract, none repeated.
\<close>

lemma registry_keeps_contract:
  "map fst registry = metric_names \<and> distinct metric_names
   \<and> list_all (\<lambda>(n, k, ls). distinct ls \<and> list_all (List.member label_names) ls) registry"
  by (intro conjI) code_simp+

text \<open>
  And so do the sanitizers: a value of the contract, in any letter case and with white space around it,
  is kept; everything else becomes the fallback, which is a value of the contract as well.
\<close>

lemma contract_lists:
  "allowedErrorTypes = error_types" "allowedReasons = auth_reasons" "allowedResults = message_results"
  "allowedBusinessOps = business_ops"
  by code_simp+

lemma sanitizers_keep_contract:
  "SanitizeErrorType v = (if norm v \<in> set error_types then norm v else ''unknown'')"
  "SanitizeReason v = (if norm v \<in> set auth_reasons then norm v else ''invalid_signature'')"
  "SanitizeResult v = (if norm v \<in> set message_results then norm v else ''error'')"
  "SanitizeBusinessOp v = (if norm v \<in> set business_ops then norm v else [])"
  by (simp_all add: SanitizeErrorType_def SanitizeReason_def SanitizeResult_def SanitizeBusinessOp_def
      contract_lists Let_def)

lemma fallbacks_in_contract:
  "''unknown'' \<in> set error_types" "''invalid_signature'' \<in> set auth_reasons"
  "''error'' \<in> set message_results"
  by (simp_all add: error_types_def auth_reasons_def message_results_def)

text \<open>
  The result of a business operation: the three values of the contract, with their synonyms.
\<close>

lemma business_result_contract:
  "norm v \<in> {''success'', ''ok''} \<Longrightarrow> stringsToBusinessResult v = ''success''"
  "norm v \<in> {''business_rejected'', ''invalid'', ''rejected''} \<Longrightarrow>
     stringsToBusinessResult v = ''business_rejected''"
  "norm v \<notin> {''success'', ''ok'', ''business_rejected'', ''invalid'', ''rejected''} \<Longrightarrow>
     stringsToBusinessResult v = ''system_failure''"
  "stringsToBusinessResult v \<in> set business_results"
  by (auto simp: stringsToBusinessResult_def business_results_def Let_def)

end
