(* ===== verification/Service_Calls.thy ===== *)
theory Service_Calls
  imports Grpc_Auth
begin

text \<open>
  Calls between services, over both transports: the token client and the clients' transports
  (\<open>security/s2s\<close>, \<open>security/grpc\<close>) against the servers' guards (\<open>security/echo\<close>, \<open>security/grpc\<close>).

  \<open>admit\<close> is the common specification of the guards: a function of the token and the scopes that
  are asked for. The Echo middleware and the two gRPC interceptors are shown to refine it, so they
  agree with one another; and a token that was issued is admitted by all of them.
\<close>

section \<open>Tokens in headers\<close>

lemma bearer_eq: "bearer = trimBearer"
  by (rule ext) (simp add: bearer_def trimBearer_def)

lemma trimBearer_trim [simp]: "trimBearer (trim_space raw) = trimBearer raw"
  by (simp add: trimBearer_def)

lemma trimBearer_Nil [simp]: "trimBearer [] = []"
  by (simp add: trimBearer_def)

lemma service_verify_token:
  "trimBearer raw = trimBearer raw' \<Longrightarrow> service_verify env lib raw s = service_verify env lib raw' s"
  by (cases s) (simp add: service_verify_def s2s_Verify_def)

text \<open>
  Text put behind a character that ends no white space stays as it is when the whole is trimmed.
\<close>

lemma rune_at_append_char:
  assumes "rune_at rs u = 0" and "u \<noteq> []" and "\<And>r. r \<in> set rs \<Longrightarrow> c \<in> set r \<Longrightarrow> r = [c]"
  shows "rune_at rs (u @ c # v) = 0"
  unfolding rune_at_0_iff
proof
  fix r assume r: "r \<in> set rs"
  show "r = [] \<or> \<not> has_prefix (u @ c # v) r"
  proof (rule disjCI)
    assume "\<not> \<not> has_prefix (u @ c # v) r"
    then obtain t where "u @ c # v = r @ t" by (auto simp: has_prefix_iff)
    then consider q where "u = r @ q" | q where "r = u @ c # q"
      by (auto simp: append_eq_append_conv2 Cons_eq_append_conv)
    then show "r = []"
    proof cases
      case 1
      then have "has_prefix u r" by simp
      with assms(1) r show ?thesis unfolding rune_at_0_iff by blast
    next
      case 2
      then have "r = [c]" using assms(3) [OF r] by simp
      with 2 assms(2) show ?thesis by (cases u) auto
    qed
  qed
qed

lemma trim_right_behind:
  assumes "trim_right s = s" and "s \<noteq> []"
  shows "trim_right (p @ CHR '' '' # s) = p @ CHR '' '' # s"
proof -
  let ?rs = "map rev space_runes"
  have "strip_runes ?rs (rev s) = rev s" using assms(1) unfolding trim_right_def by (metis rev_rev_ident)
  then have "rune_at ?rs (rev s) = 0" using rune_at_strip [of ?rs "rev s"] by simp
  moreover have "r = [CHR '' '']" if "r \<in> set ?rs" "CHR '' '' \<in> set r" for r
    using that by (auto simp: space_runes_def)
  ultimately have "rune_at ?rs (rev s @ CHR '' '' # rev p) = 0"
    using assms(2) by (intro rune_at_append_char) auto
  then show ?thesis by (simp add: trim_right_def strip_runes_0)
qed

lemma trim_space_right: "trim_right (trim_space s) = trim_space s"
  by (simp add: trim_space_def)

text \<open>What the clients write, the servers read.\<close>

lemma header_token:
  assumes "trimBearer raw = raw" and "raw \<noteq> []"
  shows "trimBearer (AuthorizationHeader raw) = raw"
proof -
  have trimmed: "trim_space raw = raw" using trimBearer_trimmed [of raw] assms(1) by simp
  let ?h = "''Bearer'' @ CHR '' '' # raw"
  have "plain_char (CHR ''B'')" by code_simp
  then have "trim_left ?h = ?h" by (simp add: trim_left_def strip_runes_0 rune_at_plain)
  moreover have "trim_right ?h = ?h"
    using trim_right_behind [OF _ assms(2)] trim_space_right [of raw] trimmed by metis
  ultimately have "trim_space ?h = ?h" by (simp add: trim_space_def)
  then have "trim_space (''Bearer '' @ raw) = ''Bearer '' @ raw" by simp
  with trimmed assms show ?thesis by (simp add: trimBearer_def AuthorizationHeader_def Let_def)
qed

text \<open>The first \<open>authorization\<close> value of a gRPC request, empty if there is none.\<close>

definition grpc_header :: "grpc_ctx \<Rightarrow> string" where
  "grpc_header ctx =
     (case gx_incoming ctx of
        None \<Rightarrow> []
      | Some md \<Rightarrow> (case md_get ''authorization'' md of [] \<Rightarrow> [] | v # vs \<Rightarrow> v))"

lemma grpc_first_header:
  "gx_incoming ctx = Some md \<Longrightarrow>
     trimBearer (grpc_first (md_get ''authorization'' md)) = trimBearer (grpc_header ctx)"
  by (simp add: grpc_header_def grpc_first_def split: list.split)

section \<open>One specification for three guards\<close>

definition admit ::
    "string \<Rightarrow> (string \<Rightarrow> 's \<Rightarrow> (goerr + identity) \<times> 's) \<Rightarrow> string list \<Rightarrow> string \<Rightarrow> 's
       \<Rightarrow> (identity option \<times> int update list \<times> 's) option"
where
  "admit service verify scopes raw s =
     (case verify raw s of
        (Inl err, s') \<Rightarrow>
          map_option (\<lambda>reason. (None, RecordS2SAuthFailure ''unknown'' service reason, s'))
            (ReasonOf (Some err))
      | (Inr i, s') \<Rightarrow>
          if scopes = [] \<or> HasAnyScope i scopes
          then Some (Some i, RecordS2SAuth (id_Subject i) service, s')
          else Some (None, RecordS2SAuth (id_Subject i) service
                       @ RecordS2SAuthFailure (id_Subject i) service ''missing_scope'', s'))"

text \<open>
  What a handler \<open>h\<close> of identities makes of it; the flag says whether there was no error.
\<close>

type_synonym 's body = "identity \<Rightarrow> 's \<Rightarrow> (goerr option \<times> int update list \<times> 's) option"

definition guard_answer ::
    "'s body \<Rightarrow> (identity option \<times> int update list \<times> 's) option
       \<Rightarrow> (bool \<times> int update list \<times> 's) option"
where
  "guard_answer h r =
     (case r of
        None \<Rightarrow> None
      | Some (None, us, s) \<Rightarrow> Some (False, us, s)
      | Some (Some i, us, s) \<Rightarrow> map_option (\<lambda>(e, us', s'). (e = None, us @ us', s')) (h i s))"

text \<open>The same body as a handler of each kind; without an identity it panics.\<close>

definition echo_body :: "'s body \<Rightarrow> 's handler" where
  "echo_body h c s =
     (case IdentityFromContext (Some (er_ctx c)) of None \<Rightarrow> None | Some i \<Rightarrow> h i s)"

definition stream_body :: "'s body \<Rightarrow> (goerr option, 's) grpc_handler" where
  "stream_body h ctx s =
     (case IdentityFromContext (Some (gx_ctx ctx)) of None \<Rightarrow> None | Some i \<Rightarrow> h i s)"

definition unary_body :: "'s body \<Rightarrow> ('r option \<times> goerr option, 's) grpc_handler" where
  "unary_body h ctx s = map_option (\<lambda>(e, us, s'). ((None, e), us, s')) (stream_body h ctx s)"

definition echo_view :: "(goerr option \<times> int update list \<times> 's) option \<Rightarrow> (bool \<times> int update list \<times> 's) option" where
  "echo_view r = map_option (\<lambda>(e, us, s). (e = None, us, s)) r"

definition unary_view ::
    "(('r option \<times> goerr option) \<times> int update list \<times> 's) option \<Rightarrow> (bool \<times> int update list \<times> 's) option"
where
  "unary_view r = map_option (\<lambda>((v, e), us, s). (e = None, us, s)) r"

lemma view_recording:
  "echo_view (recording us r) = map_option (\<lambda>(e, us', s). (e = None, us @ us', s)) r"
  by (cases r) (auto simp: echo_view_def recording_def)

lemma unary_view_recording:
  "unary_view (recording us (map_option (\<lambda>(e, y). ((None, e), y)) r))
     = map_option (\<lambda>(e, us', s). (e = None, us @ us', s)) r"
  by (cases r) (auto simp: unary_view_def recording_def)

lemma echo_admits:
  assumes "s2s_dest service (Some ver) = service"
  shows "echo_view (echo_S2S service (Some ver) (RequireServiceScopes service scopes (echo_body h)) c s)
    = guard_answer h (admit service (tv_Verify ver) scopes (bearer (er_Authorization c)) s)"
proof (cases "tv_Verify ver (bearer (er_Authorization c)) s")
  case (Pair r s')
  show ?thesis
  proof (cases r)
    case (Inl err)
    with Pair show ?thesis
      by (cases "ReasonOf (Some err)")
        (simp_all add: echo_S2S_def admit_def guard_answer_def echo_view_def assms)
  next
    case (Inr i)
    with Pair show ?thesis
      by (simp add: echo_S2S_def admit_def guard_answer_def view_recording assms RequireServiceScopes_def
          service_in_context echo_body_def IdentityFromContext_def ContextWithIdentity_def)
  qed
qed

definition scopes_of :: "(string \<times> string list) list \<Rightarrow> string \<Rightarrow> string list" where
  "scopes_of methodScopes m = (case map_of methodScopes m of None \<Rightarrow> [] | Some scopes \<Rightarrow> scopes)"

lemma RequireAnyScope_scopes:
  "RequireAnyScope methodScopes ctx m i s =
     (if scopes_of methodScopes m = [] \<or> HasAnyScope i (scopes_of methodScopes m) then None
      else Some grpc_forbidden, s)"
  by (simp add: RequireAnyScope_def scopes_of_def split: option.split)

text \<open>A request without metadata is refused as one without a token.\<close>

lemma service_verify_no_token:
  "trimBearer raw = [] \<Longrightarrow> service_verify env lib raw s = (Inl (unauthenticatedWith ''missing_token'' None), s)"
  by (cases s) (simp add: service_verify_def s2s_Verify_def)

lemma authenticate_token:
  assumes "trimBearer raw = trimBearer (grpc_header ctx)"
  shows "grpc_authenticate service (Some (service_verify env lib)) ctx s =
    (case service_verify env lib raw s of
       (Inl err, s') \<Rightarrow>
         map_option (\<lambda>reason. (Inl unauthenticated_service,
             RecordS2SAuthFailure ''unknown'' service reason, s')) (ReasonOf (Some err))
     | (Inr i, s') \<Rightarrow> Some (Inr i, RecordS2SAuth (id_Subject i) service, s'))"
proof (cases "gx_incoming ctx")
  case None
  then have "trimBearer raw = []" using assms by (simp add: grpc_header_def)
  with None show ?thesis
    by (simp add: grpc_authenticate_def service_verify_no_token unauthenticatedWith_facts(1))
next
  case (Some md)
  have "service_verify env lib (grpc_first (md_get ''authorization'' md)) s = service_verify env lib raw s"
    using assms grpc_first_header [OF Some] by (intro service_verify_token) simp
  with Some show ?thesis by (simp add: grpc_authenticate_def)
qed

lemma unary_admits:
  assumes "\<not> isPublicGRPCMethod m" and "trimBearer raw = trimBearer (grpc_header ctx)"
  shows "unary_view (UnaryServerInterceptor service (Some (service_verify env lib))
      (Some (RequireAnyScope methodScopes)) m (unary_body h) ctx s)
    = guard_answer h (admit service (service_verify env lib) (scopes_of methodScopes m) raw s)"
proof (cases "service_verify env lib raw s" rule: prod.exhaust)
  case (Pair r s')
  note auth = authenticate_token [OF assms(2), of service env lib s]
  show ?thesis
  proof (cases r)
    case (Inl err)
    with Pair assms(1) show ?thesis
      by (cases "ReasonOf (Some err)")
        (simp_all add: UnaryServerInterceptor_def auth admit_def guard_answer_def unary_view_def)
  next
    case (Inr i)
    with Pair assms(1) show ?thesis
      by (simp add: UnaryServerInterceptor_def auth admit_def guard_answer_def RequireAnyScope_scopes
          unary_body_def stream_body_def with_identity_def ContextWithIdentity_def
          IdentityFromContext_def unary_view_recording) (simp add: unary_view_def)
  qed
qed

lemma stream_admits:
  assumes "\<not> isPublicGRPCMethod m" and "trimBearer raw = trimBearer (grpc_header ctx)"
  shows "echo_view (StreamServerInterceptor service (Some (service_verify env lib))
      (Some (RequireAnyScope methodScopes)) m (stream_body h) ctx s)
    = guard_answer h (admit service (service_verify env lib) (scopes_of methodScopes m) raw s)"
proof (cases "service_verify env lib raw s" rule: prod.exhaust)
  case (Pair r s')
  note auth = authenticate_token [OF assms(2), of service env lib s]
  show ?thesis
  proof (cases r)
    case (Inl err)
    with Pair assms(1) show ?thesis
      by (cases "ReasonOf (Some err)")
        (simp_all add: StreamServerInterceptor_def auth admit_def guard_answer_def echo_view_def)
  next
    case (Inr i)
    with Pair assms(1) show ?thesis
      by (simp add: StreamServerInterceptor_def auth admit_def guard_answer_def RequireAnyScope_scopes
          stream_body_def with_identity_def ContextWithIdentity_def IdentityFromContext_def
          view_recording) (simp add: echo_view_def)
  qed
qed

section \<open>The transports agree\<close>

text \<open>
  C10. The HTTP and the gRPC guards of a service are equivalent. For the same service verifier, the same
  required scopes and the same value of the \<open>authorization\<close> header, whatever the body of the
  handler is, \<open>S2S\<close> with \<open>RequireServiceScopes\<close> and both server interceptors with \<open>RequireAnyScope\<close>
  run it for the same requests with the same identity: they leave the same state, record the same metrics,
  return an error or none alike, and panic alike. This is for methods that
  are not public; the header may name the scheme \<open>Bearer\<close> at most once, and the audience of the verifier,
  which the middleware takes as the destination label, is the service.
\<close>

theorem transports_agree:
  assumes "er_Authorization c = grpc_header ctx"
    and "trimBearer (trimBearer (er_Authorization c)) = trimBearer (er_Authorization c)"
    and "\<not> isPublicGRPCMethod m"
    and "tv_Verify ver = service_verify env lib" and "s2s_dest service (Some ver) = service"
  shows "echo_view (echo_S2S service (Some ver)
        (RequireServiceScopes service (scopes_of methodScopes m) (echo_body h)) c s)
      = unary_view (UnaryServerInterceptor service (Some (service_verify env lib))
          (Some (RequireAnyScope methodScopes)) m (unary_body h) ctx s)
    \<and> echo_view (StreamServerInterceptor service (Some (service_verify env lib))
          (Some (RequireAnyScope methodScopes)) m (stream_body h) ctx s)
      = unary_view (UnaryServerInterceptor service (Some (service_verify env lib))
          (Some (RequireAnyScope methodScopes)) m (unary_body h) ctx s)"
proof -
  have raw: "trimBearer (bearer (er_Authorization c)) = trimBearer (grpc_header ctx)"
    using assms(1,2) by (simp add: bearer_eq)
  show ?thesis
    unfolding echo_admits [OF assms(5)] unary_admits [OF assms(3) raw] stream_admits [OF assms(3) raw]
    by (simp add: assms(4))
qed

theorem transports_agree_witness:
  "\<exists>us. echo_view (echo_S2S ''aud'' (Some demo_service_verifier)
        (RequireServiceScopes ''aud'' (scopes_of [(''/a.B/C'', [''read''])] ''/a.B/C'')
          (echo_body (\<lambda>i s. Some (None, [], s)))) (demo_echo_req toy_raw) (demo_s2s_verifier, 1))
      = Some (True, us, (demo_s2s_verifier, 1))
    \<and> unary_view (UnaryServerInterceptor ''aud'' (Some (service_verify demo_jwks (toy_lib demo_s2s_token)))
        (Some (RequireAnyScope [(''/a.B/C'', [''read''])])) ''/a.B/C''
        (unary_body (\<lambda>i s. Some (None, [], s)) :: (nat option \<times> goerr option, s2s_verifier \<times> nat) grpc_handler)
        demo_grpc_ctx (demo_s2s_verifier, 1))
      = Some (True, us, (demo_s2s_verifier, 1))"
proof -
  have hdr: "er_Authorization (demo_echo_req toy_raw) = grpc_header demo_grpc_ctx"
    by (simp add: demo_echo_req_def grpc_header_def demo_grpc_ctx_def md_get_def)
  have one: "trimBearer (trimBearer (er_Authorization (demo_echo_req toy_raw)))
      = trimBearer (er_Authorization (demo_echo_req toy_raw))"
    by (simp add: demo_echo_req_def toy_raw_trim) code_simp
  have m: "\<not> isPublicGRPCMethod ''/a.B/C''" by code_simp
  have ver: "tv_Verify demo_service_verifier = service_verify demo_jwks (toy_lib demo_s2s_token)"
    and dest: "s2s_dest ''aud'' (Some demo_service_verifier) = ''aud''"
    by (simp_all add: demo_service_verifier_def s2s_dest_def)
  have "service_verify demo_jwks (toy_lib demo_s2s_token) toy_raw (demo_s2s_verifier, 1)
      = (Inr demo_identity, (demo_s2s_verifier, 1))"
    using demo_s2s_verify by (simp add: service_verify_def)
  moreover have raw: "trimBearer toy_raw = trimBearer (grpc_header demo_grpc_ctx)"
    using hdr by (simp add: demo_echo_req_def)
  ultimately have "unary_view (UnaryServerInterceptor ''aud'' (Some (service_verify demo_jwks (toy_lib demo_s2s_token)))
        (Some (RequireAnyScope [(''/a.B/C'', [''read''])])) ''/a.B/C''
        (unary_body (\<lambda>i s. Some (None, [], s)) :: (nat option \<times> goerr option, s2s_verifier \<times> nat) grpc_handler)
        demo_grpc_ctx (demo_s2s_verifier, 1))
      = Some (True, RecordS2SAuth ''svc'' ''aud'', (demo_s2s_verifier, 1))"
    by (simp add: unary_admits [OF m raw] admit_def guard_answer_def scopes_of_def demo_identity_def HasScope_def)
  note unary = this
  show ?thesis
    by (intro exI [of _ "RecordS2SAuth ''svc'' ''aud''"] conjI unary
        trans [OF conjunct1 [OF transports_agree [OF hdr one m ver dest]] unary])
qed

text \<open>
  Without that condition they differ: the Echo middleware strips the scheme twice, so that a
  token sent as \<open>Bearer Bearer ...\<close> is verified over HTTP and refused over gRPC.
\<close>

lemma double_scheme:
  "trimBearer (bearer (''Bearer Bearer t'' @ ''0'')) = ''t0''
   \<and> trimBearer (''Bearer Bearer t'' @ ''0'') = ''Bearer t0''"
  by (simp add: bearer_eq) code_simp

section \<open>An issued token opens every guard\<close>

text \<open>\<open>mints\<close>: the signer issues \<open>raw\<close>, and the verifier trusts the signer and allows the subject.\<close>

definition mints ::
    "(string \<Rightarrow> s2s_claims token \<Rightarrow> goerr + string) \<Rightarrow> s2s_claims jwt_lib \<Rightarrow> 'w jwks_env
       \<Rightarrow> signer_config \<Rightarrow> s2s_verifier \<Rightarrow> 'w \<Rightarrow> string \<Rightarrow> string list \<Rightarrow> int \<Rightarrow> string \<Rightarrow> bool"
where
  "mints sign lib env sg v w subject scopes now raw \<longleftrightarrow>
     jwt_complete sign lib
     \<and> (\<exists>exp. Issue sign (Some sg) subject (sv_Audience (sv_cfg v)) scopes now = Inr (raw, exp)
          \<and> je_Now env w < numeric_date exp + sv_Leeway (sv_cfg v))
     \<and> cache_holds (sv_cache v) (sg_KeyID sg) (PublicOf (sg_PrivateKey sg)) \<and> sg_KeyID sg \<noteq> []
     \<and> (\<not> stale (je_Now env w) (sv_cache v) \<or> jc_url (sv_cache v) = [])
     \<and> sg_Issuer sg = sv_Issuer (sv_cfg v) \<and> trim_space (sv_Audience (sv_cfg v)) = sv_Audience (sv_cfg v)
     \<and> (sv_allowed v = [] \<or> trim_space subject \<in> set (sv_allowed v))
     \<and> 0 \<le> sv_Leeway (sv_cfg v) \<and> now \<le> je_Now env w"

abbreviation minted_identity :: "string \<Rightarrow> s2s_verifier \<Rightarrow> string list \<Rightarrow> identity" where
  "minted_identity subject v scopes \<equiv>
     \<lparr>id_Subject = trim_space subject, id_Audience = [sv_Audience (sv_cfg v)], id_Scopes = scopes\<rparr>"

lemma minted_plain:
  assumes "mints sign lib env sg v w subject scopes now raw"
  shows "trimBearer raw = raw \<and> raw \<noteq> []"
proof -
  from assms obtain exp where complete: "jwt_complete sign lib"
    and "Issue sign (Some sg) subject (sv_Audience (sv_cfg v)) scopes now = Inr (raw, exp)"
    unfolding mints_def by blast
  then obtain t where "sign (sg_PrivateKey sg) t = Inr raw"
    by (auto simp: Issue_def Let_def split: if_splits sum.splits)
  then show ?thesis using complete unfolding jwt_complete_def by blast
qed

lemma minted_verifies:
  assumes "mints sign lib env sg v w subject scopes now raw" and "trimBearer hdr = raw"
  shows "service_verify env lib hdr (v, w) = (Inr (minted_identity subject v scopes), (v, w))"
proof -
  have "s2s_Verify env lib raw (Some v) w
      = (Inr \<lparr>id_Subject = trim_space subject, id_Audience = [trim_space (sv_Audience (sv_cfg v))],
              id_Scopes = scopes\<rparr>, Some v, w)"
    using assms(1) unfolding mints_def by (elim conjE exE) (rule issued_token_accepted; assumption)
  moreover have "trim_space (sv_Audience (sv_cfg v)) = sv_Audience (sv_cfg v)"
    using assms(1) by (simp add: mints_def)
  moreover have "trimBearer hdr = trimBearer raw" using minted_plain [OF assms(1)] assms(2) by simp
  ultimately show ?thesis
    using service_verify_token [of hdr raw env lib "(v, w)"] by (simp add: service_verify_def)
qed

text \<open>
  C11. A service that was issued a token can call another, over HTTP and over gRPC. If the token client
  returns a token that a signer issued for a subject, the audience of the receiving service and some scopes,
  the client's transport and its gRPC interceptor call on with one and the same \<open>authorization\<close> value;
  and on a request with that value the receiver's guards, when they ask for no scope or for one of
  those of the token, run the handler, with the subject, the audience and the scopes of the token as
  the identity in its context and in the state of the verifier as it was.
\<close>

theorem issued_token_opens_guards:
  assumes "client_source tenv aud (tc, w0) = (Inr raw, s1)" and "aud \<noteq> []"
    and "mints sign lib env sg v w subject scopes now raw"
    and "required = [] \<or> (\<exists>scope \<in> set required. scope \<in> set scopes)"
    and "tv_Verify ver = service_verify env lib"
  shows "\<exists>hdr.
      s2s_RoundTrip (Some (client_source tenv)) aud base (Some r) (tc, w0)
        = base (r\<lparr>hr_Header := header_set ''Authorization'' hdr (hr_Header r)\<rparr>) s1
    \<and> UnaryClientInterceptor (client_source tenv) aud invoker gx (tc, w0)
        = invoker (gx\<lparr>gx_outgoing := gx_outgoing gx @ [(''authorization'', hdr)]\<rparr>) s1
    \<and> (\<forall>c. er_Authorization c = hdr \<longrightarrow>
        echo_S2S service (Some ver) (RequireServiceScopes service required page) c (v, w)
        = recording (RecordS2SAuth (trim_space subject) (s2s_dest service (Some ver)))
            (page (c\<lparr>er_service := Some (minted_identity subject v scopes),
                     er_ctx := ContextWithIdentity (er_ctx c) (minted_identity subject v scopes)\<rparr>) (v, w)))
    \<and> (\<forall>ctx. grpc_header ctx = hdr \<and> \<not> isPublicGRPCMethod m \<and> scopes_of methodScopes m = required \<longrightarrow>
        UnaryServerInterceptor service (Some (service_verify env lib))
          (Some (RequireAnyScope methodScopes)) m handler ctx (v, w)
        = recording (RecordS2SAuth (trim_space subject) service)
            (handler (with_identity ctx (minted_identity subject v scopes)) (v, w)))"
proof (intro exI [of _ "AuthorizationHeader raw"] conjI allI impI)
  let ?hdr = "AuthorizationHeader raw"
  have hdr: "trimBearer ?hdr = raw" "trimBearer (bearer ?hdr) = raw"
    using minted_plain [OF assms(3)] header_token [of raw] by (simp_all add: bearer_eq)
  have allowed: "required = [] \<or> HasAnyScope (minted_identity subject v scopes) required"
    using assms(4) by (auto simp: HasAnyScope_iff)
  show "s2s_RoundTrip (Some (client_source tenv)) aud base (Some r) (tc, w0)
      = base (r\<lparr>hr_Header := header_set ''Authorization'' ?hdr (hr_Header r)\<rparr>) s1"
    using assms(1,2) by (simp add: s2s_RoundTrip_def)
  show "UnaryClientInterceptor (client_source tenv) aud invoker gx (tc, w0)
      = invoker (gx\<lparr>gx_outgoing := gx_outgoing gx @ [(''authorization'', ?hdr)]\<rparr>) s1"
    using assms(1) by (simp add: UnaryClientInterceptor_def outgoingContext_def)
  show "echo_S2S service (Some ver) (RequireServiceScopes service required page) c (v, w)
      = recording (RecordS2SAuth (trim_space subject) (s2s_dest service (Some ver)))
          (page (c\<lparr>er_service := Some (minted_identity subject v scopes),
                   er_ctx := ContextWithIdentity (er_ctx c) (minted_identity subject v scopes)\<rparr>) (v, w))"
    if "er_Authorization c = ?hdr" for c
    using minted_verifies [OF assms(3) hdr(2)] that allowed assms(5)
    by (auto simp: echo_S2S_def RequireServiceScopes_def service_in_context)
  show "UnaryServerInterceptor service (Some (service_verify env lib))
          (Some (RequireAnyScope methodScopes)) m handler ctx (v, w)
      = recording (RecordS2SAuth (trim_space subject) service)
          (handler (with_identity ctx (minted_identity subject v scopes)) (v, w))"
    if "grpc_header ctx = ?hdr \<and> \<not> isPublicGRPCMethod m \<and> scopes_of methodScopes m = required" for ctx
    using minted_verifies [OF assms(3) hdr(1)] that allowed authenticate_token [of ?hdr ctx service env lib]
    by (auto simp: UnaryServerInterceptor_def RequireAnyScope_scopes)
qed

definition demo_issuing_env :: "nat token_env" where
  "demo_issuing_env = demo_token_env\<lparr>te_Decode := (\<lambda>raw. Inr (''t'' @ demo_pub, 3600))\<rparr>"

definition demo_guard :: "(s2s_verifier \<times> nat) service_verifier" where
  "demo_guard =
     \<lparr>tv_Verify = service_verify demo_jwks (toy_issuer_lib demo_unsigned), tv_Audience = ''aud''\<rparr>"

lemma demo_mints:
  "mints (toy_sign demo_unsigned) (toy_issuer_lib demo_unsigned) demo_jwks demo_signer demo_s2s_verifier 1
     ''svc'' [''read''] 0 (''t'' @ demo_pub)"
proof -
  have pub: "PublicOf (sg_PrivateKey demo_signer) = demo_pub"
    by (simp add: PublicOf_def demo_signer_def)
  have raw: "trimBearer (''t'' @ demo_pub) = ''t'' @ demo_pub" by code_simp
  have "Issue (toy_sign demo_unsigned) (Some demo_signer) ''svc'' ''aud'' [''read''] 0
      = Inr (''t'' @ demo_pub, 2 * minute)"
    using pub raw by (simp add: Issue_def demo_s2s_trims toy_sign_def demo_unsigned_def)
      (simp add: demo_signer_def)
  moreover have "cache_holds (sv_cache demo_s2s_verifier) (sg_KeyID demo_signer) demo_pub"
    by (simp add: cache_holds_def Get_def demo_s2s_verifier_def demo_signer_def)
  ultimately show ?thesis
    unfolding mints_def pub
    by (simp add: toy_complete demo_signer_def demo_s2s_verifier_def demo_s2s_cfg_def demo_s2s_trims
        stale_def NewCache_def demo_jwks_def numeric_date_def duration_defs)
qed

theorem issued_token_opens_guards_witness:
  "\<exists>hdr us. \<forall>c. er_Authorization c = hdr \<longrightarrow>
     echo_S2S ''svc2'' (Some demo_guard) (RequireServiceScopes ''svc2'' [''read''] demo_page) c
       (demo_s2s_verifier, 1) = Some (None, us, (demo_s2s_verifier, 1))"
proof -
  define base where "base = (\<lambda>(r :: http_request) (s :: token_client \<times> nat). (Inr 200 :: goerr + int, s))"
  define inv where "inv = (\<lambda>(ctx :: grpc_ctx) (s :: token_client \<times> nat). (None :: goerr option, s))"
  define hd :: "(nat option \<times> goerr option, s2s_verifier \<times> nat) grpc_handler"
    where "hd = (\<lambda>ctx s. None)"
  obtain s1 where src: "client_source demo_issuing_env ''aud'' (demo_client, 0) = (Inr (''t'' @ demo_pub), s1)"
    by (simp add: client_source_def Token_def demo_client_def demo_token_env_def cache_hit_def
        demo_issuing_env_def token_fetch_def Let_def)
  have ver: "tv_Verify demo_guard = service_verify demo_jwks (toy_issuer_lib demo_unsigned)"
    by (simp add: demo_guard_def)
  from issued_token_opens_guards [where r = demo_request and base = base and invoker = inv and
      gx = demo_grpc_ctx and handler = hd and page = demo_page and required = "[''read'']" and
      service = "''svc2''" and m = "''/a.B/C''" and methodScopes = "[]", OF src _ demo_mints _ ver]
  obtain hdr where "\<And>c. er_Authorization c = hdr \<Longrightarrow>
      echo_S2S ''svc2'' (Some demo_guard) (RequireServiceScopes ''svc2'' [''read''] demo_page) c (demo_s2s_verifier, 1)
      = recording (RecordS2SAuth (trim_space ''svc'') (s2s_dest ''svc2'' (Some demo_guard)))
          (Some (None, [], (demo_s2s_verifier, 1)))"
    by (auto simp: demo_page_def)
  then show ?thesis
    by (intro exI [of _ hdr] exI allI impI) (simp add: recording_def)
qed

end
