(* ===== verification/Outbound.thy ===== *)
theory Outbound
  imports Grpc_Auth
begin

text \<open>
  How the instrumented clients are put together: \<open>HTTPClient\<close> of \<open>observability/metrics/http.go\<close> and
  \<open>observability/tracing/http.go\<close>, \<open>GRPCClientDialOptions\<close> of \<open>observability/metrics/grpc.go\<close> and the
  options of \<open>observability/tracing/grpc.go\<close>.

  What the libraries make is an argument: \<open>otel\<close> is \<open>otelhttp.NewTransport\<close> with the global propagator,
  \<open>default\<close> is \<open>http.DefaultTransport\<close>, \<open>new_handler\<close> is a handler of \<open>otelgrpc\<close>, and \<open>chain\<close> is how gRPC
  runs the interceptors given to \<open>WithChainUnaryInterceptor\<close>, of which \<open>chain_law\<close> states what is
  documented: the first is the outermost.
\<close>

section \<open>HTTP clients\<close>

type_synonym 'w transport = "http_request \<Rightarrow> 'w \<Rightarrow> int option \<times> goerr option \<times> 'w"

text \<open>The fields of an \<open>http.Client\<close>; \<open>None\<close> is nil.\<close>

record ('t, 'r, 'j) http_client =
  hcl_Transport :: "'t option"
  hcl_CheckRedirect :: "'r option"
  hcl_Jar :: "'j option"
  hcl_Timeout :: int

definition empty_client :: "('t, 'r, 'j) http_client" where
  "empty_client = \<lparr>hcl_Transport = None, hcl_CheckRedirect = None, hcl_Jar = None, hcl_Timeout = 0\<rparr>"

record 'w metrics_transport =
  mt_Base :: "'w transport option"
  mt_Source :: string
  mt_Destination :: string

definition or_default_transport :: "'t \<Rightarrow> 't option \<Rightarrow> 't" where
  "or_default_transport def rt = (case rt of None \<Rightarrow> def | Some rt \<Rightarrow> rt)"

text \<open>\<open>Transport.RoundTrip\<close> of the metrics, with its base.\<close>

definition transport_RoundTrip ::
    "(string \<Rightarrow> string option) \<Rightarrow> ('w \<Rightarrow> int) \<Rightarrow> 'w transport \<Rightarrow> 'w metrics_transport
       \<Rightarrow> http_request option \<Rightarrow> 'w \<Rightarrow> (int option \<times> goerr option \<times> int update list \<times> 'w) option"
where
  "transport_RoundTrip url_path clock def t req w =
     metrics_RoundTrip url_path clock (mt_Source t) (mt_Destination t)
       (or_default_transport def (mt_Base t)) req w"

definition metrics_HTTPClient ::
    "('w transport \<Rightarrow> 'w transport) \<Rightarrow> 'w transport \<Rightarrow> ('w transport, 'r, 'j) http_client option
       \<Rightarrow> string \<Rightarrow> string \<Rightarrow> ('w metrics_transport, 'r, 'j) http_client"
where
  "metrics_HTTPClient otel def base source destination =
     (let b = (case base of None \<Rightarrow> empty_client | Some b \<Rightarrow> b);
          rt = or_default_transport def (hcl_Transport b)
      in \<lparr>hcl_Transport = Some \<lparr>mt_Base = Some (otel rt), mt_Source = source,
                                mt_Destination = destination\<rparr>,
          hcl_CheckRedirect = hcl_CheckRedirect b, hcl_Jar = hcl_Jar b, hcl_Timeout = hcl_Timeout b\<rparr>)"

definition tracing_HTTPClient ::
    "('t \<Rightarrow> 't) \<Rightarrow> 't \<Rightarrow> ('t, 'r, 'j) http_client option \<Rightarrow> ('t, 'r, 'j) http_client"
where
  "tracing_HTTPClient otel def base =
     (let b = (case base of None \<Rightarrow> empty_client | Some b \<Rightarrow> b);
          rt = or_default_transport def (hcl_Transport b)
      in \<lparr>hcl_Transport = Some (otel rt),
          hcl_CheckRedirect = hcl_CheckRedirect b, hcl_Jar = hcl_Jar b, hcl_Timeout = hcl_Timeout b\<rparr>)"

section \<open>gRPC clients\<close>

text \<open>
  An invoker with the metrics that are recorded during the call, and an interceptor around it. The
  two interceptors of the library run on invokers whose state collects the updates.
\<close>

type_synonym 's invoker = "grpc_ctx \<Rightarrow> string \<Rightarrow> 's \<Rightarrow> goerr option \<times> int update list \<times> 's"
type_synonym 's interceptor = "'s invoker \<Rightarrow> 's invoker"

definition collecting ::
    "('s \<Rightarrow> 'r \<times> int update list \<times> 's) \<Rightarrow> int update list \<times> 's \<Rightarrow> 'r \<times> int update list \<times> 's"
where
  "collecting f p = (case p of (us, s) \<Rightarrow> (case f s of (r, us', s') \<Rightarrow> (r, us @ us', s')))"

definition metrics_interceptor :: "('s \<Rightarrow> int) \<Rightarrow> string \<Rightarrow> string \<Rightarrow> 's interceptor" where
  "metrics_interceptor clock source destination invoker ctx m s =
     (case metrics_UnaryClientInterceptor (\<lambda>p. clock (snd p)) source destination
             (\<lambda>octx. collecting (invoker (ctx\<lparr>gx_ctx := octx\<rparr>) m)) (Some (gx_ctx ctx)) m ([], s) of
        (err, us, us0, s') \<Rightarrow> (err, us0 @ us, s'))"

definition s2s_interceptor ::
    "(string \<Rightarrow> 's \<Rightarrow> (goerr + string) \<times> int update list \<times> 's) \<Rightarrow> string \<Rightarrow> 's interceptor"
where
  "s2s_interceptor source audience invoker ctx m s =
     UnaryClientInterceptor (\<lambda>aud. collecting (source aud)) audience
       (\<lambda>ctx'. collecting (invoker ctx' m)) ctx ([], s)"

text \<open>The token client as a source, with the metrics of \<open>Token\<close>.\<close>

definition counted_source ::
    "'w token_env \<Rightarrow> string \<Rightarrow> token_client \<times> 'w \<Rightarrow> (goerr + string) \<times> int update list \<times> token_client \<times> 'w"
where
  "counted_source env audience s = Token env audience (fst s) (snd s)"

datatype ('h, 'i) dial_option = WithStatsHandler 'h | WithChainUnaryInterceptor "'i list"

definition GRPCServerHandler :: "(unit \<Rightarrow> 'h) \<Rightarrow> 'h" where
  "GRPCServerHandler new_handler = new_handler ()"

definition GRPCClientHandler :: "(unit \<Rightarrow> 'h) \<Rightarrow> 'h" where
  "GRPCClientHandler new_handler = new_handler ()"

definition GRPCServerOption :: "('h \<Rightarrow> 'o) \<Rightarrow> (unit \<Rightarrow> 'h) \<Rightarrow> 'o" where
  "GRPCServerOption stats_handler new_handler = stats_handler (GRPCServerHandler new_handler)"

definition GRPCClientDialOption :: "(unit \<Rightarrow> 'h) \<Rightarrow> ('h, 'i) dial_option" where
  "GRPCClientDialOption new_handler = WithStatsHandler (GRPCClientHandler new_handler)"

definition GRPCClientDialOptions ::
    "(unit \<Rightarrow> 'h) \<Rightarrow> ('s \<Rightarrow> int) \<Rightarrow> string \<Rightarrow> string \<Rightarrow> 's interceptor option
       \<Rightarrow> ('h, 's interceptor) dial_option list"
where
  "GRPCClientDialOptions new_handler clock source destination s2sInterceptor =
     (let chain = [metrics_interceptor clock source destination]
                  @ (case s2sInterceptor of None \<Rightarrow> [] | Some i \<Rightarrow> [i])
      in [GRPCClientDialOption new_handler, WithChainUnaryInterceptor chain])"

fun interceptors :: "('h, 'i) dial_option list \<Rightarrow> 'i list" where
  "interceptors [] = []"
| "interceptors (WithStatsHandler h # os) = interceptors os"
| "interceptors (WithChainUnaryInterceptor is # os) = is @ interceptors os"

definition chain_law :: "('s interceptor list \<Rightarrow> 's interceptor) \<Rightarrow> bool" where
  "chain_law chain \<longleftrightarrow> (\<forall>is inv. chain is inv = foldr (\<lambda>i. i) is inv)"

section \<open>What a call through these clients does\<close>

text \<open>The updates of the metrics interceptor for a call that ended with \<open>err\<close>.\<close>

definition call_counts ::
    "string \<Rightarrow> string \<Rightarrow> string \<Rightarrow> goerr option \<Rightarrow> int \<Rightarrow> int \<Rightarrow> int update list"
where
  "call_counts source destination m err now start =
     [(''service_client_requests_total'',
       [SanitizeService source, SanitizeService destination, ''grpc'', GRPCOperation m,
        fst (classifyGRPC err), snd (classifyGRPC err)], Inc),
      (''service_client_request_duration_seconds'',
       [SanitizeService source, SanitizeService destination, ''grpc'', GRPCOperation m], Observe (since now start))]"

lemma metrics_interceptor_call:
  assumes "invoker (ctx\<lparr>gx_ctx := WithOperation (Some (gx_ctx ctx)) (GRPCOperation m)\<rparr>) m s = (err, us, s')"
  shows "metrics_interceptor clock source destination invoker ctx m s
    = (err, us @ call_counts source destination m err (clock s') (clock s), s')"
  using assms
  by (simp add: metrics_interceptor_def metrics_UnaryClientInterceptor_def collecting_def
      call_counts_def Let_def split: prod.split)

lemma s2s_interceptor_refused:
  "source aud s = (Inl err, us, s') \<Longrightarrow> s2s_interceptor source aud invoker ctx m s = (Some err, us, s')"
  by (simp add: s2s_interceptor_def UnaryClientInterceptor_def outgoingContext_def collecting_def)

lemma s2s_interceptor_call:
  assumes "source aud s = (Inr tok, us, s1)"
    and "invoker (ctx\<lparr>gx_outgoing := gx_outgoing ctx @ [(''authorization'', AuthorizationHeader tok)]\<rparr>) m s1
      = (err, us', s')"
  shows "s2s_interceptor source aud invoker ctx m s = (err, us @ us', s')"
  using assms
  by (simp add: s2s_interceptor_def UnaryClientInterceptor_def outgoingContext_def collecting_def)

text \<open>
  C19. A gRPC call with the client's dial options is counted once, whatever comes of it. With the service
  token client inside, the call's error is that of \<open>Token\<close>, and then nothing is sent, or that of
  the invoker, which gets the token in one more \<open>authorization\<close> value and the sanitized operation in its
  context; in both cases the metrics of the token come first, then those of the invoker, and last
  one request and one duration, labelled with the class of the error that is returned.
\<close>

theorem grpc_call_counted_once:
  assumes "chain_law chain"
    and "chain (interceptors (GRPCClientDialOptions new_handler clock source destination
           (Some (s2s_interceptor (counted_source env) aud)))) invoker ctx m (c, w) = (err, us, s')"
  shows "\<exists>now start. case Token env aud c w of
      (Inl e, us0, s0) \<Rightarrow> err = Some e \<and> s' = s0 \<and> us = us0 @ call_counts source destination m err now start
    | (Inr tok, us0, s0) \<Rightarrow>
        \<exists>us1. invoker (ctx\<lparr>gx_ctx := WithOperation (Some (gx_ctx ctx)) (GRPCOperation m),
                         gx_outgoing := gx_outgoing ctx @ [(''authorization'', AuthorizationHeader tok)]\<rparr>) m s0
            = (err, us1, s')
          \<and> us = us0 @ us1 @ call_counts source destination m err now start"
proof -
  let ?ctx = "ctx\<lparr>gx_ctx := WithOperation (Some (gx_ctx ctx)) (GRPCOperation m)\<rparr>"
  let ?s2s = "s2s_interceptor (counted_source env) aud invoker"
  have run: "metrics_interceptor clock source destination ?s2s ctx m (c, w) = (err, us, s')"
    using assms unfolding chain_law_def
    by (simp add: GRPCClientDialOptions_def GRPCClientDialOption_def)
  obtain r us0 s0 where t: "Token env aud c w = (r, us0, s0)" by (metis surj_pair)
  then have src: "counted_source env aud (c, w) = (r, us0, s0)" by (simp add: counted_source_def)
  show ?thesis
  proof (cases r)
    case (Inl e)
    have "?s2s ?ctx m (c, w) = (Some e, us0, s0)" using src Inl by (simp add: s2s_interceptor_refused)
    from metrics_interceptor_call [where invoker = ?s2s, OF this] run t Inl
    show ?thesis by auto
  next
    case (Inr tok)
    let ?ctx' = "?ctx\<lparr>gx_outgoing := gx_outgoing ?ctx @ [(''authorization'', AuthorizationHeader tok)]\<rparr>"
    obtain err' us1 s1 where inv: "invoker ?ctx' m s0 = (err', us1, s1)" by (metis surj_pair)
    have "?s2s ?ctx m (c, w) = (err', us0 @ us1, s1)"
      using src Inr inv by (intro s2s_interceptor_call) simp_all
    from metrics_interceptor_call [where invoker = ?s2s, OF this] run t Inr inv
    show ?thesis by auto
  qed
qed

definition demo_down_env :: "nat token_env" where
  "demo_down_env = demo_token_env\<lparr>te_Post := (\<lambda>u h p b w. (Inl (EText ''connection refused''), Suc w))\<rparr>"

theorem grpc_call_counted_once_witness:
  "\<exists>us s'. foldr (\<lambda>i. i) (interceptors (GRPCClientDialOptions (\<lambda>u. ()) (\<lambda>s. int (snd s)) ''api'' ''users''
        (Some (s2s_interceptor (counted_source demo_down_env) ''users''))))
        (\<lambda>ctx m s. (None, [], s)) demo_grpc_ctx ''/users.Users/Get'' (demo_client, 0)
      = (Some (EWrap ''service token: '' (EText ''connection refused'')), us, s')
    \<and> length (filter (\<lambda>u. fst u = ''service_client_requests_total'') us) = 1"
proof -
  let ?run = "foldr (\<lambda>i. i) (interceptors (GRPCClientDialOptions (\<lambda>u. ()) (\<lambda>s. int (snd s)) ''api'' ''users''
        (Some (s2s_interceptor (counted_source demo_down_env) ''users''))))
        (\<lambda>ctx m s. (None, [], s)) demo_grpc_ctx ''/users.Users/Get'' (demo_client, 0 :: nat)"
  obtain err us s' where run: "?run = (err, us, s')" by (metis surj_pair)
  have law: "chain_law (foldr (\<lambda>i. i))" by (simp add: chain_law_def)
  obtain us0 s0 where t: "Token demo_down_env ''users'' demo_client 0
        = (Inl (EWrap ''service token: '' (EText ''connection refused'')), us0, s0)"
    and none: "filter (\<lambda>u. fst u = ''service_client_requests_total'') us0 = []"
    by (simp add: Token_def demo_client_def demo_down_env_def demo_token_env_def cache_hit_def
        token_fetch_def RecordTokenRequest_def RecordTokenRequestFailure_def Let_def)
  obtain now start where err: "err = Some (EWrap ''service token: '' (EText ''connection refused''))"
    and us: "us = us0 @ call_counts ''api'' ''users'' ''/users.Users/Get'' err now start"
    using grpc_call_counted_once [where chain = "foldr (\<lambda>i. i)" and new_handler = "\<lambda>u. ()"
        and clock = "\<lambda>s. int (snd s)" and source = "''api''" and destination = "''users''"
        and env = demo_down_env and aud = "''users''" and invoker = "\<lambda>ctx m s. (None, [], s)"
        and ctx = demo_grpc_ctx and m = "''/users.Users/Get''" and c = demo_client and w = 0
        and err = err and us = us and s' = s', OF law run]
    unfolding t prod.case sum.case by (elim exE conjE)
  have "length (filter (\<lambda>u. fst u = ''service_client_requests_total'') us) = 1"
    unfolding us by (simp add: none call_counts_def)
  with run [unfolded err] show ?thesis by blast
qed

text \<open>
  The instrumented HTTP client is the traced client with the metrics around its transport: it keeps
  the redirect policy, the cookie jar and the timeout, and a request through it is one request of the
  traced transport, with the operation in the context.
\<close>

lemma metrics_client_alt:
  "metrics_HTTPClient otel def base source destination =
     (let c = tracing_HTTPClient otel def base
      in \<lparr>hcl_Transport = Some \<lparr>mt_Base = hcl_Transport c, mt_Source = source, mt_Destination = destination\<rparr>,
          hcl_CheckRedirect = hcl_CheckRedirect c, hcl_Jar = hcl_Jar c, hcl_Timeout = hcl_Timeout c\<rparr>)"
  by (simp add: metrics_HTTPClient_def tracing_HTTPClient_def Let_def)

theorem http_client_counts:
  assumes "hcl_Transport (metrics_HTTPClient otel def base source destination) = Some t"
    and "transport_RoundTrip url_path clock def t (Some r) w = Some (resp, err, us, w')"
    and "length (to_upper (trim_space (hr_Method r))) \<le> 31" and "length (cx_http_operation (hr_Ctx r)) \<le> 128"
  shows "\<exists>rt oper. hcl_Transport (tracing_HTTPClient otel def base) = Some rt
    \<and> rt (r\<lparr>hr_Ctx := WithOperation (Some (hr_Ctx r)) oper\<rparr>) w = (resp, err, w')
    \<and> list_all update_good us \<and> length us = (if fst (classifyHTTP resp err) = ''success'' then 2 else 3)"
proof -
  obtain rt where rt: "hcl_Transport (tracing_HTTPClient otel def base) = Some rt"
    by (simp add: tracing_HTTPClient_def Let_def)
  with assms(1) have t: "t = \<lparr>mt_Base = Some rt, mt_Source = source, mt_Destination = destination\<rparr>"
    by (simp add: metrics_client_alt Let_def)
  with assms(2) have "metrics_RoundTrip url_path clock source destination rt (Some r) w = Some (resp, err, us, w')"
    by (simp add: transport_RoundTrip_def or_default_transport_def)
  from roundtrip_updates [OF this assms(3,4)] rt show ?thesis by blast
qed

end
