(* ===== verification/Metrics_State.thy ===== *)
theory Metrics_State
  imports Metrics_Labels
begin

text \<open>
  The counters of the process after any sequence of calls of the recording functions
  (\<open>observability/metrics\<close>): a counter's value for some labels is the number of its \<open>Inc\<close> among the
  updates. What dashboards divide is consistent: failures are part of the totals.
\<close>

section \<open>Values of counters\<close>

text \<open>\<open>increments us metric P\<close>: the sum of the counter over the label values that satisfy \<open>P\<close>.\<close>

definition increments :: "'f update list \<Rightarrow> string \<Rightarrow> (string list \<Rightarrow> bool) \<Rightarrow> nat" where
  "increments us metric P = length (filter (\<lambda>(m, ls, ope). m = metric \<and> P ls \<and> ope = Inc) us)"

lemma increments_Nil [simp]: "increments [] metric P = 0"
  by (simp add: increments_def)

lemma increments_append [simp]: "increments (us @ vs) metric P = increments us metric P + increments vs metric P"
  by (simp add: increments_def)

lemma increments_Cons [simp]:
  "increments ((m, ls, ope) # us) metric P =
     (if m = metric \<and> P ls \<and> ope = Inc then 1 else 0) + increments us metric P"
  by (simp add: increments_def)

inductive recorded :: "(string \<Rightarrow> bool) \<Rightarrow> 'f update list \<Rightarrow> bool" for uni where
  recorded_start: "recorded uni []"
| recorded_call: "recorded uni us \<Longrightarrow> recorder uni now vs \<Longrightarrow> recorded uni (us @ vs)"

section \<open>Failures and totals\<close>

text \<open>
  The failure counters with their totals: the names, how many of the labels they share, and which
  values of the total's other labels are failures. For the two of \<open>s2s.go\<close> the totals have no
  label for the result.
\<close>

definition result_pairs :: "(string \<times> string \<times> nat \<times> (string list \<Rightarrow> bool)) list" where
  "result_pairs =
     [(''messaging_publish_failures_total'', ''messaging_publish_total'', 3, \<lambda>r. r \<noteq> [''success'']),
      (''messaging_consume_failures_total'', ''messaging_consume_total'', 2, \<lambda>r. r \<noteq> [''success'']),
      (''outbox_dispatch_failures_total'', ''outbox_dispatch_total'', 3,
       \<lambda>r. r = [''failed''] \<or> r = [''error'']),
      (''business_operation_failures_total'', ''business_operation_total'', 2,
       \<lambda>r. r = [''system_failure''])]"

definition s2s_pairs :: "(string \<times> string) list" where
  "s2s_pairs =
     [(''s2s_auth_failures_total'', ''s2s_auth_requests_total''),
      (''s2s_token_request_failures_total'', ''s2s_token_requests_total'')]"

definition shares :: "'f update list \<Rightarrow> string \<times> string \<times> nat \<times> (string list \<Rightarrow> bool) \<Rightarrow> bool" where
  "shares us p = (case p of (fails, whole, k, bad) \<Rightarrow>
     \<forall>ls. increments us fails (\<lambda>l. take k l = ls)
       = increments us whole (\<lambda>l. take k l = ls \<and> bad (drop k l)))"

definition within :: "'f update list \<Rightarrow> string \<times> string \<Rightarrow> bool" where
  "within us p = (case p of (fails, whole) \<Rightarrow>
     \<forall>ls. increments us fails (\<lambda>l. take 2 l = ls) \<le> increments us whole (\<lambda>l. l = ls))"

definition consistent :: "'f update list \<Rightarrow> bool" where
  "consistent us \<longleftrightarrow> list_all (shares us) result_pairs \<and> list_all (within us) s2s_pairs"

lemma shares_append: "shares us p \<Longrightarrow> shares vs p \<Longrightarrow> shares (us @ vs) p"
  by (cases p) (simp add: shares_def)

lemma within_append: "within us p \<Longrightarrow> within vs p \<Longrightarrow> within (us @ vs) p"
  by (cases p) (simp add: within_def add_mono)

lemma consistent_append: "consistent us \<Longrightarrow> consistent vs \<Longrightarrow> consistent (us @ vs)"
  by (simp add: consistent_def list_all_iff shares_append within_append)

lemma consistent_Nil: "consistent []"
  by (auto simp: consistent_def list_all_iff shares_def within_def)

text \<open>A single update of a metric that is in none of the pairs.\<close>

definition paired_metrics :: "string list" where
  "paired_metrics = map fst result_pairs @ map (\<lambda>p. fst (snd p)) result_pairs
     @ map fst s2s_pairs @ map snd s2s_pairs"

lemma paired_members:
  "p \<in> set result_pairs \<Longrightarrow> List.member paired_metrics (fst p) \<and> List.member paired_metrics (fst (snd p))"
  "q \<in> set s2s_pairs \<Longrightarrow> List.member paired_metrics (fst q) \<and> List.member paired_metrics (snd q)"
  by (simp_all add: paired_metrics_def)

lemma consistent_other:
  assumes "list_all (\<lambda>(m, ls, ope). \<not> List.member paired_metrics m) us"
  shows "consistent us"
proof -
  have none: "increments us m P = 0" if "List.member paired_metrics m" for m P
    using assms that by (auto simp: increments_def filter_empty_conv list_all_iff)
  then have "shares us p" if "p \<in> set result_pairs" for p
    using none paired_members(1) [OF that] by (cases p) (simp add: shares_def)
  moreover have "within us p" if "p \<in> set s2s_pairs" for p
    using none paired_members(2) [OF that] by (cases p) (simp add: within_def)
  ultimately show ?thesis by (simp add: consistent_def list_all_iff)
qed

lemmas plain_recorders =
  RecordTokenCacheHit_def RecordRetry_def RecordDLQ_def RecordUnroutable_def RecordConfirmTimeout_def
  RecordDuplicate_def SetOldestMessageAge_def ObserveMessageTimestamp_def SetOutboxPending_def
  SetOutboxFailed_def SetOutboxExhausted_def SetOutboxOldestPending_def operation_count_def
  RecordReconciliationMismatch_def RecordReconciliationRepaired_def RecordReconciliationScanned_def
  RecordReconciliationFailed_def RecordAmbiguousOperation_def SetCircuitBreakerState_def
  RecordClientFailure_def RecordClientRetry_def RecordClientTimeout_def RecordClientGiveUp_def
  RecordCircuitBreakerTransition_def

lemmas pair_defs = consistent_def shares_def within_def result_pairs_def s2s_pairs_def

lemma auth_consistent:
  "consistent (RecordS2SAuth s d)" "consistent (RecordS2SAuthFailure s d r)"
  "consistent (RecordTokenRequest s d)" "consistent (RecordTokenRequestFailure s d r)"
  by (auto simp: pair_defs RecordS2SAuth_def RecordS2SAuthFailure_def RecordTokenRequest_def
      RecordTokenRequestFailure_def Let_def)

lemma message_consistent:
  "consistent (RecordPublish uni now s e x r t)" "consistent (RecordConsume now s e r t)"
  by (auto simp: pair_defs RecordPublish_def RecordConsume_def Let_def split: option.split)

lemma dispatch_consistent: "consistent (RecordOutboxDispatch uni now s d e r t)"
  by (auto simp: pair_defs RecordOutboxDispatch_def outbox_labels_def Let_def split: option.split)

lemma business_consistent: "consistent (RecordBusiness s p r)"
  by (auto simp: pair_defs RecordBusiness_def Let_def)

lemma recorder_consistent: "recorder uni now us \<Longrightarrow> consistent us"
proof (induction rule: recorder.induct)
qed (auto simp: auth_consistent message_consistent dispatch_consistent business_consistent
    plain_recorders paired_metrics_def result_pairs_def s2s_pairs_def Let_def
    intro!: consistent_other split: option.split)

text \<open>
  C33. The failure counters are consistent with the totals, whatever the services, labels and results they are
  given. After any sequence of calls of the recording functions, for messages published and consumed,
  outbox dispatches and business operations, and for any values of the labels the two share, the
  failures are exactly those of the total whose result is a failure; and the failures of service
  authentication and of token requests are never more than the requests.
\<close>

theorem failures_within_totals:
  assumes "recorded uni us"
  shows "(\<forall>(fails, whole, k, bad) \<in> set result_pairs. \<forall>ls.
      increments us fails (\<lambda>l. take k l = ls) = increments us whole (\<lambda>l. take k l = ls \<and> bad (drop k l)))
    \<and> (\<forall>(fails, whole) \<in> set s2s_pairs. \<forall>ls.
      increments us fails (\<lambda>l. take 2 l = ls) \<le> increments us whole (\<lambda>l. l = ls))"
proof -
  have "consistent us"
    using assms
    by induction (auto intro: consistent_Nil consistent_append recorder_consistent)
  then show ?thesis
    by (auto simp: consistent_def list_all_iff shares_def within_def dest!: bspec)
qed

definition demo_publishes :: "int update list" where
  "demo_publishes =
     RecordPublish (\<lambda>r. False) 0 ''svc'' ''order.created'' ''orders'' ''error'' None
     @ RecordPublish (\<lambda>r. False) 0 ''svc'' ''order.created'' ''orders'' ''success'' None"

theorem failures_within_totals_witness:
  "\<exists>ls. increments demo_publishes ''messaging_publish_total'' (\<lambda>l. take 3 l = ls) = 2
     \<and> increments demo_publishes ''messaging_publish_total'' (\<lambda>l. take 3 l = ls \<and> drop 3 l \<noteq> [''success'']) = 1"
proof -
  let ?ls = "[SanitizeService ''svc'', SanitizeEventType ''order.created'', SanitizeExchange (\<lambda>r. False) ''orders'']"
  have res: "SanitizeResult ''error'' = ''error''" "SanitizeResult ''success'' = ''success''"
    by code_simp+
  have call: "recorder (\<lambda>r. False) 0 (RecordPublish (\<lambda>r. False) 0 s e x r t)" for s e x r t
    by (rule recorder.intros)
  have run: "recorded (\<lambda>r. False) demo_publishes"
    using recorded_call [OF recorded_call [OF recorded_start call] call]
    unfolding demo_publishes_def by (simp only: append_Nil)
  have "increments demo_publishes ''messaging_publish_failures_total'' (\<lambda>l. take 3 l = ?ls) = 1"
    by (simp add: demo_publishes_def RecordPublish_def Let_def res)
  moreover have "increments demo_publishes ''messaging_publish_total'' (\<lambda>l. take 3 l = ?ls) = 2"
    by (simp add: demo_publishes_def RecordPublish_def Let_def res)
  moreover have "increments demo_publishes ''messaging_publish_failures_total'' (\<lambda>l. take 3 l = ?ls)
      = increments demo_publishes ''messaging_publish_total'' (\<lambda>l. take 3 l = ?ls \<and> drop 3 l \<noteq> [''success''])"
    using failures_within_totals [OF run] by (simp add: result_pairs_def)
  ultimately show ?thesis by (intro exI [of _ ?ls]) simp
qed

text \<open>
  Outbound calls are outside this: the HTTP transport counts every status that is not a success in
  \<open>service_client_failures_total\<close>, a 404 as well, and the gRPC interceptor counts no failure at all.
\<close>

theorem grpc_failures_uncounted:
  assumes "metrics_UnaryClientInterceptor clock source destination invoker ctx m w = (err, us, w')"
  shows "increments us ''service_client_failures_total'' P = 0"
  using assms by (auto simp: metrics_UnaryClientInterceptor_def Let_def split: prod.splits)

theorem grpc_failures_uncounted_witness:
  "\<exists>us. metrics_UnaryClientInterceptor int ''api'' ''users'' (\<lambda>ctx w. (Some EDeadline, Suc w)) None ''/a.B/C'' 0
      = (Some EDeadline, us :: int update list, 1)
     \<and> increments us ''service_client_failures_total'' (\<lambda>l. True) = 0"
proof -
  obtain err us w' where r: "metrics_UnaryClientInterceptor int ''api'' ''users''
      (\<lambda>ctx w. (Some EDeadline, Suc w)) None ''/a.B/C'' 0 = (err, us :: int update list, w')"
    by (metis surj_pair)
  then have "err = Some EDeadline \<and> w' = 1"
    by (auto simp: metrics_UnaryClientInterceptor_def Let_def split: prod.splits)
  with r grpc_failures_uncounted [OF r] show ?thesis by blast
qed

end
