(* ===== verification/Spec2Isabelle.thy ===== *)
theory Spec2Isabelle
  imports Runtime Delivery Retry_Policy Aead Grpc_Auth Request_Flow Client_IP Transport_TLS
    Outcome Http_Limit Safe_Config Captcha Tracing Tracer Postgres Metrics_Contract
    Service_Calls Outbound Metrics_State
begin

text \<open>
  The shared Go packages of a family of services (\<open>github.com/mehrdad-masoumi/go-packages\<close>): the life
  cycle of a process, errors and their HTTP responses, messaging over RabbitMQ with an outbox,
  authentication between services and of users, observability, and access to PostgreSQL.

  The parts and their theories, with the files under \<open>src/\<close> each one models. A Go function keeps its
  name; a prefix is added where two packages use the same one or HOL has it (\<open>jwt_Verify\<close>,
  \<open>s2s_Verify\<close>, \<open>pg_Open\<close>).

  Shared. \<open>Go_Prelude\<close> has what the code uses of the Go language and its standard library: 64-bit
  integers with their wrap-around, strings as lists of bytes, \<open>strings.TrimSpace\<close>, \<open>Fields\<close>, \<open>Split\<close>,
  \<open>Join\<close> and \<open>Contains\<close>, \<open>strconv.Itoa\<close>. \<open>Go_Net\<close> is the part of package \<open>net\<close> that the client address
  needs, \<open>Go_Float\<close> the comparison of floating-point numbers with not-a-number, \<open>Encoding\<close> base64 and
  hexadecimal. \<open>Go_Errors\<close> is module \<open>errors\<close> together with the error values of the other packages, as one
  datatype, so that \<open>errors.As\<close> and \<open>errors.Is\<close> are walks of a chain.

  Process. \<open>Runtime\<close> (\<open>runtime/app.go\<close>): registration as functions on the record \<open>app\<close>; \<open>Run\<close> as the
  interleaving of its own goroutine (\<open>run_step\<close>), the goroutines it starts (\<open>task_step\<close>) and the
  contexts. Invariants over all reachable states give the order of a shutdown, that closers wait for
  the drain, the error \<open>Run\<close> returns, and with the readiness endpoint of \<open>HTTP_Errors\<close> when the process
  says it is ready; a measure gives that it returns after the deadline.

  Messaging. \<open>Outbox\<close> (\<open>messaging/outbox\<close>): one tick of the relay and its loop over a world with the
  store, the publisher and the clock; \<open>Backoff\<close> in 64-bit arithmetic against its closed form.
  \<open>Retry_Policy\<close> (\<open>messaging/retry\<close>): the retry count in message headers. \<open>RabbitMQ\<close>
  (\<open>messaging/rabbitmq/client.go\<close>, \<open>wait.go\<close>): the reconnect goroutine and \<open>Close\<close> as interleaved steps on
  the fields of the client, and the confirmed publish; with the outbox it gives that an event is marked
  only if the broker acknowledged its message. \<open>Delivery\<close> is the abstract specification of delivery,
  the refinement of it by the relay's runs, and the outbox over RabbitMQ as a whole: no event is lost,
  for each has its own message acknowledged before it leaves the store.

  HTTP. \<open>HTTP_Errors\<close> (\<open>http/middleware/error.go\<close>, \<open>http/health\<close>): errors to responses, the recorded
  statuses, the readiness endpoint. \<open>HTTP_Server\<close> (\<open>http/server\<close>, \<open>http/metrics\<close>,
  \<open>http/middleware/request.go\<close>, \<open>tracing.go\<close>): the middlewares \<open>New\<close> installs, as functions on handlers
  that may panic, and what the whole chain counts and logs.

  Observability. \<open>Logger\<close> (\<open>observability/logger\<close>): the logger of the process as a state. \<open>Metrics\<close>
  (\<open>observability/metrics\<close>): sanitizers, collectors, and every recording function as the updates it makes;
  \<open>Metrics_Labels\<close> which values the labels can take and which updates the Prometheus client accepts;
  \<open>Metrics_Contract\<close> that they keep to the constants of \<open>contract.go\<close>; \<open>Metrics_State\<close> the values of the
  counters after any sequence of recordings, with the failures as a part of the totals.
  \<open>Tracing\<close> (\<open>observability/tracing\<close>, \<open>messaging/rabbitmq/tracing.go\<close>): carriers, propagation, spans.
  \<open>Tracer\<close> (\<open>observability/tracing/tracer.go\<close>): initialisation and shutdown of the provider.
  \<open>Outbound\<close> (\<open>HTTPClient\<close> of both packages, \<open>GRPCClientDialOptions\<close>, \<open>observability/tracing/grpc.go\<close>): how
  the instrumented clients are put together, and what a call through them counts.

  Security. \<open>Aead\<close>, \<open>JWKS\<close>, \<open>Tokens\<close>, \<open>JWT\<close>,
  \<open>S2S\<close>: envelopes, the key cache, user and service tokens, the token client and its
  transport. \<open>Echo_Auth\<close> and \<open>Grpc_Auth\<close>: the middlewares and interceptors
  that guard handlers with them, \<open>Request_Flow\<close> the guards together with the error handler:
  what a refused user or service is told, and how the whole server counts the refused request.
  \<open>Service_Calls\<close> is a specification of what a service guard admits, its refinement by the
  guards of both transports, which are so equivalent, and a whole call: a token that was issued, fetched
  and sent opens the guards of the receiver. \<open>Transport_TLS\<close>, \<open>Client_IP\<close>,
  \<open>Captcha\<close>, \<open>Outcome\<close>, \<open>Http_Limit\<close>, \<open>Safe_Config\<close>:
  the files of the same names under \<open>security/\<close>.

  Data. \<open>Postgres\<close> (\<open>postgres/connection\<close>, \<open>postgres/migration\<close>): pools, creating the database of a DSN
  against the server's set of databases and the statements it gets, migrations.

  Interfaces. Where one part relies on another the law is a locale, with the client's lemmas proved
  once and an interpretation on the model: \<open>checker\<close> (health and \<open>Runtime\<close>), \<open>bounded_label\<close> (the
  sanitizers), \<open>carrier\<close> (maps, AMQP and HTTP headers), \<open>confirming_publisher\<close> (the outbox and RabbitMQ),
  \<open>key_store\<close> (the JWKS cache), \<open>token_verifier\<close> with its extensions \<open>user_tokens\<close> and \<open>service_tokens\<close> (the
  middlewares and the two verifiers), \<open>token_source\<close> (the transport and the token client). Libraries that
  are not in the repository (echo, amqp091, otel, golang-jwt, the PostgreSQL driver, AES and SHA) are
  arguments or records of functions, and what a theorem needs of them is a named hypothesis:
  \<open>echo_laws\<close>, \<open>otel_quiet\<close>, \<open>jwt_sound\<close>, \<open>jwt_reads\<close>, \<open>propagates\<close>, \<open>json_ok\<close>, \<open>serves\<close>,
  \<open>chain_law\<close> and the like; each such theorem has a witness.

  Bounds. \<open>int\<close> and durations are integers wrapped to 64 bits where the code computes with them
  (\<open>Backoff\<close>, the retry count, the limit of \<open>ReadAll\<close>), and unbounded where it only compares. The loop of
  \<open>Backoff\<close> recurses on its number of rounds and stops at the cap. The \<open>select\<close> loops of the relay follow a
  list of the cases chosen, of any length. \<open>filter_runes_fuel\<close> gets the length of its string, and every
  round takes at least one byte.

  Not modelled. The functions that only hand values to a library (\<open>SpanFromContext\<close>, \<open>Propagator\<close>), that
  parse with one (\<open>parseRatio\<close>, an argument of \<open>Tracer\<close>) or only serve tests (\<open>MustAtoi\<close>, \<open>BoolPtr\<close>,
  \<open>FloatPtr\<close>). Output formats of \<open>log/slog\<close> and of Prometheus are those of the
  libraries. The recording functions are the updates they make: \<open>WithLabelValues\<close> panics on a value that is
  not valid UTF-8, \<open>update_accepted\<close> says when, and the models of the callers (\<open>http_Middleware\<close>, the
  interceptors and transports) do not follow that panic. Data races on fields the code does not guard are
  outside the model: a step reads and writes the shared state atomically.
\<close>

end
